(* ===== verification/Rust_Str.thy ===== *)
theory Rust_Str
  imports Prelude
begin

text \<open>
  Rust \<open>str\<close> values as lists of UTF-8 bytes (\<open>string\<close>, one \<open>char\<close>
  per byte), so that \<open>length\<close> is \<open>str::len\<close>. The operations of the standard
  library the program calls are written on bytes; for well-formed UTF-8 they agree with the
  code-point definitions of the library because a lead byte never occurs inside a sequence.
\<close>

abbreviation byte :: "char \<Rightarrow> nat" where "byte c \<equiv> of_char c"

section \<open>ASCII case\<close>

definition to_ascii_lower :: "char \<Rightarrow> char" where
  "to_ascii_lower c = (if 65 \<le> byte c \<and> byte c \<le> 90 then char_of (byte c + 32) else c)"

definition to_ascii_lowercase :: "string \<Rightarrow> string" where
  "to_ascii_lowercase s = map to_ascii_lower s"

definition eq_ignore_ascii_case :: "string \<Rightarrow> string \<Rightarrow> bool" where
  "eq_ignore_ascii_case a b \<longleftrightarrow> to_ascii_lowercase a = to_ascii_lowercase b"

lemma length_to_ascii_lowercase [simp]: "length (to_ascii_lowercase s) = length s"
  by (simp add: to_ascii_lowercase_def)

lemma eq_ignore_ascii_case_refl [simp]: "eq_ignore_ascii_case s s"
  by (simp add: eq_ignore_ascii_case_def)

lemma byte_less: "byte c < 256"
proof -
  have "byte c \<in> range (of_char :: char \<Rightarrow> nat)" by simp
  then show ?thesis by (simp only: range_nat_of_char) simp
qed

lemma to_ascii_lower_idem [simp]: "to_ascii_lower (to_ascii_lower c) = to_ascii_lower c"
proof (cases "65 \<le> byte c \<and> byte c \<le> 90")
  case True
  then have "byte (to_ascii_lower c) = byte c + 32"
    by (simp add: to_ascii_lower_def of_char_of)
  with True show ?thesis
    by (simp add: to_ascii_lower_def [of "to_ascii_lower c"])
next
  case False
  then have "to_ascii_lower c = c" by (auto simp: to_ascii_lower_def)
  then show ?thesis by simp
qed

lemma to_ascii_lowercase_idem [simp]:
  "to_ascii_lowercase (to_ascii_lowercase s) = to_ascii_lowercase s"
  by (simp add: to_ascii_lowercase_def)

section \<open>Character classes\<close>

definition is_ascii_digit :: "char \<Rightarrow> bool" where
  "is_ascii_digit c \<longleftrightarrow> 48 \<le> byte c \<and> byte c \<le> 57"

definition is_ascii_alphabetic :: "char \<Rightarrow> bool" where
  "is_ascii_alphabetic c \<longleftrightarrow>
     65 \<le> byte c \<and> byte c \<le> 90 \<or> 97 \<le> byte c \<and> byte c \<le> 122"

definition is_ascii_alphanumeric :: "char \<Rightarrow> bool" where
  "is_ascii_alphanumeric c \<longleftrightarrow> is_ascii_digit c \<or> is_ascii_alphabetic c"

definition is_ascii_hexdigit :: "char \<Rightarrow> bool" where
  "is_ascii_hexdigit c \<longleftrightarrow>
     is_ascii_digit c \<or> 65 \<le> byte c \<and> byte c \<le> 70 \<or> 97 \<le> byte c \<and> byte c \<le> 102"

text \<open>\<open>u8::is_ascii_whitespace\<close>: space, tab, line feed, form feed, carriage return.\<close>

definition is_ascii_whitespace :: "char \<Rightarrow> bool" where
  "is_ascii_whitespace c \<longleftrightarrow> byte c \<in> {9, 10, 12, 13, 32}"

text \<open>
  \<open>chars().any(char::is_control)\<close>: the general category Cc is U+0000--U+001F and
  U+007F--U+009F; the second half of it is the two-byte sequences C2 80 -- C2 9F.
\<close>

fun has_control :: "string \<Rightarrow> bool" where
  "has_control [] = False"
| "has_control (c # cs) =
     (byte c < 32 \<or> byte c = 127 \<or>
      (byte c = 194 \<and> (case cs of [] \<Rightarrow> False | d # _ \<Rightarrow> 128 \<le> byte d \<and> byte d \<le> 159)) \<or>
      has_control cs)"

lemma has_control_ascii:
  "\<forall>c \<in> set s. 32 \<le> byte c \<and> byte c < 127 \<Longrightarrow> \<not> has_control s"
  by (induction s) (auto split: list.splits)

section \<open>Searching and cutting\<close>

fun str_contains :: "string \<Rightarrow> string \<Rightarrow> bool" where
  "str_contains [] n = (n = [])"
| "str_contains (c # cs) n = (prefix n (c # cs) \<or> str_contains cs n)"

lemma str_contains_sublist: "str_contains h n \<longleftrightarrow> sublist n h"
  by (induction h) (auto simp: sublist_Cons_right)

definition strip_prefix :: "string \<Rightarrow> string \<Rightarrow> string option" where
  "strip_prefix p s = (if prefix p s then Some (drop (length p) s) else None)"

lemma strip_prefix_Some_iff: "strip_prefix p s = Some r \<longleftrightarrow> s = p @ r"
  by (auto simp: strip_prefix_def prefix_def)

fun split_on :: "char \<Rightarrow> string \<Rightarrow> string list" where
  "split_on d [] = [[]]"
| "split_on d (c # cs) =
     (if c = d then [] # split_on d cs
      else (case split_on d cs of [] \<Rightarrow> [[c]] | s # ss \<Rightarrow> (c # s) # ss))"

lemma split_on_nonempty [simp]: "split_on d s \<noteq> []"
  by (induction s) (auto split: list.splits)

lemma split_on_free: "t \<in> set (split_on d s) \<Longrightarrow> d \<notin> set t"
proof (induction s arbitrary: t)
  case Nil
  then show ?case by simp
next
  case (Cons c cs)
  then obtain s ss where "split_on d cs = s # ss" by (cases "split_on d cs") auto
  with Cons show ?case by (auto split: if_splits)
qed

section \<open>Trimming\<close>

text \<open>
  The width in bytes of the \<open>White_Space\<close> code point a string starts with, or zero:
  U+0009--000D, 0020, 0085, 00A0, 1680, 2000--200A, 2028, 2029, 202F, 205F, 3000.
\<close>

fun ws_width :: "string \<Rightarrow> nat" where
  "ws_width [] = 0"
| "ws_width (a # s) =
     (if byte a \<in> {9, 10, 11, 12, 13, 32} then 1
      else case s of
        [] \<Rightarrow> 0
      | b # s' \<Rightarrow>
          if byte a = 194 \<and> byte b \<in> {133, 160} then 2
          else case s' of
            [] \<Rightarrow> 0
          | c # _ \<Rightarrow>
              if byte a = 225 \<and> byte b = 154 \<and> byte c = 128
               \<or> byte a = 226 \<and> byte b = 128 \<and>
                   (128 \<le> byte c \<and> byte c \<le> 138 \<or> byte c \<in> {168, 169, 175})
               \<or> byte a = 226 \<and> byte b = 129 \<and> byte c = 159
               \<or> byte a = 227 \<and> byte b = 128 \<and> byte c = 128
              then 3 else 0)"

text \<open>The same for the code point a string ends with, on the reversed bytes.\<close>

fun ws_width_rev :: "string \<Rightarrow> nat" where
  "ws_width_rev [] = 0"
| "ws_width_rev [a] = ws_width [a]"
| "ws_width_rev [b, a] = (if ws_width [b] = 1 then 1 else if ws_width [a, b] = 2 then 2 else 0)"
| "ws_width_rev (c # b # a # s) =
     (if ws_width [c] = 1 then 1 else if ws_width [b, c] = 2 then 2
      else if ws_width [a, b, c] = 3 then 3 else 0)"

function drop_ws :: "(string \<Rightarrow> nat) \<Rightarrow> string \<Rightarrow> string" where
  "drop_ws w s = (if s = [] \<or> w s = 0 then s else drop_ws w (drop (w s) s))"
  by pat_completeness auto
termination by (relation "measure (\<lambda>(w, s). length s)") auto

declare drop_ws.simps [simp del]

definition trim_start :: "string \<Rightarrow> string" where "trim_start s = drop_ws ws_width s"
definition trim_end :: "string \<Rightarrow> string" where "trim_end s = rev (drop_ws ws_width_rev (rev s))"
definition trim :: "string \<Rightarrow> string" where "trim s = trim_end (trim_start s)"

lemma drop_ws_id: "w s = 0 \<Longrightarrow> drop_ws w s = s"
  by (subst drop_ws.simps) simp

lemma drop_ws_result: "drop_ws w s = [] \<or> w (drop_ws w s) = 0"
proof (induction w s rule: drop_ws.induct)
  case (1 w s)
  then show ?case by (cases "s = [] \<or> w s = 0") (auto simp: drop_ws.simps [of w s])
qed

lemma drop_ws_suffix: "suffix (drop_ws w s) s"
proof (induction w s rule: drop_ws.induct)
  case (1 w s)
  show ?case
  proof (cases "s = [] \<or> w s = 0")
    case True
    then show ?thesis by (auto simp: drop_ws.simps [of w s])
  next
    case False
    with 1 have "suffix (drop_ws w (drop (w s) s)) (drop (w s) s)" by simp
    then have "suffix (drop_ws w (drop (w s) s)) s"
      by (meson suffix_drop suffix_order.trans)
    with False show ?thesis by (simp add: drop_ws.simps [of w s])
  qed
qed

lemma length_trim_le: "length (trim s) \<le> length s"
proof -
  have "length (trim_end t) \<le> length t" for t
    using suffix_length_le [OF drop_ws_suffix [of ws_width_rev "rev t"]]
    by (simp add: trim_end_def)
  moreover have "length (trim_start s) \<le> length s"
    using suffix_length_le [OF drop_ws_suffix [of ws_width s]] by (simp add: trim_start_def)
  ultimately show ?thesis unfolding trim_def by (meson le_trans)
qed

section \<open>UTF-8 validity\<close>

definition cont_byte :: "char \<Rightarrow> bool" where
  "cont_byte c \<longleftrightarrow> 128 \<le> byte c \<and> byte c \<le> 191"

text \<open>\<open>str::from_utf8(..).is_ok()\<close>: the well-formed sequences of the Unicode standard.\<close>

fun utf8_valid :: "string \<Rightarrow> bool" where
  "utf8_valid [] = True"
| "utf8_valid (a # s) =
     (if byte a < 128 then utf8_valid s
      else case s of
        [] \<Rightarrow> False
      | b # s1 \<Rightarrow>
        if 194 \<le> byte a \<and> byte a \<le> 223 then cont_byte b \<and> utf8_valid s1
        else case s1 of
          [] \<Rightarrow> False
        | c # s2 \<Rightarrow>
          if 224 \<le> byte a \<and> byte a \<le> 239 then
            cont_byte b \<and> cont_byte c \<and> (byte a = 224 \<longrightarrow> 160 \<le> byte b) \<and>
            (byte a = 237 \<longrightarrow> byte b \<le> 159) \<and> utf8_valid s2
          else case s2 of
            [] \<Rightarrow> False
          | d # s3 \<Rightarrow>
              240 \<le> byte a \<and> byte a \<le> 244 \<and> cont_byte b \<and> cont_byte c \<and> cont_byte d \<and>
              (byte a = 240 \<longrightarrow> 144 \<le> byte b) \<and> (byte a = 244 \<longrightarrow> byte b \<le> 143) \<and>
              utf8_valid s3)"

lemma utf8_valid_ascii: "\<forall>c \<in> set s. byte c < 128 \<Longrightarrow> utf8_valid s"
  by (induction s) auto

section \<open>Decimal numbers\<close>

text \<open>
  \<open>str::parse\<close> for an unsigned type with maximum \<open>m\<close>: an optional plus sign, then at
  least one digit, no overflow.
\<close>

fun parse_digits :: "nat \<Rightarrow> string \<Rightarrow> nat option" where
  "parse_digits acc [] = Some acc"
| "parse_digits acc (c # cs) =
     (if is_ascii_digit c then parse_digits (10 * acc + (byte c - 48)) cs else None)"

definition parse_unsigned :: "nat \<Rightarrow> string \<Rightarrow> nat option" where
  "parse_unsigned m s =
     (let ds = (case s of c # cs \<Rightarrow> if c = CHR ''+'' then cs else s | [] \<Rightarrow> s)
      in if ds = [] then None
         else case parse_digits 0 ds of
           None \<Rightarrow> None | Some n \<Rightarrow> if n \<le> m then Some n else None)"

lemma parse_unsigned_bound: "parse_unsigned m s = Some n \<Longrightarrow> n \<le> m"
  by (auto simp: parse_unsigned_def Let_def split: if_splits option.splits)

lemma parse_digits_pow: "parse_digits acc ds = Some n \<Longrightarrow> acc * 10 ^ length ds \<le> n"
  by (induction ds arbitrary: acc) (fastforce split: if_splits simp: algebra_simps)+

text \<open>The \<open>Display\<close> of an unsigned integer.\<close>

definition digit :: "nat \<Rightarrow> char" where
  "digit d = char_of (48 + d)"

fun show_nat :: "nat \<Rightarrow> string" where
  "show_nat n = (if n < 10 then [digit n] else show_nat (n div 10) @ [digit (n mod 10)])"

declare show_nat.simps [simp del]

lemma byte_digit: "d < 10 \<Longrightarrow> byte (digit d) = 48 + d"
  by (simp add: digit_def)

lemma parse_digits_snoc:
  "parse_digits acc (ds @ [c]) = (case parse_digits acc ds of None \<Rightarrow> None
     | Some n \<Rightarrow> if is_ascii_digit c then Some (10 * n + (byte c - 48)) else None)"
  by (induction ds arbitrary: acc) auto

lemma parse_show_nat: "parse_digits 0 (show_nat n) = Some n"
proof (induction n rule: less_induct)
  case (less n)
  show ?case
  proof (cases "n < 10")
    case True
    then show ?thesis by (simp add: show_nat.simps [of n] is_ascii_digit_def byte_digit)
  next
    case False
    then have "parse_digits 0 (show_nat (n div 10)) = Some (n div 10)" by (intro less) auto
    then show ?thesis using False
      by (simp add: show_nat.simps [of n] parse_digits_snoc is_ascii_digit_def byte_digit)
  qed
qed

lemma show_nat_digits: "c \<in> set (show_nat n) \<Longrightarrow> is_ascii_digit c"
proof (induction n rule: less_induct)
  case (less n)
  show ?case
  proof (cases "n < 10")
    case True
    with less.prems show ?thesis by (simp add: show_nat.simps [of n] is_ascii_digit_def byte_digit)
  next
    case False
    with less.prems less.IH [of "n div 10"] show ?thesis
      by (auto simp: show_nat.simps [of n] is_ascii_digit_def byte_digit)
  qed
qed

lemma show_nat_nonempty [simp]: "show_nat n \<noteq> []"
  by (subst show_nat.simps) simp

lemma parse_unsigned_show: "n \<le> m \<Longrightarrow> parse_unsigned m (show_nat n) = Some n"
proof -
  assume "n \<le> m"
  obtain c cs where s: "show_nat n = c # cs" by (cases "show_nat n") auto
  then have "is_ascii_digit c" using show_nat_digits [of c n] by simp
  then have "c \<noteq> CHR ''+''" by (auto simp: is_ascii_digit_def)
  with s \<open>n \<le> m\<close> parse_show_nat [of n] show ?thesis by (simp add: parse_unsigned_def)
qed

lemma split_on_free_append: "d \<notin> set s \<Longrightarrow> split_on d (s @ d # r) = s # split_on d r"
  by (induction s) auto

lemma split_on_free_whole: "d \<notin> set s \<Longrightarrow> split_on d s = [s]"
  by (induction s) auto

end
