(* ===== verification/Json.thy ===== *)
theory Json
  imports Rust_Str
begin

text \<open>
  JSON values as \<open>serde_json::Value\<close> has them, and the shape of the deserialisers the
  program derives for its inputs: objects with known, required, defaulted and optional
  fields. A derived struct is also accepted as the array of its fields in declaration order;
  a unit variant also as an object with the variant name as its only key.
\<close>

datatype json =
    JNull
  | JBool bool
  | JInt int
  | JFloat f64
  | JStr string
  | JArr "json list"
  | JObj "(string \<times> json) list"

type_synonym obj = "(string \<times> json) list"

definition jget :: "string \<Rightarrow> json \<Rightarrow> json option" where
  "jget k j = (case j of JObj fs \<Rightarrow> map_of fs k | _ \<Rightarrow> None)"

definition as_str :: "json \<Rightarrow> string option" where
  "as_str j = (case j of JStr s \<Rightarrow> Some s | _ \<Rightarrow> None)"

definition as_bool :: "json \<Rightarrow> bool option" where
  "as_bool j = (case j of JBool b \<Rightarrow> Some b | _ \<Rightarrow> None)"

text \<open>\<open>data[key] = value\<close> on an object: replace in place or append.\<close>

fun jset :: "string \<Rightarrow> json \<Rightarrow> obj \<Rightarrow> obj" where
  "jset k v [] = [(k, v)]"
| "jset k v ((k', v') # fs) = (if k' = k then (k, v) # fs else (k', v') # jset k v fs)"

lemma map_of_jset: "map_of (jset k v fs) = (map_of fs)(k \<mapsto> v)"
  by (induction fs) auto

section \<open>Derived deserialisers\<close>

definition de_str :: "json \<Rightarrow> string option" where "de_str = as_str"
definition de_bool :: "json \<Rightarrow> bool option" where "de_bool = as_bool"

definition de_uint :: "nat \<Rightarrow> json \<Rightarrow> nat option" where
  "de_uint m j = (case j of JInt n \<Rightarrow> if 0 \<le> n \<and> n \<le> int m then Some (nat n) else None | _ \<Rightarrow> None)"

definition de_i64 :: "json \<Rightarrow> int option" where
  "de_i64 j = (case j of JInt n \<Rightarrow> if is_i64 n then Some n else None | _ \<Rightarrow> None)"

fun de_all :: "(json \<Rightarrow> 'a option) \<Rightarrow> json list \<Rightarrow> 'a list option" where
  "de_all d [] = Some []"
| "de_all d (j # js) =
     (case d j of None \<Rightarrow> None
      | Some x \<Rightarrow> (case de_all d js of None \<Rightarrow> None | Some xs \<Rightarrow> Some (x # xs)))"

definition de_list :: "(json \<Rightarrow> 'a option) \<Rightarrow> json \<Rightarrow> 'a list option" where
  "de_list d j = (case j of JArr js \<Rightarrow> de_all d js | _ \<Rightarrow> None)"

definition de_option :: "(json \<Rightarrow> 'a option) \<Rightarrow> json \<Rightarrow> 'a option option" where
  "de_option d j = (if j = JNull then Some None else map_option Some (d j))"

definition de_enum :: "(string \<times> 'a) list \<Rightarrow> json \<Rightarrow> 'a option" where
  "de_enum table j = (case j of
       JStr s \<Rightarrow> map_of table s
     | JObj [(s, JNull)] \<Rightarrow> map_of table s
     | _ \<Rightarrow> None)"

text \<open>\<open>deny_unknown_fields\<close>, then the fields one by one.\<close>

definition known_fields :: "string list \<Rightarrow> obj \<Rightarrow> bool" where
  "known_fields names fs \<longleftrightarrow> list_all (\<lambda>f. fst f \<in> set names) fs"

definition field_req :: "(json \<Rightarrow> 'a option) \<Rightarrow> string \<Rightarrow> obj \<Rightarrow> 'a option" where
  "field_req d k fs = (case map_of fs k of None \<Rightarrow> None | Some j \<Rightarrow> d j)"

definition field_def :: "(json \<Rightarrow> 'a option) \<Rightarrow> 'a \<Rightarrow> string \<Rightarrow> obj \<Rightarrow> 'a option" where
  "field_def d x k fs = (case map_of fs k of None \<Rightarrow> Some x | Some j \<Rightarrow> d j)"

definition field_opt :: "(json \<Rightarrow> 'a option) \<Rightarrow> string \<Rightarrow> obj \<Rightarrow> 'a option option" where
  "field_opt d k fs = field_def (de_option d) None k fs"

definition as_struct :: "string list \<Rightarrow> nat \<Rightarrow> json \<Rightarrow> obj option" where
  "as_struct names required j = (case j of
       JObj fs \<Rightarrow> if known_fields names fs then Some fs else None
     | JArr js \<Rightarrow> if required \<le> length js \<and> length js \<le> length names
                  then Some (zip names js) else None
     | _ \<Rightarrow> None)"

lemma de_uint_bound: "de_uint m j = Some n \<Longrightarrow> n \<le> m"
  by (auto simp: de_uint_def split: json.splits if_splits)

lemma field_def_absent: "map_of fs k = None \<Longrightarrow> field_def d x k fs = Some x"
  by (simp add: field_def_def)

lemma field_opt_absent: "map_of fs k = None \<Longrightarrow> field_opt d k fs = Some None"
  by (simp add: field_opt_def field_def_absent)

lemma unknown_field_refused:
  "(k, v) \<in> set fs \<Longrightarrow> k \<notin> set names \<Longrightarrow> \<not> known_fields names fs"
  by (force simp: known_fields_def list_all_iff)

end
