(* ===== verification/Api_Types.thy ===== *)
theory Api_Types
  imports Json
begin

text \<open>
  The data of \<open>crates/komodo-api\<close>: the resource lists, operations, configuration and
  network facts Komodo Core reports, the patch and the actions sent to it, and the errors.
  Field names carry a short prefix per struct.
\<close>

section \<open>Resource lists (\<open>lib.rs\<close>)\<close>

record 'i resource_list_item =
  ri_id :: string
  ri_type :: string
  ri_name :: string
  ri_template :: "bool option"
  ri_tags :: "string list option"
  ri_info :: 'i

record reported_error =
  re_error :: string
  re_trace :: "string list"

record alerting_thresholds =
  at_cpu_warning :: f64
  at_cpu_critical :: f64
  at_mem_warning :: f64
  at_mem_critical :: f64
  at_disk_warning :: f64
  at_disk_critical :: f64

record load_average =
  la_one :: f64
  la_five :: f64
  la_fifteen :: f64

record system_stats =
  ss_cpu_perc :: f64
  ss_load_average :: load_average
  ss_mem_free_gb :: f64
  ss_mem_used_gb :: f64
  ss_mem_total_gb :: f64
  ss_mem_buff_cache_gb :: f64
  ss_mem_zfs_arc_gb :: f64
  ss_swap_total_gb :: f64
  ss_swap_used_gb :: f64
  ss_disk_total_gb :: f64
  ss_disk_used_gb :: f64
  ss_network_ingress_bytes :: f64
  ss_network_egress_bytes :: f64
  ss_polling_rate :: string
  ss_refresh_ts :: int
  ss_refresh_list_ts :: int

record server_info =
  srv_state :: string
  srv_version :: "string option"
  srv_err :: "reported_error option"
  srv_stats :: "system_stats option"
  srv_alerting_thresholds :: "alerting_thresholds option"
  srv_core_count :: "nat option"
  srv_logical_core_count :: "nat option"
  srv_region :: "string option"
  srv_address :: "string option"
  srv_external_address :: "string option"
  srv_public_ip :: "string option"
  srv_public_key :: "string option"
  srv_attempted_public_key :: "string option"
  srv_send_unreachable_alerts :: "bool option"
  srv_send_cpu_alerts :: "bool option"
  srv_send_mem_alerts :: "bool option"
  srv_send_disk_alerts :: "bool option"
  srv_send_version_mismatch_alerts :: "bool option"
  srv_terminals_disabled :: "bool option"
  srv_container_terminals_disabled :: "bool option"

record stack_service =
  svc_service :: string
  svc_image :: string
  svc_update_available :: bool

record stack_info =
  stk_state :: string
  stk_swarm_id :: "string option"
  stk_swarm_name :: "string option"
  stk_server_id :: "string option"
  stk_server_name :: "string option"
  stk_files_on_host :: "bool option"
  stk_file_contents :: "bool option"
  stk_linked_repo :: "string option"
  stk_linked_repo_name :: "string option"
  stk_git_provider :: "string option"
  stk_repo :: "string option"
  stk_branch :: "string option"
  stk_repo_link :: "string option"
  stk_auto_update_all_services :: "bool option"
  stk_status :: "string option"
  stk_services :: "stack_service list"
  stk_project_missing :: bool
  stk_missing_files :: "string list"
  stk_deployed_hash :: "string option"
  stk_latest_hash :: "string option"

record deployment_info =
  dep_state :: string
  dep_status :: "string option"
  dep_custom_name :: "string option"
  dep_image :: "string option"
  dep_swarm_id :: "string option"
  dep_swarm_name :: "string option"
  dep_server_id :: "string option"
  dep_server_name :: "string option"
  dep_build_id :: "string option"
  dep_update_available :: bool

record resource_version =
  rv_major :: int
  rv_minor :: int
  rv_patch :: int

record build_info =
  bld_state :: string
  bld_version :: "resource_version option"
  bld_builder_id :: "string option"
  bld_files_on_host :: "bool option"
  bld_dockerfile_contents :: "bool option"
  bld_linked_repo :: "string option"
  bld_linked_repo_name :: "string option"
  bld_git_provider :: "string option"
  bld_repo :: "string option"
  bld_branch :: "string option"
  bld_repo_link :: "string option"
  bld_built_hash :: "string option"
  bld_latest_hash :: "string option"
  bld_image_registry_domain :: "string option"
  bld_last_built_at :: int

record repo_info =
  rep_state :: string
  rep_server_id :: "string option"
  rep_server_name :: "string option"
  rep_builder_id :: "string option"
  rep_git_provider :: "string option"
  rep_repo :: "string option"
  rep_branch :: "string option"
  rep_repo_link :: "string option"
  rep_cloned_hash :: "string option"
  rep_cloned_message :: "string option"
  rep_built_hash :: "string option"
  rep_latest_hash :: "string option"
  rep_last_pulled_at :: int
  rep_last_built_at :: int

section \<open>Operations\<close>

record operation_target =
  ot_kind :: string
  ot_id :: string

record operation_item =
  op_id :: string
  op_operation :: string
  op_start_ts :: int
  op_success :: bool
  op_status :: string
  op_operator :: "string option"
  op_username :: "string option"
  op_end_ts :: "int option"
  op_version :: "resource_version option"
  op_commit_hash :: "string option"
  op_other_data :: "string option"
  op_prev_toml :: "string option"
  op_current_toml :: "string option"
  op_target :: "operation_target option"

record list_updates_response =
  lur_updates :: "operation_item list"
  lur_next_page :: "nat option"

record operation_page =
  opg_operations :: "operation_item list"
  opg_next_page :: "nat option"

record mutation_receipt =
  mr_operation_id :: string
  mr_operation :: string
  mr_start_ts :: int
  mr_success :: bool
  mr_status :: string

text \<open>Identifiers arrive as a string or as an extended-JSON object.\<close>

definition deserialize_object_id :: "json \<Rightarrow> string option" where
  "deserialize_object_id value = (case value of
       JStr i \<Rightarrow> Some i
     | JObj _ \<Rightarrow> Option.bind (jget ''$oid'' value) as_str
     | _ \<Rightarrow> None)"

record log_record =
  lg_stage :: string
  lg_command :: string
  lg_stdout :: string
  lg_stderr :: string
  lg_success :: bool
  lg_start_ts :: int
  lg_end_ts :: int

section \<open>Stack configuration (\<open>lib.rs\<close>, \<open>stacks.rs\<close>)\<close>

record system_command =
  sc_path :: string
  sc_command :: string
  sc_shell_mode :: "bool option"

record stack_config_patch =
  p_file_contents :: "string option"
  p_environment :: "string option"
  p_pre_deploy :: "system_command option"
  p_post_deploy :: "system_command option"
  p_files_on_host :: "bool option"
  p_run_directory :: "string option"
  p_file_paths :: "string list option"
  p_env_file_path :: "string option"
  p_webhook_enabled :: "bool option"
  p_webhook_secret :: "string option"
  p_webhook_force_deploy :: "bool option"

definition default_patch :: stack_config_patch where
  "default_patch = \<lparr> p_file_contents = None, p_environment = None, p_pre_deploy = None,
     p_post_deploy = None, p_files_on_host = None, p_run_directory = None, p_file_paths = None,
     p_env_file_path = None, p_webhook_enabled = None, p_webhook_secret = None,
     p_webhook_force_deploy = None \<rparr>"

datatype additional_env_file =
    EnvPath string
  | EnvSettings string "bool option"

datatype stack_file_dependency =
    DepPath string
  | DepSettings string "string list option" "string option"

record stack_configuration_facts =
  scf_swarm_id :: "string option"
  scf_server_id :: "string option"
  scf_links :: "string list option"
  scf_project_name :: "string option"
  scf_auto_pull :: "bool option"
  scf_run_build :: "bool option"
  scf_poll_for_updates :: "bool option"
  scf_auto_update :: "bool option"
  scf_auto_update_all_services :: "bool option"
  scf_auto_update_skip_services :: "string list option"
  scf_destroy_before_deploy :: "bool option"
  scf_skip_secret_interp :: "bool option"
  scf_linked_repo :: "string option"
  scf_git_provider :: "string option"
  scf_git_https :: "bool option"
  scf_git_account :: "string option"
  scf_repo :: "string option"
  scf_branch :: "string option"
  scf_commit :: "string option"
  scf_clone_path :: "string option"
  scf_reclone :: "bool option"
  scf_additional_env_files :: "additional_env_file list option"
  scf_config_files :: "stack_file_dependency list option"
  scf_send_alerts :: "bool option"
  scf_registry_provider :: "string option"
  scf_registry_account :: "string option"
  scf_extra_args :: "string list option"
  scf_build_extra_args :: "string list option"
  scf_compose_cmd_wrapper :: "string option"
  scf_compose_cmd_wrapper_include :: "string list option"
  scf_ignore_services :: "string list option"

record stack_config_detail =
  cd_facts :: stack_configuration_facts
  cd_file_contents :: string
  cd_environment :: string
  cd_files_on_host :: bool
  cd_run_directory :: string
  cd_file_paths :: "string list"
  cd_env_file_path :: string
  cd_pre_deploy :: system_command
  cd_post_deploy :: system_command
  cd_webhook_enabled :: bool
  cd_webhook_secret :: string
  cd_webhook_force_deploy :: bool

record compose_file =
  cf_path :: string
  cf_contents :: string
  cf_services :: "string list option"
  cf_requires :: "string option"

record stack_service_names =
  ssn_service_name :: "string option"
  ssn_container_name :: "string option"
  ssn_image :: "string option"
  ssn_image_digest :: "string option"

record stack_compose_provenance =
  scp_missing_files :: "string list option"
  scp_deployed_project_name :: "string option"
  scp_deployed_hash :: "string option"
  scp_deployed_message :: "string option"
  scp_deployed_services :: "stack_service_names list option"
  scp_deployed_config :: "string option"
  scp_latest_services :: "stack_service_names list option"
  scp_remote_errors :: "compose_file list option"
  scp_latest_hash :: "string option"
  scp_latest_message :: "string option"

record stack_compose_info =
  sci_provenance :: stack_compose_provenance
  sci_deployed_contents :: "compose_file list option"
  sci_remote_contents :: "compose_file list option"

record stack_detail =
  sd_config :: stack_config_detail
  sd_info :: stack_compose_info

section \<open>Networks (\<open>networks.rs\<close>)\<close>

record network_list_item =
  nli_name :: "string option"
  nli_id :: "string option"
  nli_created :: "string option"
  nli_scope :: "string option"
  nli_driver :: "string option"
  nli_enable_ipv6 :: "bool option"
  nli_ipam_driver :: "string option"
  nli_ipam_subnet :: "string option"
  nli_ipam_gateway :: "string option"
  nli_internal :: "bool option"
  nli_attachable :: "bool option"
  nli_ingress :: "bool option"
  nli_in_use :: "bool option"

record ipam_config =
  ic_subnet :: "string option"
  ic_ip_range :: "string option"
  ic_gateway :: "string option"
  ic_auxiliary_addresses :: "(string \<times> string) list option"

record ipam =
  ipam_driver_name :: "string option"
  ipam_configs :: "ipam_config list option"
  ipam_options :: "(string \<times> string) list option"

record network_container =
  nc_container_id :: "string option"
  nc_name :: "string option"
  nc_endpoint_id :: "string option"
  nc_mac_address :: "string option"
  nc_ipv4_address :: "string option"
  nc_ipv6_address :: "string option"

record network =
  net_name :: "string option"
  net_id :: "string option"
  net_created :: "string option"
  net_scope :: "string option"
  net_driver :: "string option"
  net_enable_ipv6 :: "bool option"
  net_ipam :: "ipam option"
  net_internal :: "bool option"
  net_attachable :: "bool option"
  net_ingress :: "bool option"
  net_containers :: "network_container list option"
  net_options :: "(string \<times> string) list option"
  net_labels :: "(string \<times> string) list option"

text \<open>
  \<open>uses_current_names\<close>: read \<open>major.minor\<close> off a version such as \<open>v2.3.1\<close> and
  compare it with 2.3; \<open>None\<close> when it does not start with two numbers.
\<close>

definition uses_current_names :: "string \<Rightarrow> bool option" where
  "uses_current_names version =
     (let body = (case strip_prefix ''v'' version of None \<Rightarrow> version | Some r \<Rightarrow> r)
      in case split_on (CHR ''.'') body of
           major # minor # _ \<Rightarrow>
             Option.bind (parse_unsigned u64_max major) (\<lambda>ma.
             Option.bind (parse_unsigned u64_max minor) (\<lambda>mi.
               Some (2 < ma \<or> ma = 2 \<and> 3 \<le> mi)))
         | _ \<Rightarrow> None)"

section \<open>Actions\<close>

datatype action =
    DeployStack
  | RestartStack
  | StopStack
  | DeployDeployment
  | RestartDeployment
  | RunBuild
  | CancelBuild
  | PullRepo

fun action_variant :: "action \<Rightarrow> string" where
  "action_variant DeployStack = ''DeployStack''"
| "action_variant RestartStack = ''RestartStack''"
| "action_variant StopStack = ''StopStack''"
| "action_variant DeployDeployment = ''Deploy''"
| "action_variant RestartDeployment = ''RestartDeployment''"
| "action_variant RunBuild = ''RunBuild''"
| "action_variant CancelBuild = ''CancelBuild''"
| "action_variant PullRepo = ''PullRepo''"

fun action_parameter :: "action \<Rightarrow> string" where
  "action_parameter DeployStack = ''stack''"
| "action_parameter RestartStack = ''stack''"
| "action_parameter StopStack = ''stack''"
| "action_parameter DeployDeployment = ''deployment''"
| "action_parameter RestartDeployment = ''deployment''"
| "action_parameter RunBuild = ''build''"
| "action_parameter CancelBuild = ''build''"
| "action_parameter PullRepo = ''repo''"

lemma action_variant_inj: "action_variant a = action_variant b \<longleftrightarrow> a = b"
  by (cases a; cases b) simp_all

text \<open>
  A version of the form \<open>major.minor\<close> or
  \<open>major.minor.rest\<close>, with or without the leading \<open>v\<close>, speaks the current
  request names exactly when it is at least 2.3 as a pair of numbers, for all numbers that fit
  64 bits, so 2.10 is later than 2.3 and 10.0 later than 9.9.
\<close>

theorem version_comparison:
  assumes "major \<le> u64_max" "minor \<le> u64_max" "v = [] \<or> v = ''v''"
    and "rest = [] \<or> (\<exists>r. rest = CHR ''.'' # r)"
  shows "uses_current_names (v @ show_nat major @ ''.'' @ show_nat minor @ rest) =
    Some ((2, 3) \<le> (major, minor))"
proof -
  let ?body = "show_nat major @ ''.'' @ show_nat minor @ rest"
  have digits: "CHR ''.'' \<notin> set (show_nat n)" "CHR ''v'' \<notin> set (show_nat n)" for n
    using show_nat_digits [of "CHR ''.''" n] show_nat_digits [of "CHR ''v''" n]
    by (auto simp: is_ascii_digit_def)
  obtain c cs where "show_nat major = c # cs" by (cases "show_nat major") auto
  then have "strip_prefix ''v'' ?body = None"
    using digits(2) [of major] by (auto simp: strip_prefix_def)
  then have stripped: "(case strip_prefix ''v'' (v @ ?body) of None \<Rightarrow> v @ ?body | Some r \<Rightarrow> r) = ?body"
    using assms(3) by (auto simp: strip_prefix_def)
  obtain more where "split_on (CHR ''.'') (show_nat minor @ rest) = show_nat minor # more"
    using assms(4) digits(1) [of minor] by (auto simp: split_on_free_append split_on_free_whole)
  then have cut: "split_on (CHR ''.'') ?body = show_nat major # show_nat minor # more"
    using digits(1) [of major] by (simp add: split_on_free_append)
  show ?thesis
    unfolding uses_current_names_def Let_def stripped cut
    using assms(1,2) by (auto simp: parse_unsigned_show)
qed

theorem version_comparison_witness:
  "uses_current_names (''v'' @ show_nat 2 @ ''.'' @ show_nat 10 @ ''.1'') = Some ((2, 3) \<le> (2::nat, 10::nat))"
  by (rule version_comparison) (simp_all add: u64_max_def)

end
