(* ===== verification/Api_Errors.thy ===== *)
theory Api_Errors
  imports Api_Types
begin

text \<open>
  \<open>crates/komodo-api/src/errors.rs\<close> and the \<open>ApiError\<close> of \<open>lib.rs\<close>: what a
  failed request to Core reports, and how text that contains a known credential is cut into
  the segments around it. The multi-pattern matcher is the \<open>aho-corasick\<close> crate: a
  parameter \<open>build\<close>, of which the code relies on leftmost-longest matching
  (\<open>aho_corasick_contract\<close>).
\<close>

datatype diagnostic_text =
    Complete string
  | Segments "string list"

record diagnostic =
  dg_error :: diagnostic_text
  dg_trace :: "diagnostic_text list"

record upstream_failure =
  uf_status :: nat
  uf_request :: string
  uf_diagnostic :: "diagnostic option"
  uf_diagnostic_unavailable :: "string option"
  uf_credential_values_present :: "bool option"
  uf_original :: "string option"

datatype api_error =
    Upstream upstream_failure
  | InvalidConfiguration string
  | Authentication
  | Forbidden
  | NotFound
  | Unavailable
  | IncompatibleResponse
  | ResponseTooLarge
  | InventoryPaginationUnsupported
  | InventorySelectorTooBroad

definition upstream_failure_display :: "upstream_failure \<Rightarrow> string" where
  "upstream_failure_display f =
     (if uf_status f = 401 then ''Komodo authentication failed''
      else if uf_status f = 403 then ''Komodo denied the operation''
      else if uf_status f = 404 then ''the requested Komodo resource was not found''
      else if 500 \<le> uf_status f \<and> uf_status f \<le> 599 then ''Komodo is temporarily unavailable''
      else ''Komodo rejected the named request'')"

fun api_error_display :: "api_error \<Rightarrow> string" where
  "api_error_display (Upstream f) = upstream_failure_display f"
| "api_error_display (InvalidConfiguration label) =
     ''invalid Komodo client configuration: '' @ label"
| "api_error_display Authentication = ''Komodo authentication failed''"
| "api_error_display Forbidden = ''Komodo denied the operation''"
| "api_error_display NotFound = ''the requested Komodo resource was not found''"
| "api_error_display Unavailable = ''Komodo is temporarily unavailable''"
| "api_error_display IncompatibleResponse = ''Komodo returned an incompatible response''"
| "api_error_display ResponseTooLarge = ''Komodo response exceeded the configured bound''"
| "api_error_display InventoryPaginationUnsupported =
     ''inventory pagination requires Komodo Core 2.3 or later; use page zero on older Core''"
| "api_error_display InventorySelectorTooBroad =
     ''resource lookup exceeded its bounded search; use the exact resource id or check Core reachability''"

fun mutation_outcome_unknown :: "api_error \<Rightarrow> bool" where
  "mutation_outcome_unknown Unavailable = True"
| "mutation_outcome_unknown IncompatibleResponse = True"
| "mutation_outcome_unknown ResponseTooLarge = True"
| "mutation_outcome_unknown (Upstream f) = (uf_status f \<notin> {401, 403, 404})"
| "mutation_outcome_unknown _ = False"

fun resource_not_found :: "api_error \<Rightarrow> bool" where
  "resource_not_found NotFound = True"
| "resource_not_found (Upstream f) = (uf_status f = 404)"
| "resource_not_found _ = False"

section \<open>The matcher the code relies on\<close>

type_synonym matcher = "string \<Rightarrow> (nat \<times> nat) list"

definition slice :: "nat \<Rightarrow> nat \<Rightarrow> 'a list \<Rightarrow> 'a list" where
  "slice i j xs = take (j - i) (drop i xs)"

definition occurs_at :: "string \<Rightarrow> string \<Rightarrow> nat \<Rightarrow> bool" where
  "occurs_at p tx i \<longleftrightarrow> prefix p (drop i tx)"

definition no_pattern_in :: "string list \<Rightarrow> string \<Rightarrow> nat \<Rightarrow> nat \<Rightarrow> bool" where
  "no_pattern_in pats tx i j \<longleftrightarrow>
     (\<forall>k \<in> set [i..<j]. \<forall>p \<in> set pats. \<not> occurs_at p tx k)"

fun leftmost_longest :: "string list \<Rightarrow> string \<Rightarrow> nat \<Rightarrow> (nat \<times> nat) list \<Rightarrow> bool" where
  "leftmost_longest pats tx cursor [] = no_pattern_in pats tx cursor (length tx)"
| "leftmost_longest pats tx cursor ((s, e) # ms) =
     (cursor \<le> s \<and> s < e \<and> e \<le> length tx \<and> slice s e tx \<in> set pats \<and>
      (\<forall>p \<in> set pats. occurs_at p tx s \<longrightarrow> length p \<le> e - s) \<and>
      no_pattern_in pats tx cursor s \<and> leftmost_longest pats tx e ms)"

definition aho_corasick_contract :: "(string list \<Rightarrow> matcher option) \<Rightarrow> bool" where
  "aho_corasick_contract build \<longleftrightarrow>
     (\<forall>pats m. build pats = Some m \<longrightarrow> [] \<notin> set pats \<longrightarrow>
        (\<forall>tx. leftmost_longest pats tx 0 (m tx)))"

section \<open>Projection\<close>

definition max_segments :: nat where "max_segments = 256"

text \<open>
  The loop of \<open>project_text\<close> over the matches: cursor, segments, whether a match was
  seen, whether the segment bound was hit (which ends the loop).
\<close>

fun project_matches ::
  "string \<Rightarrow> (nat \<times> nat) list \<Rightarrow> nat \<Rightarrow> string list \<Rightarrow> bool \<Rightarrow> bool
    \<Rightarrow> nat \<times> string list \<times> bool \<times> bool" where
  "project_matches tx [] cursor segments changed fragmented =
     (cursor, segments, changed, fragmented)"
| "project_matches tx ((s, e) # ms) cursor segments changed fragmented =
     (if cursor < s then
        if length segments = max_segments then (cursor, segments, changed, True)
        else project_matches tx ms e (segments @ [slice cursor s tx]) True fragmented
      else project_matches tx ms e segments True fragmented)"

text \<open>
  Result: the projected text, \<open>present\<close> and \<open>fragmented\<close> after it (both are
  mutable references in the code and only ever become true).
\<close>

definition project_text ::
  "matcher \<Rightarrow> string \<Rightarrow> bool \<Rightarrow> bool \<Rightarrow> diagnostic_text \<times> bool \<times> bool" where
  "project_text m tx present fragmented =
     (let (cursor, segments, changed, frag) = project_matches tx (m tx) 0 [] False fragmented
      in if \<not> changed then (Complete tx, present, frag)
         else if cursor < length tx \<and> \<not> frag then
           if length segments = max_segments then (Segments segments, True, True)
           else (Segments (segments @ [drop cursor tx]), True, frag)
         else (Segments segments, True, frag))"

fun project_trace ::
  "matcher \<Rightarrow> string list \<Rightarrow> bool \<Rightarrow> bool \<Rightarrow> diagnostic_text list \<times> bool \<times> bool" where
  "project_trace m [] present fragmented = ([], present, fragmented)"
| "project_trace m (t # ts) present fragmented =
     (let (d, present', fragmented') = project_text m t present fragmented;
          (ds, present'', fragmented'') = project_trace m ts present' fragmented'
      in (d # ds, present'', fragmented''))"

text \<open>
  \<open>UpstreamFailure::from_response\<close>. \<open>de\<close> is the derived deserialiser of
  \<open>ReportedError\<close> on the response bytes.
\<close>

definition response_diagnostic ::
  "(string \<Rightarrow> reported_error option) \<Rightarrow> string \<Rightarrow> reported_error option" where
  "response_diagnostic de bytes =
     (if bytes = [] then None
      else case de bytes of
        Some r \<Rightarrow> Some r
      | None \<Rightarrow> if utf8_valid bytes then Some \<lparr> re_error = bytes, re_trace = [] \<rparr> else None)"

definition from_response ::
  "(string list \<Rightarrow> matcher option) \<Rightarrow> (string \<Rightarrow> reported_error option) \<Rightarrow> nat \<Rightarrow> string
    \<Rightarrow> string \<Rightarrow> string list \<Rightarrow> upstream_failure" where
  "from_response build de status request bytes credentials =
     (let diagnostic = response_diagnostic de bytes;
          unavailable =
            (if bytes = [] then Some ''upstream response body is empty''
             else if diagnostic = None
                  then Some ''upstream response body has unsupported encoding'' else None)
      in case build (filter (\<lambda>c. c \<noteq> []) credentials) of
           None \<Rightarrow>
             \<lparr> uf_status = status, uf_request = request, uf_diagnostic = None,
               uf_diagnostic_unavailable =
                 Some ''credential projection unavailable; use original file'',
               uf_credential_values_present = None, uf_original = Some bytes \<rparr>
         | Some m \<Rightarrow>
             (case diagnostic of
                None \<Rightarrow>
                  \<lparr> uf_status = status, uf_request = request, uf_diagnostic = None,
                    uf_diagnostic_unavailable = unavailable,
                    uf_credential_values_present = None, uf_original = None \<rparr>
              | Some r \<Rightarrow>
                  let (err, p1, f1) = project_text m (re_error r) False False;
                      (trace, present, fragmented) = project_trace m (re_trace r) p1 f1
                  in \<lparr> uf_status = status, uf_request = request,
                       uf_diagnostic =
                         (if fragmented then None
                          else Some \<lparr> dg_error = err, dg_trace = trace \<rparr>),
                       uf_diagnostic_unavailable =
                         (if fragmented
                          then Some ''credential-separated text exceeds inline segment bound; use original file''
                          else unavailable),
                       uf_credential_values_present = Some present,
                       uf_original = (if present then Some bytes else None) \<rparr>))"

definition without_body :: "nat \<Rightarrow> string \<Rightarrow> string \<Rightarrow> upstream_failure" where
  "without_body status request reason =
     \<lparr> uf_status = status, uf_request = request, uf_diagnostic = None,
       uf_diagnostic_unavailable = Some reason, uf_credential_values_present = None,
       uf_original = None \<rparr>"

text \<open>\<open>take_credential_document\<close>: the original bytes, taken out of the failure.\<close>

definition take_credential_document :: "upstream_failure \<Rightarrow> string option \<times> upstream_failure" where
  "take_credential_document f = (uf_original f, f\<lparr>uf_original := None\<rparr>)"

fun text_pieces :: "diagnostic_text \<Rightarrow> string list" where
  "text_pieces (Complete t) = [t]"
| "text_pieces (Segments ss) = ss"

definition diagnostic_pieces :: "diagnostic \<Rightarrow> string list" where
  "diagnostic_pieces d = concat (map text_pieces (dg_error d # dg_trace d))"

section \<open>Pieces between matches contain no pattern\<close>

definition clean :: "string list \<Rightarrow> string \<Rightarrow> bool" where
  "clean pats piece \<longleftrightarrow> (\<forall>p \<in> set pats. p \<noteq> [] \<longrightarrow> \<not> sublist p piece)"

lemma clean_slice:
  assumes "no_pattern_in pats tx i j" "j \<le> length tx"
  shows "clean pats (slice i j tx)"
  unfolding clean_def
proof (intro ballI impI notI)
  fix p assume p: "p \<in> set pats" "p \<noteq> []" "sublist p (slice i j tx)"
  then obtain a b where ab: "slice i j tx = a @ p @ b" by (auto simp: sublist_def)
  then have len: "length a + length p \<le> j - i"
    by (metis append_assoc le_add1 length_append length_take min.cobounded2 order_trans slice_def)
  with p(2) have lt: "i + length a < j" by (cases p) auto
  have "drop (length a) (slice i j tx) = p @ b" using ab by simp
  then have "take (j - i - length a) (drop (i + length a) tx) = p @ b"
    by (simp add: slice_def drop_take add.commute)
  then have "prefix p (drop (i + length a) tx)"
    by (metis append_prefixD take_is_prefix prefixI prefix_order.trans)
  moreover have "i + length a \<in> set [i..<j]" using lt by simp
  ultimately show False using assms(1) p(1) unfolding no_pattern_in_def occurs_at_def by blast
qed

lemma drop_eq_slice: "drop i tx = slice i (length tx) tx"
  by (simp add: slice_def)

lemma project_matches_clean:
  assumes "leftmost_longest pats tx cursor ms" "\<forall>s \<in> set segments. clean pats s"
    "project_matches tx ms cursor segments changed frag = (c, ss, ch, fr)"
    "cursor \<le> length tx"
  shows "(\<forall>s \<in> set ss. clean pats s) \<and>
    (fr \<or> (c \<le> length tx \<and> clean pats (drop c tx)))"
  using assms
proof (induction tx ms cursor segments changed frag rule: project_matches.induct)
  case (1 tx cursor segments changed fragmented)
  then have "clean pats (drop cursor tx)" by (simp add: drop_eq_slice clean_slice)
  with 1 show ?case by auto
next
  case (2 tx s e ms cursor segments changed fragmented)
  have "clean pats (slice cursor s tx)"
    using "2.prems" by (intro clean_slice) auto
  with 2 show ?case by (auto split: if_splits)
qed

lemma project_matches_changed:
  assumes "project_matches tx ms cursor segments changed frag = (c, ss, ch, fr)"
    "segments \<noteq> [] \<longrightarrow> changed"
  shows "ch \<longleftrightarrow> changed \<or> ms \<noteq> []"
  using assms
proof (induction tx ms cursor segments changed frag rule: project_matches.induct)
  case (2 tx s e ms cursor segments changed fragmented)
  then show ?case by (cases segments) (auto split: if_splits simp: max_segments_def)
qed auto

lemma project_matches_frag:
  "project_matches tx ms cursor segments changed frag = (c, ss, ch, fr) \<Longrightarrow> frag \<Longrightarrow> fr"
  by (induction tx ms cursor segments changed frag rule: project_matches.induct)
    (auto split: if_splits)

lemma project_matches_cursor:
  "project_matches tx ms cursor segments changed frag = (c, ss, ch, fr) \<Longrightarrow> \<not> ch \<Longrightarrow>
     segments = [] \<Longrightarrow> c = cursor \<and> ss = []"
  by (induction tx ms cursor segments changed frag rule: project_matches.induct)
    (auto split: if_splits simp: max_segments_def dest: project_matches_changed)

lemma project_text_clean:
  assumes m: "leftmost_longest pats tx 0 (m tx)"
    and p: "project_text m tx present fragmented = (d, present', fragmented')"
    and f: "\<not> fragmented'"
  shows "\<forall>s \<in> set (text_pieces d). clean pats s"
proof -
  obtain c ss ch fr where r: "project_matches tx (m tx) 0 [] False fragmented = (c, ss, ch, fr)"
    by (metis prod.exhaust)
  have "(\<forall>s \<in> set ss. clean pats s) \<and> (fr \<or> (c \<le> length tx \<and> clean pats (drop c tx)))"
    using project_matches_clean [OF m _ r] by simp
  moreover have "\<not> ch \<Longrightarrow> c = 0" using project_matches_cursor [OF r] by simp
  ultimately show ?thesis
    using p r f by (auto simp: project_text_def Let_def split: if_splits)
qed

lemma project_text_frag_mono:
  assumes "project_text m tx present fragmented = (d, present', fragmented')"
  shows "fragmented \<Longrightarrow> fragmented'" "present \<Longrightarrow> present'"
  using assms by (auto simp: project_text_def Let_def split: if_splits prod.splits
      dest: project_matches_frag)

lemma project_text_segments:
  assumes "project_text m tx present fragmented = (d, present', fragmented')"
  shows "length (text_pieces d) \<le> max_segments"
proof -
  have aux: "length segs \<le> max_segments \<Longrightarrow>
      project_matches t ms c segs ch fr = (c', ss, ch', fr') \<Longrightarrow> length ss \<le> max_segments"
    for t ms c segs ch fr c' ss ch' fr'
    by (induction t ms c segs ch fr rule: project_matches.induct) (auto split: if_splits)
  obtain c ss ch fr where r: "project_matches tx (m tx) 0 [] False fragmented = (c, ss, ch, fr)"
    by (metis prod.exhaust)
  have "length ss \<le> max_segments" using aux [OF _ r] by simp
  then show ?thesis
    using assms r by (auto simp: project_text_def Let_def max_segments_def split: if_splits)
qed

lemma project_trace_clean:
  assumes m: "\<And>tx. leftmost_longest pats tx 0 (m tx)"
  shows "project_trace m ts present fragmented = (ds, present', fragmented') \<Longrightarrow>
    \<not> fragmented' \<Longrightarrow>
    (\<forall>d \<in> set ds. \<forall>s \<in> set (text_pieces d). clean pats s) \<and> \<not> fragmented"
proof (induction ts arbitrary: present fragmented ds present' fragmented')
  case Nil
  then show ?case by simp
next
  case (Cons t ts)
  obtain d p1 f1 where d: "project_text m t present fragmented = (d, p1, f1)"
    by (metis prod.exhaust)
  obtain ds' where ds': "project_trace m ts p1 f1 = (ds', present', fragmented')" "ds = d # ds'"
    using Cons.prems(1) d by (auto split: prod.splits)
  with Cons.IH Cons.prems(2)
  have "(\<forall>d \<in> set ds'. \<forall>s \<in> set (text_pieces d). clean pats s) \<and> \<not> f1" by blast
  with project_text_clean [OF m d] project_text_frag_mono(1) [OF d] ds'(2)
  show ?case by auto
qed

section \<open>A matcher that satisfies the contract\<close>

definition longest_prefix :: "string list \<Rightarrow> string \<Rightarrow> nat" where
  "longest_prefix pats s = foldr (\<lambda>p n. if prefix p s then max (length p) n else n) pats 0"

function naive_scan :: "string list \<Rightarrow> string \<Rightarrow> nat \<Rightarrow> (nat \<times> nat) list" where
  "naive_scan pats tx i =
     (if length tx \<le> i then []
      else let n = longest_prefix pats (drop i tx)
           in if n = 0 then naive_scan pats tx (Suc i)
              else (i, i + n) # naive_scan pats tx (i + n))"
  by pat_completeness auto
termination by (relation "measure (\<lambda>(pats, tx, i). length tx - i)") auto

declare naive_scan.simps [simp del]

definition naive_matcher :: "string list \<Rightarrow> matcher option" where
  "naive_matcher pats = Some (\<lambda>tx. naive_scan pats tx 0)"

lemma longest_prefix_upper: "p \<in> set pats \<Longrightarrow> prefix p s \<Longrightarrow> length p \<le> longest_prefix pats s"
  by (induction pats) (auto simp: longest_prefix_def)

lemma longest_prefix_attained:
  "longest_prefix pats s \<noteq> 0 \<Longrightarrow>
     take (longest_prefix pats s) s \<in> set pats \<and> longest_prefix pats s \<le> length s"
proof (induction pats)
  case Nil
  then show ?case by (simp add: longest_prefix_def)
next
  case (Cons p pats)
  let ?n = "longest_prefix pats s"
  have step: "longest_prefix (p # pats) s = (if prefix p s then max (length p) ?n else ?n)"
    by (simp add: longest_prefix_def)
  show ?case
  proof (cases "prefix p s \<and> ?n \<le> length p")
    case True
    then have "longest_prefix (p # pats) s = length p" using step by simp
    moreover have "take (length p) s = p" "length p \<le> length s"
      using True by (auto simp: prefix_def)
    ultimately show ?thesis by simp
  next
    case False
    then have "longest_prefix (p # pats) s = ?n" using step by auto
    with Cons show ?thesis by auto
  qed
qed

lemma naive_scan_leftmost_longest:
  "cursor \<le> i \<Longrightarrow> no_pattern_in pats tx cursor i \<Longrightarrow> [] \<notin> set pats \<Longrightarrow>
    leftmost_longest pats tx cursor (naive_scan pats tx i)"
proof (induction pats tx i arbitrary: cursor rule: naive_scan.induct)
  case (1 pats tx i)
  let ?n = "longest_prefix pats (drop i tx)"
  consider "length tx \<le> i" | "i < length tx" "?n = 0" | "i < length tx" "?n \<noteq> 0" by linarith
  then show ?case
  proof cases
    case 1
    with "1.prems" show ?thesis
      by (auto simp: naive_scan.simps [of pats tx i] no_pattern_in_def)
  next
    case 2
    have "\<not> prefix p (drop i tx)" if "p \<in> set pats" for p
      using that 2 longest_prefix_upper [of p pats "drop i tx"] "1.prems"(3) by (cases p) auto
    with "1.prems" have "no_pattern_in pats tx cursor (Suc i)"
      by (auto simp: no_pattern_in_def occurs_at_def less_Suc_eq)
    with 2 "1.IH"(1) "1.prems" show ?thesis
      by (simp add: naive_scan.simps [of pats tx i] Let_def)
  next
    case 3
    then have "take ?n (drop i tx) \<in> set pats" "?n \<le> length tx - i"
      using longest_prefix_attained [of pats "drop i tx"] by auto
    moreover have "leftmost_longest pats tx (i + ?n) (naive_scan pats tx (i + ?n))"
      using 3 "1.prems"(3) by (intro "1.IH"(2)) (auto simp: no_pattern_in_def)
    ultimately show ?thesis
      using 3 "1.prems" longest_prefix_upper [of _ pats "drop i tx"]
      by (auto simp: naive_scan.simps [of pats tx i] Let_def slice_def occurs_at_def)
  qed
qed

lemma naive_matcher_contract: "aho_corasick_contract naive_matcher"
  by (auto simp: aho_corasick_contract_def naive_matcher_def no_pattern_in_def
      intro!: naive_scan_leftmost_longest)

section \<open>What a failed request discloses\<close>

lemma from_response_projected:
  assumes "aho_corasick_contract build"
    and "uf_diagnostic (from_response build de status request bytes credentials) = Some d"
    and "piece \<in> set (diagnostic_pieces d)"
  shows "clean (filter (\<lambda>c. c \<noteq> []) credentials) piece"
proof -
  let ?pats = "filter (\<lambda>c. c \<noteq> []) credentials"
  obtain m r where m: "build ?pats = Some m" and r: "response_diagnostic de bytes = Some r"
    using assms(2) by (auto simp: from_response_def Let_def split: option.splits)
  obtain err p1 f1 where err: "project_text m (re_error r) False False = (err, p1, f1)"
    by (metis prod.exhaust)
  obtain tr p2 f2 where tr: "project_trace m (re_trace r) p1 f1 = (tr, p2, f2)"
    by (metis prod.exhaust)
  have d: "\<not> f2" "d = \<lparr> dg_error = err, dg_trace = tr \<rparr>"
    using assms(2) m r err tr by (auto simp: from_response_def Let_def split: if_splits)
  have ll: "leftmost_longest ?pats tx 0 (m tx)" for tx
    using assms(1) m by (auto simp: aho_corasick_contract_def)
  from project_trace_clean [OF ll tr d(1)] project_text_clean [OF ll err] d(2) assms(3)
  show ?thesis by (auto simp: diagnostic_pieces_def)
qed

text \<open>
  C11: no inline diagnostic of a failed Core request contains a credential of the request.
  Whatever Core echoes back, every piece of error and trace text that reaches
  \<open>UpstreamFailure::diagnostic\<close> has none of the nonempty credential values as a
  substring, given that the matcher reports leftmost-longest matches.
\<close>

theorem diagnostics_free_of_credentials:
  assumes "aho_corasick_contract build"
    and "uf_diagnostic (from_response build de status request bytes credentials) = Some d"
    and "piece \<in> set (diagnostic_pieces d)" and "c \<in> set credentials" and "c \<noteq> []"
  shows "\<not> sublist c piece"
  using from_response_projected [OF assms(1-3)] assms(4,5) by (auto simp: clean_def)

definition sample_reported :: "string \<Rightarrow> reported_error option" where
  "sample_reported bytes = None"

theorem diagnostics_free_of_credentials_witness:
  "\<not> sublist ''key'' ''bad ''"
proof -
  have "uf_diagnostic (from_response naive_matcher sample_reported 500 ''GetStack''
      ''bad key'' [''key'', ''secret'']) =
    Some \<lparr> dg_error = Segments [''bad ''], dg_trace = [] \<rparr>"
    by code_simp
  then show ?thesis
    by (rule diagnostics_free_of_credentials [OF naive_matcher_contract])
      (auto simp: diagnostic_pieces_def)
qed

text \<open>
  A failure reports an inline diagnostic or the reason why there is none, never both and
  never neither, and the original bytes are kept exactly when a credential was seen or the
  matcher could not be built.
\<close>

theorem failure_diagnostic_or_reason:
  "(uf_diagnostic (from_response build de status request bytes credentials) = None) =
     (uf_diagnostic_unavailable (from_response build de status request bytes credentials) \<noteq> None) \<and>
   (uf_original (from_response build de status request bytes credentials) =
     (if uf_credential_values_present (from_response build de status request bytes credentials)
           = Some True \<or> build (filter (\<lambda>c. c \<noteq> []) credentials) = None
      then Some bytes else None))"
  by (auto simp: from_response_def response_diagnostic_def Let_def split: option.splits prod.splits)

text \<open>
  The projection is bounded: at most 256 segments per text, and the text is returned
  whole, as a complete text, exactly when the matcher found nothing in it.
\<close>

theorem projection_bounded:
  "length (text_pieces (fst (project_text m tx present fragmented))) \<le> 256 \<and>
   (fst (project_text m tx present fragmented) = Complete tx \<longleftrightarrow> m tx = [])"
proof -
  obtain d p f where d: "project_text m tx present fragmented = (d, p, f)" by (metis prod.exhaust)
  obtain c ss ch fr where r: "project_matches tx (m tx) 0 [] False fragmented = (c, ss, ch, fr)"
    by (metis prod.exhaust)
  have "ch \<longleftrightarrow> m tx \<noteq> []" using project_matches_changed [OF r] by simp
  then show ?thesis
    using project_text_segments [OF d] d r
    by (auto simp: project_text_def Let_def max_segments_def split: if_splits)
qed

end
