(* ===== verification/Urls.thy ===== *)
theory Urls
  imports Rust_Str
begin

unbundle bit_operations_syntax

text \<open>
  A parsed URL as the accessors of the \<open>url\<close> crate present it (parsing itself is the
  crate's: a parameter wherever the code parses or joins), and the address classes of
  \<open>std::net\<close> the program tests before it accepts plain HTTP.
\<close>

record ipv4 =
  octet_a :: "8 word"
  octet_b :: "8 word"
  octet_c :: "8 word"
  octet_d :: "8 word"

text \<open>The eight segments of an IPv6 address, first to last.\<close>

record ipv6 =
  segments :: "16 word list"

datatype host =
    HostIpv4 ipv4
  | HostIpv6 ipv6
  | HostDomain string

record url =
  url_scheme :: string
  url_username :: string
  url_password :: "string option"
  url_host :: "host option"
  url_path :: string
  url_query :: "string option"
  url_fragment :: "string option"
  url_cannot_be_a_base :: bool

definition ipv4_is_private :: "ipv4 \<Rightarrow> bool" where
  "ipv4_is_private a \<longleftrightarrow>
     octet_a a = 10 \<or>
     octet_a a = 172 \<and> 16 \<le> octet_b a \<and> octet_b a \<le> 31 \<or>
     octet_a a = 192 \<and> octet_b a = 168"

definition ipv4_is_loopback :: "ipv4 \<Rightarrow> bool" where
  "ipv4_is_loopback a \<longleftrightarrow> octet_a a = 127"

definition ipv6_is_loopback :: "ipv6 \<Rightarrow> bool" where
  "ipv6_is_loopback a \<longleftrightarrow> segments a = [0, 0, 0, 0, 0, 0, 0, 1]"

definition ipv6_is_unique_local :: "ipv6 \<Rightarrow> bool" where
  "ipv6_is_unique_local a \<longleftrightarrow>
     (case segments a of [] \<Rightarrow> False | s # _ \<Rightarrow> s AND 0xfe00 = 0xfc00)"

text \<open>
  The host test shared by the Core base URL and the JWKS URL: loopback and private
  literals, \<open>localhost\<close> and single-label names.
\<close>

definition is_private_host :: "url \<Rightarrow> bool" where
  "is_private_host u = (case url_host u of
       Some (HostIpv4 a) \<Rightarrow> ipv4_is_loopback a \<or> ipv4_is_private a
     | Some (HostIpv6 a) \<Rightarrow> ipv6_is_loopback a \<or> ipv6_is_unique_local a
     | Some (HostDomain d) \<Rightarrow> d = ''localhost'' \<or> CHR ''.'' \<notin> set d
     | None \<Rightarrow> False)"

definition plain_url :: "string \<Rightarrow> host \<Rightarrow> url" where
  "plain_url scheme h = \<lparr> url_scheme = scheme, url_username = [], url_password = None,
     url_host = Some h, url_path = ''/'', url_query = None, url_fragment = None,
     url_cannot_be_a_base = False \<rparr>"

end
