(* ===== verification/Api_Operations.thy ===== *)
theory Api_Operations
  imports Api_Types
begin

text \<open>
  \<open>crates/komodo-api/src/operations.rs\<close>: the fixed filters over Komodo's update history,
  as the query document sent to Core and as the local filter on a page.
\<close>

datatype update_status_filter = Queued | InProgress | StatusComplete | StatusOther

fun status_matches :: "update_status_filter \<Rightarrow> string \<Rightarrow> bool" where
  "status_matches Queued status = (status = ''Queued'')"
| "status_matches InProgress status = (status = ''InProgress'')"
| "status_matches StatusComplete status = (status = ''Complete'')"
| "status_matches StatusOther status = (status \<notin> {''Queued'', ''InProgress'', ''Complete''})"

record operation_query =
  oq_target :: "operation_target option"
  oq_operation :: "string option"
  oq_status :: "update_status_filter option"
  oq_success :: "bool option"
  oq_started_after :: "int option"
  oq_started_before :: "int option"

definition default_query :: operation_query where
  "default_query = \<lparr> oq_target = None, oq_operation = None, oq_status = None,
     oq_success = None, oq_started_after = None, oq_started_before = None \<rparr>"

fun status_json :: "update_status_filter \<Rightarrow> json" where
  "status_json Queued = JStr ''Queued''"
| "status_json InProgress = JStr ''InProgress''"
| "status_json StatusComplete = JStr ''Complete''"
| "status_json StatusOther =
     JObj [(''$nin'', JArr [JStr ''Queued'', JStr ''InProgress'', JStr ''Complete''])]"

definition opt_field :: "string \<Rightarrow> ('a \<Rightarrow> json) \<Rightarrow> 'a option \<Rightarrow> obj" where
  "opt_field k f x = (case x of None \<Rightarrow> [] | Some v \<Rightarrow> [(k, f v)])"

definition query_fields :: "operation_query \<Rightarrow> obj" where
  "query_fields q =
     (case oq_target q of None \<Rightarrow> [] | Some t \<Rightarrow>
        [(''target.type'', JStr (ot_kind t)), (''target.id'', JStr (ot_id t))]) @
     opt_field ''operation'' JStr (oq_operation q) @
     opt_field ''status'' status_json (oq_status q) @
     opt_field ''success'' JBool (oq_success q) @
     (let time = opt_field ''$gte'' JInt (oq_started_after q) @
                 opt_field ''$lt'' JInt (oq_started_before q)
      in if time = [] then [] else [(''start_ts'', JObj time)])"

definition upstream_query :: "operation_query \<Rightarrow> json option" where
  "upstream_query q = (if query_fields q = [] then None else Some (JObj (query_fields q)))"

text \<open>\<open>Option::is_none_or\<close>.\<close>

definition none_or :: "'a option \<Rightarrow> ('a \<Rightarrow> bool) \<Rightarrow> bool" where
  "none_or x p = (case x of None \<Rightarrow> True | Some v \<Rightarrow> p v)"

definition query_matches :: "operation_query \<Rightarrow> operation_item \<Rightarrow> bool" where
  "query_matches q item \<longleftrightarrow>
     none_or (oq_target q) (\<lambda>t. op_target item = Some t) \<and>
     none_or (oq_operation q) (\<lambda>o'. op_operation item = o') \<and>
     none_or (oq_status q) (\<lambda>s. status_matches s (op_status item)) \<and>
     none_or (oq_success q) (\<lambda>s. op_success item = s) \<and>
     none_or (oq_started_after q) (\<lambda>a. a \<le> op_start_ts item) \<and>
     none_or (oq_started_before q) (\<lambda>b. op_start_ts item < b)"

text \<open>The default \<open>operations_query\<close> of the trait filters the page locally.\<close>

definition filter_page :: "operation_query \<Rightarrow> operation_page \<Rightarrow> operation_page" where
  "filter_page q page = page\<lparr>opg_operations := filter (query_matches q) (opg_operations page)\<rparr>"

lemma none_or_simps [simp]: "none_or None p" "none_or (Some v) p = p v"
  by (simp_all add: none_or_def)

lemma opt_field_Nil [simp]: "opt_field k f x = [] \<longleftrightarrow> x = None"
  by (cases x) (auto simp: opt_field_def)

lemma opt_field_simps [simp]: "opt_field k f None = []" "opt_field k f (Some v) = [(k, f v)]"
  by (simp_all add: opt_field_def)

lemma query_matches_default [simp]: "query_matches default_query item"
  by (simp add: query_matches_def default_query_def)

lemma upstream_query_None_iff: "upstream_query q = None \<longleftrightarrow> q = default_query"
  by (cases q) (auto simp: upstream_query_def query_fields_def default_query_def Let_def
      split: option.splits if_splits)

lemma status_filters_partition: "\<exists>!s. status_matches s status"
proof -
  have "status_matches (if status = ''Queued'' then Queued else if status = ''InProgress''
      then InProgress else if status = ''Complete'' then StatusComplete else StatusOther) status"
    by auto
  moreover have "status_matches s status \<Longrightarrow> status_matches t status \<Longrightarrow> s = t" for s t
    by (cases s; cases t) auto
  ultimately show ?thesis by blast
qed

lemma map_of_opt_field:
  "map_of (opt_field k f x @ xs) j =
     (if j = k \<and> x \<noteq> None then map_option f x else map_of xs j)"
  "map_of (opt_field k f x) j = (if j = k then map_option f x else None)"
  by (cases x; auto simp: opt_field_def)+

lemma opt_field_keys: "fst ` set (opt_field k f x) \<subseteq> {k}"
  by (cases x) (auto simp: opt_field_def)

lemma map_option_inj_iff: "inj f \<Longrightarrow> map_option f x = map_option f y \<longleftrightarrow> x = y"
  by (cases x; cases y) (auto dest: injD)

lemma status_json_inj [simp]: "status_json s = status_json t \<longleftrightarrow> s = t"
  by (cases s; cases t) auto

definition time_fields :: "operation_query \<Rightarrow> obj" where
  "time_fields q = opt_field ''$gte'' JInt (oq_started_after q) @
                   opt_field ''$lt'' JInt (oq_started_before q)"

lemma query_lookup:
  "map_of (query_fields q) ''target.type'' = map_option (\<lambda>t. JStr (ot_kind t)) (oq_target q)"
  "map_of (query_fields q) ''target.id'' = map_option (\<lambda>t. JStr (ot_id t)) (oq_target q)"
  "map_of (query_fields q) ''operation'' = map_option JStr (oq_operation q)"
  "map_of (query_fields q) ''status'' = map_option status_json (oq_status q)"
  "map_of (query_fields q) ''success'' = map_option JBool (oq_success q)"
  "map_of (query_fields q) ''start_ts'' =
     (if time_fields q = [] then None else Some (JObj (time_fields q)))"
  unfolding query_fields_def time_fields_def [symmetric] Let_def
  by (cases "oq_target q"; simp add: map_of_opt_field del: map_of_append;
      simp add: map_of_opt_field)+

text \<open>
  The query document sent to Core determines the filter: two
  filters with the same document are the same filter, so no filter field is dropped or merged
  on the way; only the empty filter sends no document.
\<close>

theorem upstream_query_faithful:
  "(upstream_query p = upstream_query q \<longleftrightarrow> p = q) \<and>
   (upstream_query q = None \<longleftrightarrow> q = default_query)"
proof -
  have time: "time_fields p = time_fields q \<longleftrightarrow>
      oq_started_after p = oq_started_after q \<and> oq_started_before p = oq_started_before q"
    by (auto simp: time_fields_def opt_field_def split: option.splits)
  have "p = q" if e: "query_fields p = query_fields q"
  proof (rule operation_query.equality)
    note f = query_lookup [of p, unfolded e query_lookup [of q]]
    show "oq_target p = oq_target q"
      using f(1,2) by (cases "oq_target p"; cases "oq_target q") auto
    show "oq_operation p = oq_operation q" "oq_status p = oq_status q" "oq_success p = oq_success q"
      using f(3-5) by (auto simp: map_option_inj_iff inj_def)
    have "time_fields p = time_fields q" using f(6) by (auto split: if_splits)
    then show "oq_started_after p = oq_started_after q" "oq_started_before p = oq_started_before q"
      using time by auto
  qed simp
  then have "upstream_query p = upstream_query q \<longleftrightarrow> p = q"
    by (auto simp: upstream_query_def split: if_splits)
  then show ?thesis by (simp add: upstream_query_None_iff)
qed

end
