(* ===== verification/Io.thy ===== *)
theory Io
  imports Urls Api_Operations Api_Errors
begin

text \<open>
  The effects of the program as explicit state passing. The state (\<open>world\<close>) records every
  HTTP request sent to Core, the clients' version caches and the credential file store; the
  environment (\<open>env\<close>) answers what code cannot decide: Core's replies (which may
  depend on everything sent before), the clock, and whether the enclosing \<open>select!\<close> of
  the tool call has fired. Each await and each clock read is one observation, numbered by
  \<open>steps\<close>.

  An effectful computation ends with a value, with an error, or because it is dropped at
  an await: by the enclosing \<open>tokio::time::timeout\<close> (\<open>TimedOut\<close>) or by the select of
  the tool call (\<open>Ended\<close>); or it panics (\<open>Panic\<close>).
\<close>

named_theorems quiet_intros \<open>computations that only read, composed\<close>

datatype 'e exn = Fail 'e | TimedOut | Ended | Panic

text \<open>Durations and instants are in nanoseconds.\<close>

definition secs :: "nat \<Rightarrow> nat" where "secs n = n * 1000000000"

record credentials =
  cr_key :: string
  cr_secret :: string

text \<open>
  A request as \<open>post_once\<close> sends it: the two credential headers, the endpoint (and the
  family it was joined from), and the \<open>type\<close> and \<open>params\<close> of the JSON body.
\<close>

record http_request =
  rq_credentials :: credentials
  rq_endpoint :: url
  rq_family :: string
  rq_variant :: string
  rq_params :: json

text \<open>
  Core's answer: no response at all, or a status with the body chunks in order of arrival
  and whether the body ended cleanly.
\<close>

datatype http_reply = NoReply | Reply nat "string list" bool

record cached_core_version =
  at_least_2_3 :: bool
  cv_expires_at :: nat

datatype client_role = ReadClient | AdminClient

record 'f world =
  sent :: "http_request list"
  steps :: nat
  core_version :: "client_role \<Rightarrow> cached_core_version option"
  timeout_at :: "nat option"
  store :: 'f

text \<open>
  The environment. \<open>send\<close> is Core behind the network; the \<open>dec_\<close> fields are the
  derived deserialisers applied to response bytes; \<open>url_join\<close> and \<open>matcher_of\<close>
  are the \<open>url\<close> and \<open>aho-corasick\<close> crates.
\<close>

record env =
  send :: "http_request list \<Rightarrow> http_request \<Rightarrow> http_reply"
  now :: "nat \<Rightarrow> nat"
  select_fired :: "nat \<Rightarrow> bool"
  url_join :: "url \<Rightarrow> string \<Rightarrow> url option"
  matcher_of :: "string list \<Rightarrow> matcher option"
  dec_reported_error :: "string \<Rightarrow> reported_error option"
  dec_version :: "string \<Rightarrow> string option"
  dec_servers :: "string \<Rightarrow> server_info resource_list_item list option"
  dec_stacks :: "string \<Rightarrow> stack_info resource_list_item list option"
  dec_deployments :: "string \<Rightarrow> deployment_info resource_list_item list option"
  dec_builds :: "string \<Rightarrow> build_info resource_list_item list option"
  dec_repos :: "string \<Rightarrow> repo_info resource_list_item list option"
  dec_networks :: "string \<Rightarrow> network_list_item list option"
  dec_network :: "string \<Rightarrow> network option"
  dec_updates :: "string \<Rightarrow> list_updates_response option"
  dec_update :: "string \<Rightarrow> operation_item option"
  dec_update_logs :: "string \<Rightarrow> log_record list option"
  dec_stack_detail :: "string \<Rightarrow> stack_detail option"
  dec_log :: "string \<Rightarrow> log_record option"
  dec_ack :: "string \<Rightarrow> unit option"
  dec_receipt :: "string \<Rightarrow> mutation_receipt option"

type_synonym ('f, 'e, 'a) io = "'f world \<Rightarrow> ('e exn + 'a) \<times> 'f world"

definition ret :: "'a \<Rightarrow> ('f, 'e, 'a) io" where
  "ret x = (\<lambda>w. (Inr x, w))"

definition fail :: "'e \<Rightarrow> ('f, 'e, 'a) io" where
  "fail e = (\<lambda>w. (Inl (Fail e), w))"

definition bind_io :: "('f, 'e, 'a) io \<Rightarrow> ('a \<Rightarrow> ('f, 'e, 'b) io) \<Rightarrow> ('f, 'e, 'b) io" where
  "bind_io m f = (\<lambda>w. case m w of (Inl e, w') \<Rightarrow> (Inl e, w') | (Inr x, w') \<Rightarrow> f x w')"

text \<open>A pure fallible step inside an effectful one.\<close>

definition lift :: "'e + 'a \<Rightarrow> ('f, 'e, 'a) io" where
  "lift r = (case r of Inl e \<Rightarrow> fail e | Inr x \<Rightarrow> ret x)"

definition map_exn :: "('e \<Rightarrow> 'g) \<Rightarrow> 'e exn \<Rightarrow> 'g exn" where
  "map_exn h x = (case x of Fail e \<Rightarrow> Fail (h e) | TimedOut \<Rightarrow> TimedOut | Ended \<Rightarrow> Ended
     | Panic \<Rightarrow> Panic)"

text \<open>\<open>map_err\<close> on an awaited result.\<close>

definition with_err :: "('e \<Rightarrow> 'g) \<Rightarrow> ('f, 'e, 'a) io \<Rightarrow> ('f, 'g, 'a) io" where
  "with_err h m = (\<lambda>w. case m w of (Inl x, w') \<Rightarrow> (Inl (map_exn h x), w') | (Inr y, w') \<Rightarrow> (Inr y, w'))"

text \<open>\<open>Instant::now()\<close>: one observation.\<close>

definition get_now :: "env \<Rightarrow> ('f, 'e, nat) io" where
  "get_now env = (\<lambda>w. (Inr (now env (steps w)), w\<lparr>steps := Suc (steps w)\<rparr>))"

text \<open>What drops the computation at the next await, if anything.\<close>

definition interruption :: "env \<Rightarrow> 'f world \<Rightarrow> 'e exn option" where
  "interruption env w =
     (if select_fired env (steps w) then Some Ended
      else case timeout_at w of
        None \<Rightarrow> None
      | Some d \<Rightarrow> if d \<le> now env (steps w) then Some TimedOut else None)"

section \<open>The requests a computation sends\<close>

definition new_requests :: "('f, 'e, 'a) io \<Rightarrow> 'f world \<Rightarrow> http_request list" where
  "new_requests m w = drop (length (sent w)) (sent (snd (m w)))"

text \<open>The log only grows.\<close>

definition appends :: "('f, 'e, 'a) io \<Rightarrow> bool" where
  "appends m \<longleftrightarrow> (\<forall>w. prefix (sent w) (sent (snd (m w))))"

text \<open>
  \<open>quiet c m\<close>: every request \<open>m\<close> sends goes to the \<open>read\<close> family under the
  credentials \<open>c\<close>, and \<open>m\<close> leaves the credential file store alone.
\<close>

definition quiet :: "credentials \<Rightarrow> ('f, 'e, 'a) io \<Rightarrow> bool" where
  "quiet c m \<longleftrightarrow> (\<forall>w. \<exists>rs. sent (snd (m w)) = sent w @ rs \<and>
     (\<forall>r \<in> set rs. rq_family r = ''read'' \<and> rq_credentials r = c) \<and>
     store (snd (m w)) = store w \<and>
     steps w \<le> steps (snd (m w)))"

definition silent :: "('f, 'e, 'a) io \<Rightarrow> bool" where
  "silent m \<longleftrightarrow> (\<forall>w. sent (snd (m w)) = sent w \<and> store (snd (m w)) = store w \<and>
     steps w \<le> steps (snd (m w)))"

lemma quietI:
  assumes "\<And>w. \<exists>rs. sent (snd (m w)) = sent w @ rs \<and>
     (\<forall>r \<in> set rs. rq_family r = ''read'' \<and> rq_credentials r = c) \<and>
     store (snd (m w)) = store w \<and>
     steps w \<le> steps (snd (m w))"
  shows "quiet c m"
  using assms by (simp add: quiet_def)

lemma quietE:
  assumes "quiet c m"
  obtains rs where "sent (snd (m w)) = sent w @ rs"
    "\<forall>r \<in> set rs. rq_family r = ''read'' \<and> rq_credentials r = c"
    "store (snd (m w)) = store w" "steps w \<le> steps (snd (m w))"
  using assms by (force simp: quiet_def)

lemma silent_quiet: "silent m \<Longrightarrow> quiet c m"
  by (auto simp: silent_def quiet_def)

lemma silent_basic [quiet_intros, intro]:
  "silent (ret x)" "silent (fail e)" "silent (lift r)" "silent (get_now env)"
  by (auto simp: silent_def ret_def fail_def lift_def get_now_def split: sum.splits)

lemma quiet_basic [quiet_intros, intro]:
  "quiet c (ret x)" "quiet c (fail e)" "quiet c (lift r)" "quiet c (get_now env)"
  by (auto intro: silent_quiet)

lemma quiet_bind [quiet_intros]:
  assumes "quiet c m" "\<And>x. quiet c (f x)"
  shows "quiet c (bind_io m f)"
proof (rule quietI)
  fix w
  obtain rs where rs: "sent (snd (m w)) = sent w @ rs"
    "\<forall>r \<in> set rs. rq_family r = ''read'' \<and> rq_credentials r = c" "store (snd (m w)) = store w"
    "steps w \<le> steps (snd (m w))"
    using assms(1) by (rule quietE)
  show "\<exists>rs. sent (snd (bind_io m f w)) = sent w @ rs \<and>
     (\<forall>r \<in> set rs. rq_family r = ''read'' \<and> rq_credentials r = c) \<and>
     store (snd (bind_io m f w)) = store w \<and>
     steps w \<le> steps (snd (bind_io m f w))"
  proof (cases "m w")
    case (Pair r w')
    show ?thesis
    proof (cases r)
      case (Inl e)
      with Pair rs show ?thesis by (auto simp: bind_io_def)
    next
      case (Inr x)
      obtain rs' where "sent (snd (f x w')) = sent w' @ rs'"
        "\<forall>r \<in> set rs'. rq_family r = ''read'' \<and> rq_credentials r = c"
        "store (snd (f x w')) = store w'" "steps w' \<le> steps (snd (f x w'))"
        using assms(2) by (rule quietE)
      with Pair Inr rs show ?thesis by (auto simp: bind_io_def)
    qed
  qed
qed

lemma with_err_snd [simp]: "snd (with_err h m w) = snd (m w)"
  by (simp add: with_err_def split: prod.splits sum.splits)

lemma quiet_with_err [quiet_intros]: "quiet c m \<Longrightarrow> quiet c (with_err h m)"
  by (simp add: quiet_def)

lemma silent_bind [quiet_intros]:
  assumes "silent m" "\<And>x. silent (f x)"
  shows "silent (bind_io m f)"
  unfolding silent_def
proof
  fix w
  have m: "sent (snd (m w)) = sent w \<and> store (snd (m w)) = store w \<and>
      steps w \<le> steps (snd (m w))"
    using assms(1) by (simp add: silent_def)
  obtain r w' where r: "m w = (r, w')" by fastforce
  have f: "sent (snd (f x w')) = sent w' \<and> store (snd (f x w')) = store w' \<and>
      steps w' \<le> steps (snd (f x w'))" for x
    using assms(2) by (simp add: silent_def)
  show "sent (snd (bind_io m f w)) = sent w \<and> store (snd (bind_io m f w)) = store w \<and>
      steps w \<le> steps (snd (bind_io m f w))"
    using m f r by (cases r) (auto simp: bind_io_def intro: le_trans)
qed

text \<open>A computation that on each state behaves as some quiet one is quiet.\<close>

lemma quiet_pointwise:
  assumes "\<And>w. \<exists>m'. quiet c m' \<and> m w = m' w"
  shows "quiet c m"
proof (rule quietI)
  fix w
  obtain m' where "quiet c m'" "m w = m' w" using assms by blast
  then show "\<exists>rs. sent (snd (m w)) = sent w @ rs \<and>
     (\<forall>r \<in> set rs. rq_family r = ''read'' \<and> rq_credentials r = c) \<and>
     store (snd (m w)) = store w \<and>
     steps w \<le> steps (snd (m w))"
    by (simp add: quiet_def)
qed

lemma quiet_if [quiet_intros]: "quiet c m \<Longrightarrow> quiet c m' \<Longrightarrow> quiet c (if b then m else m')"
  by simp

lemma quiet_option [quiet_intros]:
  "quiet c m \<Longrightarrow> (\<And>x. quiet c (f x)) \<Longrightarrow> quiet c (case r of None \<Rightarrow> m | Some x \<Rightarrow> f x)"
  by (cases r) auto

lemma bind_io_Inr:
  "bind_io m f w = (Inr y, w'') \<longleftrightarrow> (\<exists>x w'. m w = (Inr x, w') \<and> f x w' = (Inr y, w''))"
  by (auto simp: bind_io_def split: prod.splits sum.splits)

lemma ret_apply [simp]: "ret x w = (Inr x, w)"
  by (simp add: ret_def)

lemma fail_apply [simp]: "fail e w = (Inl (Fail e), w)"
  by (simp add: fail_def)

lemma lift_simps [simp]: "lift (Inr x) = ret x" "lift (Inl e) = fail e"
  by (simp_all add: lift_def)

lemma bind_io_lift_Inl [simp]: "bind_io (lift (Inl e)) f w = (Inl (Fail e), w)"
  by (simp add: bind_io_def)

lemma bind_io_ret [simp]: "bind_io (ret x) f = f x"
  by (simp add: bind_io_def ret_def)

lemma bind_io_assoc: "bind_io (bind_io m f) g = bind_io m (\<lambda>x. bind_io (f x) g)"
  by (rule ext) (auto simp: bind_io_def split: prod.splits sum.splits)

lemma with_err_Inr [simp]: "with_err h m w = (Inr y, w') \<longleftrightarrow> m w = (Inr y, w')"
  by (auto simp: with_err_def split: prod.splits sum.splits)

lemma lift_Inr [simp]: "lift r w = (Inr y, w') \<longleftrightarrow> r = Inr y \<and> w' = w"
  by (cases r) auto


section \<open>How many requests a computation sends\<close>

named_theorems send_bounds \<open>bounds on the number of requests, composed\<close>

definition sends_at_most :: "nat \<Rightarrow> ('f, 'e, 'a) io \<Rightarrow> bool" where
  "sends_at_most n m \<longleftrightarrow> (\<forall>w. length (sent (snd (m w))) \<le> length (sent w) + n)"

lemma sends_at_mostD: "sends_at_most n m \<Longrightarrow> m w = (r, w') \<Longrightarrow> length (sent w') \<le> length (sent w) + n"
  unfolding sends_at_most_def by (metis snd_conv)

lemma sends_at_most_mono: "sends_at_most n m \<Longrightarrow> n \<le> k \<Longrightarrow> sends_at_most k m"
  unfolding sends_at_most_def by (meson add_left_mono le_trans)

lemma silent_sends: "silent m \<Longrightarrow> sends_at_most n m"
  by (simp add: silent_def sends_at_most_def)

lemma sends_basic [send_bounds]:
  "sends_at_most n (ret x)" "sends_at_most n (fail e)" "sends_at_most n (lift r)"
  "sends_at_most n (get_now env)"
  by (auto intro: silent_sends)

lemma sends_bind [send_bounds]:
  assumes "sends_at_most a m" "\<And>x. sends_at_most b (f x)"
  shows "sends_at_most (a + b) (bind_io m f)"
  unfolding sends_at_most_def
proof
  fix w
  obtain r w' where r: "m w = (r, w')" by fastforce
  have m: "length (sent w') \<le> length (sent w) + a" using assms(1) r by (rule sends_at_mostD)
  show "length (sent (snd (bind_io m f w))) \<le> length (sent w) + (a + b)"
  proof (cases r)
    case (Inl e)
    with m r show ?thesis by (simp add: bind_io_def)
  next
    case (Inr x)
    have "length (sent (snd (f x w'))) \<le> length (sent w') + b"
      using assms(2) by (simp add: sends_at_most_def)
    with m r Inr show ?thesis by (simp add: bind_io_def)
  qed
qed

lemma sends_with_err [send_bounds]: "sends_at_most n m \<Longrightarrow> sends_at_most n (with_err h m)"
  by (simp add: sends_at_most_def)

lemma sends_if [send_bounds]:
  "sends_at_most n m \<Longrightarrow> sends_at_most n m' \<Longrightarrow> sends_at_most n (if b then m else m')"
  by simp

lemma sends_pointwise:
  assumes "\<And>w. \<exists>m'. sends_at_most n m' \<and> m w = m' w"
  shows "sends_at_most n m"
  unfolding sends_at_most_def
proof
  fix w
  obtain m' where "sends_at_most n m'" "m w = m' w" using assms by blast
  then show "length (sent (snd (m w))) \<le> length (sent w) + n"
    by (simp add: sends_at_most_def)
qed

section \<open>Calls that may submit one mutation\<close>

text \<open>
  A tool call reads under the read credentials and then submits at most one mutation under
  the administrative ones. Between two states, \<open>no_traffic\<close> says that nothing was sent,
  \<open>read_traffic\<close> that only reads were, and \<open>call_traffic\<close> that reads and after them at
  most one request outside the \<open>read\<close> family were sent, the latter only if the call was
  \<open>alive\<close> at some observation it made in between.
\<close>

named_theorems traffic_intros \<open>what computations send, composed\<close>

definition is_read :: "credentials \<Rightarrow> http_request \<Rightarrow> bool" where
  "is_read c r \<longleftrightarrow> rq_family r = ''read'' \<and> rq_credentials r = c"

definition is_mutation :: "credentials \<Rightarrow> http_request \<Rightarrow> bool" where
  "is_mutation c r \<longleftrightarrow> rq_family r \<noteq> ''read'' \<and> rq_credentials r = c"

definition no_traffic :: "'f world \<Rightarrow> 'f world \<Rightarrow> bool" where
  "no_traffic w w' \<longleftrightarrow> sent w' = sent w \<and> steps w \<le> steps w'"

definition read_traffic :: "credentials \<Rightarrow> 'f world \<Rightarrow> 'f world \<Rightarrow> bool" where
  "read_traffic c w w' \<longleftrightarrow>
     (\<exists>rs. sent w' = sent w @ rs \<and> list_all (is_read c) rs) \<and> steps w \<le> steps w'"

definition call_traffic ::
  "credentials \<Rightarrow> credentials \<Rightarrow> (nat \<Rightarrow> bool) \<Rightarrow> 'f world \<Rightarrow> 'f world \<Rightarrow> bool" where
  "call_traffic c ca alive w w' \<longleftrightarrow>
     (\<exists>rs ms. sent w' = sent w @ rs @ ms \<and> list_all (is_read c) rs \<and>
        list_all (is_mutation ca) ms \<and> length ms \<le> 1 \<and>
        (ms = [] \<or> (\<exists>k. steps w \<le> k \<and> k \<le> steps w' \<and> steps w' \<le> k + 4 \<and> alive k))) \<and>
     steps w \<le> steps w'"

definition mute :: "('f, 'e, 'a) io \<Rightarrow> bool" where
  "mute m \<longleftrightarrow> (\<forall>w. no_traffic w (snd (m w)))"

text \<open>No effect at all, not even an observation.\<close>

definition idle :: "('f, 'e, 'a) io \<Rightarrow> bool" where
  "idle m \<longleftrightarrow> (\<forall>w. snd (m w) = w)"

definition reads_only :: "credentials \<Rightarrow> ('f, 'e, 'a) io \<Rightarrow> bool" where
  "reads_only c m \<longleftrightarrow> (\<forall>w. read_traffic c w (snd (m w)))"

definition submits ::
  "credentials \<Rightarrow> credentials \<Rightarrow> (nat \<Rightarrow> bool) \<Rightarrow> ('f, 'e, 'a) io \<Rightarrow> bool" where
  "submits c ca alive m \<longleftrightarrow> (\<forall>w. call_traffic c ca alive w (snd (m w)))"

text \<open>\<open>map_err\<close> with a closure that itself has effects.\<close>

definition or_else :: "('e \<Rightarrow> ('f, 'g, 'g) io) \<Rightarrow> ('f, 'e, 'a) io \<Rightarrow> ('f, 'g, 'a) io" where
  "or_else h m = (\<lambda>w. case m w of
       (Inr x, w') \<Rightarrow> (Inr x, w')
     | (Inl (Fail e), w') \<Rightarrow>
         (case h e w' of (Inr g, w'') \<Rightarrow> (Inl (Fail g), w'') | (Inl x, w'') \<Rightarrow> (Inl x, w''))
     | (Inl TimedOut, w') \<Rightarrow> (Inl TimedOut, w')
     | (Inl Ended, w') \<Rightarrow> (Inl Ended, w')
     | (Inl Panic, w') \<Rightarrow> (Inl Panic, w'))"

lemma no_traffic_refl [simp]: "no_traffic w w"
  by (simp add: no_traffic_def)

lemma no_traffic_read: "no_traffic w w' \<Longrightarrow> read_traffic c w w'"
  by (simp add: no_traffic_def read_traffic_def)

lemma read_traffic_call: "read_traffic c w w' \<Longrightarrow> call_traffic c ca alive w w'"
  unfolding read_traffic_def call_traffic_def
proof (elim conjE exE)
  fix rs assume "sent w' = sent w @ rs" "list_all (is_read c) rs" "steps w \<le> steps w'"
  then show "(\<exists>rs ms. sent w' = sent w @ rs @ ms \<and> list_all (is_read c) rs \<and>
        list_all (is_mutation ca) ms \<and> length ms \<le> 1 \<and>
        (ms = [] \<or> (\<exists>k. steps w \<le> k \<and> k \<le> steps w' \<and> steps w' \<le> k + 4 \<and> alive k))) \<and> steps w \<le> steps w'"
    by (intro conjI exI [of _ rs] exI [of _ "[]"]) simp_all
qed

lemma no_traffic_trans: "no_traffic u v \<Longrightarrow> no_traffic v w \<Longrightarrow> no_traffic u w"
  by (simp add: no_traffic_def)

lemma read_traffic_trans: "read_traffic c u v \<Longrightarrow> read_traffic c v w \<Longrightarrow> read_traffic c u w"
  unfolding read_traffic_def by (auto intro: le_trans)

lemma read_then_call:
  assumes "read_traffic c u v" "call_traffic c ca alive v w"
  shows "call_traffic c ca alive u w"
proof -
  obtain rs where rs: "sent v = sent u @ rs" "list_all (is_read c) rs" "steps u \<le> steps v"
    using assms(1) by (auto simp: read_traffic_def)
  obtain rs' ms where ms: "sent w = sent v @ rs' @ ms" "list_all (is_read c) rs'"
    "list_all (is_mutation ca) ms" "length ms \<le> 1" "steps v \<le> steps w"
    "ms = [] \<or> (\<exists>k. steps v \<le> k \<and> k \<le> steps w \<and> steps w \<le> k + 4 \<and> alive k)"
    using assms(2) by (auto simp: call_traffic_def)
  then have "ms = [] \<or> (\<exists>k. steps u \<le> k \<and> k \<le> steps w \<and> steps w \<le> k + 4 \<and> alive k)"
    using rs(3) le_trans by blast
  with rs ms show ?thesis
    unfolding call_traffic_def by (intro conjI exI [of _ "rs @ rs'"] exI [of _ ms]) auto
qed

lemma muteD: "mute m \<Longrightarrow> m w = (r, w') \<Longrightarrow> no_traffic w w'"
  unfolding mute_def by (metis snd_conv)

lemma reads_onlyD: "reads_only c m \<Longrightarrow> m w = (r, w') \<Longrightarrow> read_traffic c w w'"
  unfolding reads_only_def by (metis snd_conv)

lemma submitsD: "submits c ca alive m \<Longrightarrow> m w = (r, w') \<Longrightarrow> call_traffic c ca alive w w'"
  unfolding submits_def by (metis snd_conv)

lemma mute_reads_only: "mute m \<Longrightarrow> reads_only c m"
  by (simp add: mute_def reads_only_def no_traffic_read)

lemma quiet_reads_only: "quiet c m \<Longrightarrow> reads_only c m"
  unfolding quiet_def reads_only_def read_traffic_def is_read_def list_all_iff by blast

lemma reads_only_submits: "reads_only c m \<Longrightarrow> submits c ca alive m"
  by (simp add: reads_only_def submits_def read_traffic_call)

lemma silent_mute: "silent m \<Longrightarrow> mute m"
  by (simp add: silent_def mute_def no_traffic_def)

lemma mute_basic [traffic_intros, intro]:
  "mute (ret x)" "mute (fail e)" "mute (lift r)" "mute (get_now env)"
  by (rule silent_mute, rule silent_basic)+

lemma reads_only_basic [traffic_intros, intro]:
  "reads_only c (ret x)" "reads_only c (fail e)" "reads_only c (lift r)"
  "reads_only c (get_now env)"
  by (auto intro: mute_reads_only)

lemma bind_io_cases:
  obtains e w' where "m w = (Inl e, w')" "bind_io m f w = (Inl e, w')"
  | x w' where "m w = (Inr x, w')" "bind_io m f w = f x w'"
proof (cases "m w")
  case (Pair r w')
  then show thesis using that by (cases r) (auto simp: bind_io_def)
qed

lemma or_else_cases:
  obtains r w' where "m w = (r, w')" "snd (or_else h m w) = w'"
  | e w' where "m w = (Inl (Fail e), w')" "snd (or_else h m w) = snd (h e w')"
proof (cases "m w")
  case (Pair r w')
  show thesis
  proof (cases r)
    case (Inr x)
    with Pair that(1) show thesis by (simp add: or_else_def)
  next
    case (Inl x)
    with Pair that show thesis
      by (cases x) (auto simp: or_else_def split: prod.splits sum.splits)
  qed
qed

lemma mute_bind [traffic_intros]:
  assumes m: "mute m" and f: "\<And>x. mute (f x)"
  shows "mute (bind_io m f)"
  unfolding mute_def
proof
  fix w
  show "no_traffic w (snd (bind_io m f w))"
  proof (cases rule: bind_io_cases [of m w f])
    case (1 e w')
    from muteD [OF m 1(1)] show ?thesis unfolding 1(2) by (simp)
  next
    case (2 x w')
    have "no_traffic w' (snd (f x w'))" using f by (simp add: mute_def)
    with muteD [OF m 2(1)] show ?thesis unfolding 2(2) by (rule no_traffic_trans)
  qed
qed

lemma reads_only_bind [traffic_intros]:
  assumes m: "reads_only c m" and f: "\<And>x. reads_only c (f x)"
  shows "reads_only c (bind_io m f)"
  unfolding reads_only_def
proof
  fix w
  show "read_traffic c w (snd (bind_io m f w))"
  proof (cases rule: bind_io_cases [of m w f])
    case (1 e w')
    from reads_onlyD [OF m 1(1)] show ?thesis unfolding 1(2) by (simp)
  next
    case (2 x w')
    have "read_traffic c w' (snd (f x w'))" using f by (simp add: reads_only_def)
    with reads_onlyD [OF m 2(1)] show ?thesis unfolding 2(2) by (rule read_traffic_trans)
  qed
qed

lemma submits_bind:
  assumes m: "reads_only c m" and f: "\<And>x. submits c ca alive (f x)"
  shows "submits c ca alive (bind_io m f)"
  unfolding submits_def
proof
  fix w
  show "call_traffic c ca alive w (snd (bind_io m f w))"
  proof (cases rule: bind_io_cases [of m w f])
    case (1 e w')
    from reads_onlyD [OF m 1(1)] show ?thesis unfolding 1(2) by (simp add: read_traffic_call)
  next
    case (2 x w')
    have "call_traffic c ca alive w' (snd (f x w'))" using f by (simp add: submits_def)
    with reads_onlyD [OF m 2(1)] show ?thesis unfolding 2(2) by (rule read_then_call)
  qed
qed

lemma submits_then:
  assumes m: "submits c ca alive m" and f: "\<And>x. idle (f x)"
  shows "submits c ca alive (bind_io m f)"
  unfolding submits_def
proof
  fix w
  show "call_traffic c ca alive w (snd (bind_io m f w))"
  proof (cases rule: bind_io_cases [of m w f])
    case (1 e w')
    from submitsD [OF m 1(1)] show ?thesis unfolding 1(2) by simp
  next
    case (2 x w')
    from submitsD [OF m 2(1)] show ?thesis unfolding 2(2) using f by (simp add: idle_def)
  qed
qed

lemma idle_basic [traffic_intros]: "idle (ret x)" "idle (fail e)" "idle (lift r)"
  by (simp_all add: idle_def ret_def fail_def lift_def split: sum.splits)

lemma reads_only_or_else [traffic_intros]:
  assumes m: "reads_only c m" and h: "\<And>e. mute (h e)"
  shows "reads_only c (or_else h m)"
  unfolding reads_only_def
proof
  fix w
  show "read_traffic c w (snd (or_else h m w))"
  proof (cases rule: or_else_cases [of m w h])
    case (1 r w')
    from reads_onlyD [OF m 1(1)] show ?thesis unfolding 1(2) .
  next
    case (2 e w')
    have "no_traffic w' (snd (h e w'))" using h by (simp add: mute_def)
    then show ?thesis unfolding 2(2) using reads_onlyD [OF m 2(1)] by (metis no_traffic_read read_traffic_trans)
  qed
qed

section \<open>A concrete environment\<close>

text \<open>
  Core on a private address that answers every request with the same body, a clock that
  advances one nanosecond per observation, no cancellation: the environment the examples
  are evaluated in. Its decoders accept any body.
\<close>

definition sample_url :: url where
  "sample_url = plain_url ''https'' (HostDomain ''komodo.example.net'')"

definition sample_env :: env where
  "sample_env = \<lparr>
     send = (\<lambda>_ _. Reply 200 [''ok''] True),
     now = (\<lambda>n. n),
     select_fired = (\<lambda>_. False),
     url_join = (\<lambda>u family. Some (u\<lparr>url_path := ''/'' @ family\<rparr>)),
     matcher_of = naive_matcher,
     dec_reported_error = (\<lambda>_. None),
     dec_version = (\<lambda>_. Some ''v2.3.1''),
     dec_servers = (\<lambda>_. Some []),
     dec_stacks = (\<lambda>_. Some []),
     dec_deployments = (\<lambda>_. Some []),
     dec_builds = (\<lambda>_. Some []),
     dec_repos = (\<lambda>_. Some []),
     dec_networks = (\<lambda>_. Some []),
     dec_network = (\<lambda>_. None),
     dec_updates = (\<lambda>_. Some \<lparr> lur_updates = [], lur_next_page = None \<rparr>),
     dec_update = (\<lambda>_. None),
     dec_update_logs = (\<lambda>_. Some []),
     dec_stack_detail = (\<lambda>_. None),
     dec_log = (\<lambda>_. None),
     dec_ack = (\<lambda>_. Some ()),
     dec_receipt = (\<lambda>_. Some \<lparr> mr_operation_id = ''u1'', mr_operation = ''DeployStack'',
       mr_start_ts = 0, mr_success = False, mr_status = ''Queued'' \<rparr>) \<rparr>"

definition sample_credentials :: credentials where
  "sample_credentials = \<lparr> cr_key = ''key'', cr_secret = ''secret'' \<rparr>"

definition initial_world :: "'f \<Rightarrow> 'f world" where
  "initial_world f = \<lparr> sent = [], steps = 0, core_version = (\<lambda>_. None), timeout_at = None,
     store = f \<rparr>"


end
