(* ===== verification/Api_Client.thy ===== *)
theory Api_Client
  imports Io
begin

text \<open>
  The HTTP client of \<open>crates/komodo-api/src/lib.rs\<close>: credentials and base URL checks,
  one bounded request (\<open>post_once\<close>), the single retry of reads (\<open>post\<close>), the
  version cache, and the typed requests of the \<open>KomodoApi\<close> implementation (inventory
  requests are in \<open>Api_Inventory\<close>).
\<close>

definition maximum_response_bytes :: nat where "maximum_response_bytes = 2 * 1024 * 1024"
definition maximum_timeout :: nat where "maximum_timeout = secs 120"
definition core_version_cache_ttl :: nat where "core_version_cache_ttl = secs 60"

section \<open>Construction\<close>

definition validate_api_secret :: "string \<Rightarrow> string \<Rightarrow> api_error + unit" where
  "validate_api_secret label value =
     ensure (value \<noteq> [] \<and> list_all (\<lambda>b. byte b \<notin> {10, 13}) value) (InvalidConfiguration label)"

definition credentials_from_protected :: "string \<Rightarrow> string \<Rightarrow> api_error + credentials" where
  "credentials_from_protected key secret =
     rbind (validate_api_secret ''API key'' key) (\<lambda>_.
     rbind (validate_api_secret ''API secret'' secret) (\<lambda>_.
     Inr \<lparr> cr_key = key, cr_secret = secret \<rparr>))"

definition validate_base_url :: "url \<Rightarrow> api_error + unit" where
  "validate_base_url u =
     (if url_cannot_be_a_base u \<or> url_username u \<noteq> [] \<or> url_password u \<noteq> None \<or>
         url_query u \<noteq> None \<or> url_fragment u \<noteq> None \<or> url_path u \<notin> {'''', ''/''}
      then Inl (InvalidConfiguration ''base URL'')
      else if url_scheme u = ''https'' then Inr ()
      else if url_scheme u \<noteq> ''http'' then Inl (InvalidConfiguration ''base URL scheme'')
      else ensure (is_private_host u) (InvalidConfiguration ''plaintext Komodo address''))"

record client =
  cl_role :: client_role
  cl_base_url :: url
  cl_credentials :: credentials

text \<open>\<open>Client::new\<close>; \<open>built\<close> says whether the HTTP client builder succeeded.\<close>

definition client_new ::
  "bool \<Rightarrow> client_role \<Rightarrow> url \<Rightarrow> credentials \<Rightarrow> nat \<Rightarrow> api_error + client" where
  "client_new built role base_url creds timeout =
     rbind (validate_base_url base_url) (\<lambda>_.
     rbind (ensure (timeout \<noteq> 0 \<and> timeout \<le> maximum_timeout)
       (InvalidConfiguration ''request timeout'')) (\<lambda>_.
     rbind (ensure built (InvalidConfiguration ''HTTP client'')) (\<lambda>_.
     Inr \<lparr> cl_role = role, cl_base_url = base_url, cl_credentials = creds \<rparr>)))"

section \<open>One request\<close>

definition status_is_success :: "nat \<Rightarrow> bool" where
  "status_is_success s \<longleftrightarrow> 200 \<le> s \<and> s \<le> 299"

text \<open>The chunk loop: \<open>None\<close> once the bytes would exceed the bound.\<close>

fun read_body :: "nat \<Rightarrow> string \<Rightarrow> string list \<Rightarrow> string option" where
  "read_body bound acc [] = Some acc"
| "read_body bound acc (chunk # chunks) =
     (if bound < usize_saturating_add (length acc) (length chunk) then None
      else read_body bound (acc @ chunk) chunks)"

definition error_credentials :: "credentials \<Rightarrow> string \<Rightarrow> json \<Rightarrow> string list" where
  "error_credentials creds variant params =
     [cr_key creds, cr_secret creds] @
     (if variant = ''UpdateStack'' then
        (case Option.bind (Option.bind (jget ''config'' params) (jget ''webhook_secret'')) as_str of
           Some token \<Rightarrow> [token] | None \<Rightarrow> [])
      else [])"

definition receive ::
  "env \<Rightarrow> credentials \<Rightarrow> string \<Rightarrow> json \<Rightarrow> nat \<Rightarrow> string list \<Rightarrow> bool \<Rightarrow> api_error + string" where
  "receive env creds variant params status chunks complete =
     (case read_body maximum_response_bytes [] chunks of
        None \<Rightarrow>
          Inl (if status_is_success status then ResponseTooLarge
               else Upstream (without_body status variant ''response body exceeds byte bound''))
      | Some bytes \<Rightarrow>
          if \<not> complete then
            Inl (if status_is_success status then Unavailable
                 else Upstream (without_body status variant ''response body interrupted''))
          else if \<not> status_is_success status then
            Inl (Upstream (from_response (matcher_of env) (dec_reported_error env) status variant
                   bytes (error_credentials creds variant params)))
          else Inr bytes)"

definition make_request ::
  "client \<Rightarrow> url \<Rightarrow> string \<Rightarrow> string \<Rightarrow> json \<Rightarrow> http_request" where
  "make_request c endpoint family variant params =
     \<lparr> rq_credentials = cl_credentials c, rq_endpoint = endpoint, rq_family = family,
       rq_variant = variant, rq_params = params \<rparr>"

definition post_once ::
  "env \<Rightarrow> client \<Rightarrow> string \<Rightarrow> string \<Rightarrow> json \<Rightarrow> (string \<Rightarrow> 'a option)
    \<Rightarrow> ('f, api_error, 'a) io" where
  "post_once env c family variant params dec = (\<lambda>w.
     case url_join env (cl_base_url c) family of
       None \<Rightarrow> fail (InvalidConfiguration ''base URL'') w
     | Some endpoint \<Rightarrow>
         let rq = make_request c endpoint family variant params;
             reply = send env (sent w) rq;
             w' = w\<lparr>sent := sent w @ [rq], steps := Suc (steps w)\<rparr>
         in case interruption env w of
              Some x \<Rightarrow> (Inl x, w')
            | None \<Rightarrow>
                (case reply of
                   NoReply \<Rightarrow> fail Unavailable w'
                 | Reply status chunks complete \<Rightarrow>
                     lift (rbind (receive env (cl_credentials c) variant params status chunks complete)
                       (\<lambda>bytes. ok_or IncompatibleResponse (dec bytes))) w'))"

text \<open>Which failures of a read are retried.\<close>

fun retryable :: "api_error \<Rightarrow> bool" where
  "retryable Unavailable = True"
| "retryable (Upstream f) = (500 \<le> uf_status f \<and> uf_status f \<le> 599)"
| "retryable _ = False"

definition post ::
  "env \<Rightarrow> client \<Rightarrow> string \<Rightarrow> string \<Rightarrow> json \<Rightarrow> bool \<Rightarrow> (string \<Rightarrow> 'a option)
    \<Rightarrow> ('f, api_error, 'a) io" where
  "post env c family variant params retry_read dec = (\<lambda>w.
     case post_once env c family variant params dec w of
       (Inl (Fail error), w') \<Rightarrow>
         if retry_read \<and> retryable error then post_once env c family variant params dec w'
         else (Inl (Fail error), w')
     | result \<Rightarrow> result)"

section \<open>Reads\<close>

definition legacy_read ::
  "env \<Rightarrow> client \<Rightarrow> string \<Rightarrow> (string \<Rightarrow> 'a option) \<Rightarrow> ('f, api_error, 'a) io" where
  "legacy_read env c variant dec =
     post env c ''read'' variant (JObj [(''query'', JObj []), (''limit'', JInt 0)]) True dec"

definition api_version :: "env \<Rightarrow> client \<Rightarrow> ('f, api_error, string) io" where
  "api_version env c = post env c ''read'' ''GetVersion'' (JObj []) True (dec_version env)"

text \<open>\<open>core_2_3_or_later\<close>: the cached answer while it lasts, else ask Core.\<close>

definition refresh_core_version :: "env \<Rightarrow> client \<Rightarrow> ('f, api_error, bool) io" where
  "refresh_core_version env c =
     bind_io (api_version env c) (\<lambda>version.
     bind_io (lift (ok_or IncompatibleResponse (uses_current_names version))) (\<lambda>b.
     bind_io (get_now env) (\<lambda>t w.
       (Inr b, w\<lparr>core_version := (core_version w)(cl_role c :=
          Some \<lparr> at_least_2_3 = b, cv_expires_at = t + core_version_cache_ttl \<rparr>)\<rparr>))))"

definition core_2_3_or_later :: "env \<Rightarrow> client \<Rightarrow> ('f, api_error, bool) io" where
  "core_2_3_or_later env c = (\<lambda>w.
     case core_version w (cl_role c) of
       None \<Rightarrow> refresh_core_version env c w
     | Some v \<Rightarrow>
         bind_io (get_now env) (\<lambda>t.
           if t < cv_expires_at v then ret (at_least_2_3 v) else refresh_core_version env c) w)"

definition api_networks ::
  "env \<Rightarrow> client \<Rightarrow> string \<Rightarrow> ('f, api_error, network_list_item list) io" where
  "api_networks env c server =
     bind_io (core_2_3_or_later env c) (\<lambda>current.
       post env c ''read'' (if current then ''ListNetworks'' else ''ListDockerNetworks'')
         (JObj [(''server'', JStr server)]) True (dec_networks env))"

definition api_network ::
  "env \<Rightarrow> client \<Rightarrow> string \<Rightarrow> string \<Rightarrow> ('f, api_error, network) io" where
  "api_network env c server nw =
     bind_io (core_2_3_or_later env c) (\<lambda>current.
       post env c ''read'' (if current then ''InspectNetwork'' else ''InspectDockerNetwork'')
         (JObj [(''server'', JStr server), (''network'', JStr nw)]) True (dec_network env))"

definition api_operations_query ::
  "env \<Rightarrow> client \<Rightarrow> nat \<Rightarrow> operation_query \<Rightarrow> ('f, api_error, operation_page) io" where
  "api_operations_query env c page query =
     bind_io
       (post env c ''read'' ''ListUpdates''
         (JObj [(''query'', case upstream_query query of None \<Rightarrow> JNull | Some q \<Rightarrow> q),
                (''page'', JInt (int page))]) True (dec_updates env))
       (\<lambda>response. ret \<lparr> opg_operations = lur_updates response,
                         opg_next_page = lur_next_page response \<rparr>)"

definition api_operations :: "env \<Rightarrow> client \<Rightarrow> nat \<Rightarrow> ('f, api_error, operation_page) io" where
  "api_operations env c page = api_operations_query env c page default_query"

definition api_update :: "env \<Rightarrow> client \<Rightarrow> string \<Rightarrow> ('f, api_error, operation_item) io" where
  "api_update env c operation_id =
     post env c ''read'' ''GetUpdate'' (JObj [(''id'', JStr operation_id)]) True (dec_update env)"

definition api_stack_detail :: "env \<Rightarrow> client \<Rightarrow> string \<Rightarrow> ('f, api_error, stack_detail) io" where
  "api_stack_detail env c selector =
     post env c ''read'' ''GetStack'' (JObj [(''stack'', JStr selector)]) True
       (dec_stack_detail env)"

definition api_stack_log ::
  "env \<Rightarrow> client \<Rightarrow> string \<Rightarrow> string list \<Rightarrow> nat \<Rightarrow> bool
    \<Rightarrow> ('f, api_error, log_record) io" where
  "api_stack_log env c selector services tail timestamps =
     post env c ''read'' ''GetStackLog''
       (JObj [(''stack'', JStr selector), (''services'', JArr (map JStr services)),
              (''tail'', JInt (int tail)), (''timestamps'', JBool timestamps)]) True
       (dec_log env)"

definition api_update_logs ::
  "env \<Rightarrow> client \<Rightarrow> string \<Rightarrow> ('f, api_error, log_record list) io" where
  "api_update_logs env c operation_id =
     post env c ''read'' ''GetUpdate'' (JObj [(''id'', JStr operation_id)]) True
       (dec_update_logs env)"

section \<open>Mutations\<close>

text \<open>The derived serialiser of a patch: only the fields that are set.\<close>

definition command_json :: "system_command \<Rightarrow> json" where
  "command_json cmd = JObj
     ([(''path'', JStr (sc_path cmd)), (''command'', JStr (sc_command cmd))] @
      opt_field ''shell_mode'' JBool (sc_shell_mode cmd))"

definition patch_fields :: "stack_config_patch \<Rightarrow> obj" where
  "patch_fields p =
     opt_field ''file_contents'' JStr (p_file_contents p) @
     opt_field ''environment'' JStr (p_environment p) @
     opt_field ''pre_deploy'' command_json (p_pre_deploy p) @
     opt_field ''post_deploy'' command_json (p_post_deploy p) @
     opt_field ''files_on_host'' JBool (p_files_on_host p) @
     opt_field ''run_directory'' JStr (p_run_directory p) @
     opt_field ''file_paths'' (\<lambda>ps. JArr (map JStr ps)) (p_file_paths p) @
     opt_field ''env_file_path'' JStr (p_env_file_path p) @
     opt_field ''webhook_enabled'' JBool (p_webhook_enabled p) @
     opt_field ''webhook_secret'' JStr (p_webhook_secret p) @
     opt_field ''webhook_force_deploy'' JBool (p_webhook_force_deploy p)"

definition api_update_stack ::
  "env \<Rightarrow> client \<Rightarrow> string \<Rightarrow> stack_config_patch \<Rightarrow> ('f, api_error, unit) io" where
  "api_update_stack env c i patch =
     post env c ''write'' ''UpdateStack''
       (JObj [(''id'', JStr i), (''config'', JObj (patch_fields patch))]) False (dec_ack env)"

definition api_write_stack_file ::
  "env \<Rightarrow> client \<Rightarrow> string \<Rightarrow> string \<Rightarrow> string \<Rightarrow> ('f, api_error, mutation_receipt) io" where
  "api_write_stack_file env c selector file_path contents =
     post env c ''write'' ''WriteStackFileContents''
       (JObj [(''stack'', JStr selector), (''file_path'', JStr file_path),
              (''contents'', JStr contents)]) False (dec_receipt env)"

definition execute_params :: "action \<Rightarrow> string \<Rightarrow> json" where
  "execute_params a selector = JObj
     ((action_parameter a, JStr selector) #
      (if a \<in> {DeployStack, StopStack} then [(''services'', JArr []), (''stop_time'', JNull)]
       else if a = DeployDeployment then [(''stop_signal'', JNull), (''stop_time'', JNull)]
       else []))"

definition api_execute ::
  "env \<Rightarrow> client \<Rightarrow> action \<Rightarrow> string \<Rightarrow> ('f, api_error, mutation_receipt) io" where
  "api_execute env c a selector =
     post env c ''execute'' (action_variant a) (execute_params a selector) False
       (dec_receipt env)"

section \<open>What the requests send\<close>

lemma post_once_sent:
  "sent (snd (post_once env c family variant params dec w)) =
     sent w @ (case url_join env (cl_base_url c) family of None \<Rightarrow> []
               | Some endpoint \<Rightarrow> [make_request c endpoint family variant params])"
  by (simp add: post_once_def Let_def lift_def ret_def fail_def
      split: option.splits http_reply.splits sum.splits)

lemma post_once_store [simp]:
  "store (snd (post_once env c family variant params dec w)) = store w"
  by (simp add: post_once_def Let_def lift_def ret_def fail_def
      split: option.splits http_reply.splits sum.splits)

lemma post_once_steps: "steps w \<le> steps (snd (post_once env c family variant params dec w))"
  by (simp add: post_once_def Let_def lift_def ret_def fail_def
      split: option.splits http_reply.splits sum.splits)

lemma post_once_steps_le: "steps (snd (post_once env c family variant params dec w)) \<le> Suc (steps w)"
  by (simp add: post_once_def Let_def lift_def ret_def fail_def
      split: option.splits http_reply.splits sum.splits)

lemma post_cases:
  "post env c family variant params retry dec w = post_once env c family variant params dec w \<or>
   (\<exists>e w'. post_once env c family variant params dec w = (Inl (Fail e), w') \<and> retry \<and>
      retryable e \<and>
      post env c family variant params retry dec w = post_once env c family variant params dec w')"
  by (auto simp: post_def split: prod.splits sum.splits exn.splits)

lemma post_sent:
  obtains n where "n \<le> (if retry then 2 else 1)"
    "sent (snd (post env c family variant params retry dec w)) = sent w @
       (case url_join env (cl_base_url c) family of None \<Rightarrow> []
        | Some endpoint \<Rightarrow> replicate n (make_request c endpoint family variant params))"
proof -
  let ?p = "post_once env c family variant params dec"
  let ?rq = "make_request c (the (url_join env (cl_base_url c) family)) family variant params"
  consider "post env c family variant params retry dec w = ?p w"
    | e w' where "?p w = (Inl (Fail e), w')" "retry"
        "post env c family variant params retry dec w = ?p w'"
    using post_cases by blast
  then show thesis
  proof cases
    case 1
    then show thesis
      by (intro that [of 1]) (auto simp: post_once_sent split: option.splits)
  next
    case 2
    have "sent w' = sent w @ (case url_join env (cl_base_url c) family of None \<Rightarrow> []
        | Some endpoint \<Rightarrow> [make_request c endpoint family variant params])"
      using post_once_sent [of env c family variant params dec w] 2(1) by simp
    then show thesis using 2
      by (intro that [of 2]) (auto simp: post_once_sent numeral_2_eq_2 split: option.splits)
  qed
qed

lemma post_store [simp]:
  "store (snd (post env c family variant params retry dec w)) = store w"
proof -
  from post_cases [of env c family variant params retry dec w] show ?thesis
    by (metis post_once_store snd_conv)
qed

lemma post_steps: "steps w \<le> steps (snd (post env c family variant params retry dec w))"
  using post_cases [of env c family variant params retry dec w] post_once_steps
  by (metis (no_types, lifting) le_trans snd_conv)

lemma quiet_post_read [quiet_intros]:
  "quiet (cl_credentials c) (post env c ''read'' variant params retry dec)"
proof (rule quietI)
  fix w :: "'f world"
  obtain n where "sent (snd (post env c ''read'' variant params retry dec w)) = sent w @
       (case url_join env (cl_base_url c) ''read'' of None \<Rightarrow> []
        | Some endpoint \<Rightarrow> replicate n (make_request c endpoint ''read'' variant params))"
    using post_sent by blast
  then show "\<exists>rs. sent (snd (post env c ''read'' variant params retry dec w)) = sent w @ rs \<and>
     (\<forall>r \<in> set rs. rq_family r = ''read'' \<and> rq_credentials r = cl_credentials c) \<and>
     store (snd (post env c ''read'' variant params retry dec w)) = store w \<and>
     steps w \<le> steps (snd (post env c ''read'' variant params retry dec w))"
    using post_steps by (auto simp: make_request_def split: option.splits)
qed

lemma quiet_refresh [quiet_intros]: "quiet (cl_credentials c) (refresh_core_version env c)"
  unfolding refresh_core_version_def api_version_def
  by (intro quiet_intros) (auto simp: quiet_def)

lemma quiet_core_2_3 [quiet_intros]: "quiet (cl_credentials c) (core_2_3_or_later env c)"
proof (rule quiet_pointwise)
  fix w :: "'f world"
  let ?refresh = "refresh_core_version env c"
  let ?cached = "\<lambda>v. bind_io (get_now env) (\<lambda>t.
      if t < cv_expires_at v then ret (at_least_2_3 v) else ?refresh)"
  have "quiet (cl_credentials c) (?cached v)" for v by (intro quiet_intros)
  moreover have "quiet (cl_credentials c) ?refresh" by (rule quiet_refresh)
  ultimately show "\<exists>m'. quiet (cl_credentials c) m' \<and> core_2_3_or_later env c w = m' w"
    by (cases "core_version w (cl_role c)") (auto simp: core_2_3_or_later_def)
qed

lemma quiet_reads [quiet_intros]:
  "quiet (cl_credentials c) (legacy_read env c variant dec)"
  "quiet (cl_credentials c) (api_version env c)"
  "quiet (cl_credentials c) (api_networks env c server)"
  "quiet (cl_credentials c) (api_network env c server nw)"
  "quiet (cl_credentials c) (api_operations_query env c page query)"
  "quiet (cl_credentials c) (api_operations env c page)"
  "quiet (cl_credentials c) (api_update env c operation_id)"
  "quiet (cl_credentials c) (api_stack_detail env c selector)"
  "quiet (cl_credentials c) (api_stack_log env c selector services tail timestamps)"
  "quiet (cl_credentials c) (api_update_logs env c operation_id)"
  unfolding legacy_read_def api_version_def api_networks_def api_network_def
    api_operations_query_def api_operations_def api_update_def api_stack_detail_def
    api_stack_log_def api_update_logs_def
  by (intro quiet_intros)+

section \<open>Bounds\<close>

lemma sends_post: "sends_at_most (if retry then 2 else 1) (post env c family variant params retry dec)"
  unfolding sends_at_most_def
proof
  fix w :: "'f world"
  obtain n where "n \<le> (if retry then 2 else 1)"
    "sent (snd (post env c family variant params retry dec w)) = sent w @
       (case url_join env (cl_base_url c) family of None \<Rightarrow> []
        | Some endpoint \<Rightarrow> replicate n (make_request c endpoint family variant params))"
    by (rule post_sent)
  then show "length (sent (snd (post env c family variant params retry dec w)))
      \<le> length (sent w) + (if retry then 2 else 1)"
    by (auto split: option.splits)
qed

lemma sends_post_read [send_bounds]:
  "sends_at_most 2 (post env c family variant params True dec)"
  using sends_post [of True] by simp

lemma sends_refresh: "sends_at_most 2 (refresh_core_version env c)"
proof -
  have "sends_at_most 0 (bind_io (get_now env) (\<lambda>t w.
       (Inr b, w\<lparr>core_version := (core_version w)(cl_role c :=
          Some \<lparr> at_least_2_3 = b, cv_expires_at = t + core_version_cache_ttl \<rparr>)\<rparr>)))" for b
    by (simp add: sends_at_most_def bind_io_def get_now_def)
  then have "sends_at_most (2 + (0 + 0)) (refresh_core_version env c)"
    unfolding refresh_core_version_def api_version_def
    by (intro send_bounds)
  then show ?thesis by simp
qed

lemma sends_core_2_3 [send_bounds]: "sends_at_most 2 (core_2_3_or_later env c)"
proof (rule sends_pointwise)
  fix w :: "'f world"
  let ?refresh = "refresh_core_version env c"
  let ?cached = "\<lambda>v. bind_io (get_now env) (\<lambda>t.
      if t < cv_expires_at v then ret (at_least_2_3 v) else ?refresh)"
  have cached: "sends_at_most 2 (?cached v)" for v
    using sends_bind [OF sends_basic(4) [of 0 env]] sends_refresh sends_basic(1) sends_if
    by (metis (no_types, lifting) add_0)
  show "\<exists>m'. sends_at_most 2 m' \<and> core_2_3_or_later env c w = m' w"
  proof (cases "core_version w (cl_role c)")
    case None
    then show ?thesis using sends_refresh by (auto simp: core_2_3_or_later_def)
  next
    case (Some v)
    then have "core_2_3_or_later env c w = ?cached v w" by (simp add: core_2_3_or_later_def)
    then show ?thesis using cached by blast
  qed
qed

section \<open>Properties\<close>

text \<open>
  C10: a request is sent at most twice, and at most once when it
  is not a read (\<open>retry_read = False\<close>, as every mutation passes); whatever Core answers,
  every attempt is the same request, addressed to the joined endpoint under the client's
  own credentials.
\<close>

theorem post_never_replays_mutations:
  assumes "url_join env (cl_base_url c) family = Some endpoint"
  shows "\<exists>n. 1 \<le> n \<and> n \<le> (if retry then 2 else 1) \<and>
    sent (snd (post env c family variant params retry dec w)) =
      sent w @ replicate n (make_request c endpoint family variant params)"
proof -
  let ?p = "post_once env c family variant params dec"
  have once: "sent (snd (?p v)) = sent v @ [make_request c endpoint family variant params]" for v
    using assms by (simp add: post_once_sent)
  from post_cases [of env c family variant params retry dec w] show ?thesis
  proof
    assume "post env c family variant params retry dec w = ?p w"
    then show ?thesis using once by (intro exI [of _ 1]) auto
  next
    assume "\<exists>e w'. ?p w = (Inl (Fail e), w') \<and> retry \<and> retryable e \<and>
      post env c family variant params retry dec w = ?p w'"
    then obtain e w' where "?p w = (Inl (Fail e), w')" "retry"
      "post env c family variant params retry dec w = ?p w'" by blast
    then show ?thesis using once [of w] once [of w']
      by (intro exI [of _ 2]) (auto simp: numeral_2_eq_2)
  qed
qed

definition sample_client :: client where
  "sample_client = \<lparr> cl_role = AdminClient, cl_base_url = sample_url,
     cl_credentials = sample_credentials \<rparr>"

theorem post_never_replays_mutations_witness:
  "\<exists>n. 1 \<le> n \<and> n \<le> (if False then 2 else 1) \<and>
    sent (snd (post sample_env sample_client ''execute'' ''RunBuild'' (JObj []) False
        (dec_receipt sample_env) (initial_world ()))) =
      sent (initial_world ()) @ replicate n (make_request sample_client
        (sample_url\<lparr>url_path := ''/execute''\<rparr>) ''execute'' ''RunBuild'' (JObj []))"
  by (rule post_never_replays_mutations) (simp add: sample_env_def sample_client_def)


lemma read_body_eq:
  assumes "bound < u64_max"
  shows "length acc \<le> bound \<Longrightarrow> read_body bound acc chunks =
    (if length acc + length (concat chunks) \<le> bound then Some (acc @ concat chunks) else None)"
  using assms
  by (induction chunks arbitrary: acc) (auto simp: usize_saturating_add_def)

text \<open>
  The streaming loop that collects a response returns the
  concatenation of the chunks when it fits the bound and stops otherwise, however the body
  is cut into chunks; the saturating length check never lets a longer body through.
\<close>

theorem read_body_is_bounded_concat:
  "read_body maximum_response_bytes [] chunks =
     (if length (concat chunks) \<le> maximum_response_bytes then Some (concat chunks) else None)"
  by (subst read_body_eq) (simp_all add: maximum_response_bytes_def u64_max_def)

lemma refresh_core_version_cache:
  assumes "refresh_core_version env c w = (Inr b, w')"
  shows "core_version w' (cl_role c) = Some \<lparr> at_least_2_3 = b,
    cv_expires_at = now env (steps w' - 1) + core_version_cache_ttl \<rparr>"
proof -
  obtain r w1 where v: "api_version env c w = (r, w1)" by fastforce
  show ?thesis
  proof (cases r)
    case (Inl e)
    with v assms show ?thesis by (simp add: refresh_core_version_def bind_io_def)
  next
    case (Inr version)
    with v assms show ?thesis
      by (cases "uses_current_names version")
        (auto simp: refresh_core_version_def bind_io_def get_now_def)
  qed
qed

text \<open>
  Once Core's version is known, the next question within the cache's
  lifetime is answered from the cache, without a request and with the same answer.
\<close>

theorem core_version_cached:
  assumes "core_version w (cl_role c) = None"
    and "core_2_3_or_later env c w = (Inr b, w')"
    and "now env (steps w') < now env (steps w' - 1) + core_version_cache_ttl"
  shows "core_2_3_or_later env c w' = (Inr b, w'\<lparr>steps := Suc (steps w')\<rparr>)"
proof -
  have "refresh_core_version env c w = (Inr b, w')"
    using assms(1,2) by (simp add: core_2_3_or_later_def)
  from refresh_core_version_cache [OF this] assms(3) show ?thesis
    by (auto simp: core_2_3_or_later_def bind_io_def get_now_def)
qed

theorem core_version_cached_witness:
  "core_2_3_or_later sample_env sample_client
     (snd (core_2_3_or_later sample_env sample_client (initial_world ()))) =
   (Inr True, (snd (core_2_3_or_later sample_env sample_client (initial_world ())))
      \<lparr>steps := Suc (steps (snd (core_2_3_or_later sample_env sample_client (initial_world ()))))\<rparr>)"
  (is "_ = (_, ?w'\<lparr>steps := _\<rparr>)")
proof (rule core_version_cached)
  show "core_version (initial_world ()) (cl_role sample_client) = None"
    by (simp add: initial_world_def)
  have "fst (core_2_3_or_later sample_env sample_client (initial_world ())) = Inr True"
    by code_simp
  then show "core_2_3_or_later sample_env sample_client (initial_world ()) = (Inr True, ?w')"
    by (simp add: prod_eq_iff)
  show "now sample_env (steps ?w') < now sample_env (steps ?w' - 1) + core_version_cache_ttl"
    by (simp add: sample_env_def core_version_cache_ttl_def secs_def)
qed

lemma patch_lookup:
  "map_of (patch_fields p) ''file_contents'' = map_option JStr (p_file_contents p)"
  "map_of (patch_fields p) ''environment'' = map_option JStr (p_environment p)"
  "map_of (patch_fields p) ''pre_deploy'' = map_option command_json (p_pre_deploy p)"
  "map_of (patch_fields p) ''post_deploy'' = map_option command_json (p_post_deploy p)"
  "map_of (patch_fields p) ''files_on_host'' = map_option JBool (p_files_on_host p)"
  "map_of (patch_fields p) ''run_directory'' = map_option JStr (p_run_directory p)"
  "map_of (patch_fields p) ''file_paths'' = map_option (\<lambda>ps. JArr (map JStr ps)) (p_file_paths p)"
  "map_of (patch_fields p) ''env_file_path'' = map_option JStr (p_env_file_path p)"
  "map_of (patch_fields p) ''webhook_enabled'' = map_option JBool (p_webhook_enabled p)"
  "map_of (patch_fields p) ''webhook_secret'' = map_option JStr (p_webhook_secret p)"
  "map_of (patch_fields p) ''webhook_force_deploy'' = map_option JBool (p_webhook_force_deploy p)"
  unfolding patch_fields_def by (simp_all add: map_of_opt_field del: map_of_append)

lemma command_json_inj: "inj command_json"
proof (rule injI)
  fix c d assume "command_json c = command_json d"
  then show "c = d"
    by (cases c; cases d) (auto simp: command_json_def opt_field_def split: option.splits)
qed

lemma patch_values_inj:
  "map_option JStr s = map_option JStr s' \<longleftrightarrow> s = s'"
  "map_option JBool b = map_option JBool b' \<longleftrightarrow> b = b'"
  "map_option command_json c = map_option command_json c' \<longleftrightarrow> c = c'"
  "map_option (\<lambda>ps. JArr (map JStr ps)) l = map_option (\<lambda>ps. JArr (map JStr ps)) l' \<longleftrightarrow> l = l'"
  by (intro map_option_inj_iff command_json_inj; auto simp: inj_def inj_map_eq_map)+

text \<open>
  The document of a stack patch determines the patch (two patches
  with the same document are equal), names only patchable fields, and is empty exactly for
  the patch that sets nothing.
\<close>

theorem patch_fields_faithful:
  "(patch_fields p = patch_fields q \<longleftrightarrow> p = q) \<and>
   fst ` set (patch_fields p) \<subseteq> {''file_contents'', ''environment'', ''pre_deploy'',
     ''post_deploy'', ''files_on_host'', ''run_directory'', ''file_paths'', ''env_file_path'',
     ''webhook_enabled'', ''webhook_secret'', ''webhook_force_deploy''} \<and>
   (patch_fields p = [] \<longleftrightarrow> p = default_patch)"
proof -
  have inj: "p = q" if e: "patch_fields p = patch_fields q"
    using patch_lookup [of p, unfolded e patch_lookup [of q]]
    by (intro stack_config_patch.equality) (simp_all add: patch_values_inj)
  have "patch_fields p = [] \<longleftrightarrow> p = default_patch"
    by (cases p) (simp add: patch_fields_def default_patch_def)
  moreover have "fst ` set (patch_fields p) \<subseteq> {''file_contents'', ''environment'', ''pre_deploy'',
     ''post_deploy'', ''files_on_host'', ''run_directory'', ''file_paths'', ''env_file_path'',
     ''webhook_enabled'', ''webhook_secret'', ''webhook_force_deploy''}"
    unfolding patch_fields_def set_append image_Un
    by (intro Un_least; rule subset_trans [OF opt_field_keys]; simp)
  ultimately show ?thesis using inj by blast
qed


end
