(* ===== verification/Api_Inventory.thy ===== *)
theory Api_Inventory
  imports Api_Client
begin

text \<open>
  \<open>crates/komodo-api/src/inventory.rs\<close>: one page of a resource inventory, or the
  candidates for an exact id or name. Core 2.3 and later are asked page by page; older Core
  is asked once for everything.
\<close>

datatype inventory_request =
    Page nat
  | Selector string

record 'i inventory_page_rec =
  ip_items :: "'i resource_list_item list"
  ip_next_page :: "nat option"

definition page_size :: nat where "page_size = 100"
definition max_selector_pages :: nat where "max_selector_pages = 16"
definition selector_timeout :: nat where "selector_timeout = secs 30"

definition from_legacy ::
  "'i resource_list_item list \<Rightarrow> inventory_request \<Rightarrow> api_error + 'i inventory_page_rec" where
  "from_legacy items request =
     (case request of
        Page (Suc _) \<Rightarrow> Inl InventoryPaginationUnsupported
      | _ \<Rightarrow> Inr \<lparr> ip_items = items, ip_next_page = None \<rparr>)"

definition page_params :: "json \<Rightarrow> nat \<Rightarrow> json" where
  "page_params query page = JObj
     [(''query'', query), (''page'', JInt (int page)), (''limit'', JInt (int page_size)),
      (''sort_by'', JStr ''Name''), (''sort_desc'', JBool False)]"

definition check_page ::
  "nat \<Rightarrow> 'i resource_list_item list \<Rightarrow> api_error + 'i inventory_page_rec" where
  "check_page page items =
     (if page_size < length items then Inl IncompatibleResponse
      else if length items = page_size then
        rbind (ok_or IncompatibleResponse (u32_checked_succ page)) (\<lambda>next.
          Inr \<lparr> ip_items = items, ip_next_page = Some next \<rparr>)
      else Inr \<lparr> ip_items = items, ip_next_page = None \<rparr>)"

definition inventory_page ::
  "env \<Rightarrow> client \<Rightarrow> string \<Rightarrow> (string \<Rightarrow> 'i resource_list_item list option) \<Rightarrow> json \<Rightarrow> nat
    \<Rightarrow> ('f, api_error, 'i inventory_page_rec) io" where
  "inventory_page env c variant dec query page =
     bind_io (post env c ''read'' variant (page_params query page) True dec) (\<lambda>items.
       lift (check_page page items))"

text \<open>
  The inner loop of the selector scan: push the exact matches; the flag says that the second
  one was pushed, which ends the scan.
\<close>

fun collect_exact ::
  "string \<Rightarrow> 'i resource_list_item list \<Rightarrow> 'i resource_list_item list
    \<Rightarrow> 'i resource_list_item list \<times> bool" where
  "collect_exact selector matches [] = (matches, False)"
| "collect_exact selector matches (item # items) =
     (if eq_ignore_ascii_case (ri_name item) selector then
        (let matches' = matches @ [item]
         in if length matches' = 2 then (matches', True)
            else collect_exact selector matches' items)
      else collect_exact selector matches items)"

text \<open>The scan over the pages still allowed.\<close>

fun scan_pages ::
  "env \<Rightarrow> client \<Rightarrow> string \<Rightarrow> (string \<Rightarrow> 'i resource_list_item list option) \<Rightarrow> string
    \<Rightarrow> nat list \<Rightarrow> 'i resource_list_item list \<Rightarrow> ('f, api_error, 'i inventory_page_rec) io" where
  "scan_pages env c variant dec selector [] matches = fail InventorySelectorTooBroad"
| "scan_pages env c variant dec selector (page # pages) matches =
     bind_io (inventory_page env c variant dec (JObj [(''terms'', JArr [JStr selector])]) page)
       (\<lambda>response.
         let (matches', full) = collect_exact selector matches (ip_items response)
         in if full \<or> ip_next_page response = None
            then ret \<lparr> ip_items = matches', ip_next_page = None \<rparr>
            else scan_pages env c variant dec selector pages matches')"

definition is_object_id :: "string \<Rightarrow> bool" where
  "is_object_id s \<longleftrightarrow> length s = 24 \<and> list_all is_ascii_hexdigit s"

definition native_inventory ::
  "env \<Rightarrow> client \<Rightarrow> string \<Rightarrow> (string \<Rightarrow> 'i resource_list_item list option) \<Rightarrow> inventory_request
    \<Rightarrow> ('f, api_error, 'i inventory_page_rec) io" where
  "native_inventory env c variant dec request =
     (case request of
        Page page \<Rightarrow> inventory_page env c variant dec (JObj []) page
      | Selector selector \<Rightarrow>
          scan_pages env c variant dec selector [0..<max_selector_pages] [])"

text \<open>After the lookup by id: ask which protocol Core speaks.\<close>

definition versioned_inventory ::
  "env \<Rightarrow> client \<Rightarrow> string \<Rightarrow> (string \<Rightarrow> 'i resource_list_item list option) \<Rightarrow> inventory_request
    \<Rightarrow> ('f, api_error, 'i inventory_page_rec) io" where
  "versioned_inventory env c variant dec request =
     bind_io (core_2_3_or_later env c) (\<lambda>current.
       if current then native_inventory env c variant dec request
       else case request of
         Page (Suc _) \<Rightarrow> fail InventoryPaginationUnsupported
       | _ \<Rightarrow> bind_io (legacy_read env c variant dec) (\<lambda>items.
                lift (from_legacy items request)))"

definition inventory_inner ::
  "env \<Rightarrow> client \<Rightarrow> string \<Rightarrow> (string \<Rightarrow> 'i resource_list_item list option) \<Rightarrow> inventory_request
    \<Rightarrow> ('f, api_error, 'i inventory_page_rec) io" where
  "inventory_inner env c variant dec request =
     (case request of
        Page _ \<Rightarrow> versioned_inventory env c variant dec request
      | Selector selector \<Rightarrow>
          if selector = [] \<or> 128 < length selector \<or> has_control selector
          then fail (InvalidConfiguration ''inventory selector'')
          else if is_object_id selector then
            bind_io
              (post env c ''read'' variant
                (JObj [(''query'', JObj [(''names'', JArr [JStr selector])]), (''limit'', JInt 0)])
                True dec)
              (\<lambda>items. if list_ex (\<lambda>item. ri_id item = selector) items
                  then ret \<lparr> ip_items = items, ip_next_page = None \<rparr>
                  else versioned_inventory env c variant dec request)
          else versioned_inventory env c variant dec request)"

text \<open>
  \<open>tokio::time::timeout\<close> around a selector lookup: the body runs with a deadline, and its
  being dropped there is the error \<open>InventorySelectorTooBroad\<close>.
\<close>

definition with_timeout :: "env \<Rightarrow> nat \<Rightarrow> 'e \<Rightarrow> ('f, 'e, 'a) io \<Rightarrow> ('f, 'e, 'a) io" where
  "with_timeout env d e m = (\<lambda>w.
     let (r, w') = m (w\<lparr>timeout_at := Some (now env (steps w) + d), steps := Suc (steps w)\<rparr>)
     in (case r of Inl TimedOut \<Rightarrow> Inl (Fail e) | _ \<Rightarrow> r, w'\<lparr>timeout_at := timeout_at w\<rparr>))"

definition inventory ::
  "env \<Rightarrow> client \<Rightarrow> string \<Rightarrow> (string \<Rightarrow> 'i resource_list_item list option) \<Rightarrow> inventory_request
    \<Rightarrow> ('f, api_error, 'i inventory_page_rec) io" where
  "inventory env c variant dec request =
     (case request of
        Selector _ \<Rightarrow> with_timeout env selector_timeout InventorySelectorTooBroad
                        (inventory_inner env c variant dec request)
      | Page _ \<Rightarrow> inventory_inner env c variant dec request)"

text \<open>The five inventories of the \<open>KomodoApi\<close> implementation.\<close>

definition servers_inventory ::
  "env \<Rightarrow> client \<Rightarrow> inventory_request \<Rightarrow> ('f, api_error, server_info inventory_page_rec) io" where
  "servers_inventory env c request = inventory env c ''ListServers'' (dec_servers env) request"

definition stacks_inventory ::
  "env \<Rightarrow> client \<Rightarrow> inventory_request \<Rightarrow> ('f, api_error, stack_info inventory_page_rec) io" where
  "stacks_inventory env c request = inventory env c ''ListStacks'' (dec_stacks env) request"

definition deployments_inventory ::
  "env \<Rightarrow> client \<Rightarrow> inventory_request \<Rightarrow> ('f, api_error, deployment_info inventory_page_rec) io" where
  "deployments_inventory env c request =
     inventory env c ''ListDeployments'' (dec_deployments env) request"

definition builds_inventory ::
  "env \<Rightarrow> client \<Rightarrow> inventory_request \<Rightarrow> ('f, api_error, build_info inventory_page_rec) io" where
  "builds_inventory env c request = inventory env c ''ListBuilds'' (dec_builds env) request"

definition repos_inventory ::
  "env \<Rightarrow> client \<Rightarrow> inventory_request \<Rightarrow> ('f, api_error, repo_info inventory_page_rec) io" where
  "repos_inventory env c request = inventory env c ''ListRepos'' (dec_repos env) request"

section \<open>Inventories only read\<close>

lemma quiet_inventory_page [quiet_intros]:
  "quiet (cl_credentials c) (inventory_page env c variant dec query page)"
  unfolding inventory_page_def by (intro quiet_intros)

lemma quiet_scan_pages [quiet_intros]:
  "quiet (cl_credentials c) (scan_pages env c variant dec selector pages matches)"
proof (induction pages arbitrary: matches)
  case Nil
  show ?case unfolding scan_pages.simps by (intro quiet_intros)
next
  case (Cons page pages)
  then show ?case unfolding scan_pages.simps
    by (intro quiet_intros) (simp add: Let_def quiet_basic split: prod.split)
qed

lemma quiet_versioned_inventory [quiet_intros]:
  "quiet (cl_credentials c) (versioned_inventory env c variant dec request)"
  unfolding versioned_inventory_def native_inventory_def
  by (cases request; (rename_tac p, case_tac p)?) (auto intro!: quiet_intros)

lemma quiet_inventory_inner [quiet_intros]:
  "quiet (cl_credentials c) (inventory_inner env c variant dec request)"
  unfolding inventory_inner_def by (cases request) (auto intro!: quiet_intros)

lemma quiet_with_timeout [quiet_intros]:
  fixes m :: "('f, 'e, 'a) io"
  assumes "quiet k m"
  shows "quiet k (with_timeout env d e m)"
proof (rule quietI)
  fix w :: "'f world"
  let ?w = "w\<lparr>timeout_at := Some (now env (steps w) + d), steps := Suc (steps w)\<rparr>"
  obtain rs where "sent (snd (m ?w)) = sent ?w @ rs"
    "\<forall>r \<in> set rs. rq_family r = ''read'' \<and> rq_credentials r = k" "store (snd (m ?w)) = store ?w"
    "steps ?w \<le> steps (snd (m ?w))"
    using assms by (rule quietE)
  then show "\<exists>rs. sent (snd (with_timeout env d e m w)) = sent w @ rs \<and>
     (\<forall>r \<in> set rs. rq_family r = ''read'' \<and> rq_credentials r = k) \<and>
     store (snd (with_timeout env d e m w)) = store w \<and>
     steps w \<le> steps (snd (with_timeout env d e m w))"
    by (auto simp: with_timeout_def Let_def split: prod.splits)
qed

lemma quiet_inventory [quiet_intros]:
  "quiet (cl_credentials c) (inventory env c variant dec request)"
  unfolding inventory_def by (cases request) (auto intro!: quiet_intros)

lemma quiet_inventories [quiet_intros]:
  "quiet (cl_credentials c) (servers_inventory env c request)"
  "quiet (cl_credentials c) (stacks_inventory env c request)"
  "quiet (cl_credentials c) (deployments_inventory env c request)"
  "quiet (cl_credentials c) (builds_inventory env c request)"
  "quiet (cl_credentials c) (repos_inventory env c request)"
  unfolding servers_inventory_def stacks_inventory_def deployments_inventory_def
    builds_inventory_def repos_inventory_def
  by (intro quiet_intros)+

section \<open>Properties\<close>

text \<open>
  C24: one page of an inventory is answered with at most 100 items, and
  carries a next page (the successor, within 32 bits) exactly when it is full; more than 100
  items, or a full page at the last page number, is refused as incompatible.
\<close>

theorem inventory_page_contract:
  "(inventory_page env c variant dec query page w = (Inr p, w')) =
     (\<exists>items. post env c ''read'' variant (page_params query page) True dec w = (Inr items, w') \<and>
        ip_items p = items \<and> inventory_page_rec.more p = () \<and>
        (length items < 100 \<or> length items = 100 \<and> page < 4294967295) \<and>
        ip_next_page p = (if length items = 100 then Some (page + 1) else None))"
proof -
  have "check_page page items = Inr p \<longleftrightarrow> ip_items p = items \<and> inventory_page_rec.more p = () \<and>
      (length items < 100 \<or> length items = 100 \<and> page < 4294967295) \<and>
      ip_next_page p = (if length items = 100 then Some (page + 1) else None)"
    for items
    
    by (cases p) (auto simp: check_page_def page_size_def rbind_Inr_iff u32_checked_succ_def
        u32_max_def)
  then show ?thesis
    by (auto simp: inventory_page_def bind_io_Inr)
qed

text \<open>The replies of a run of pages, each read in the state the one before left.\<close>

fun pages_read ::
  "env \<Rightarrow> client \<Rightarrow> string \<Rightarrow> (string \<Rightarrow> 'i resource_list_item list option) \<Rightarrow> string
    \<Rightarrow> nat list \<Rightarrow> 'f world \<Rightarrow> 'i inventory_page_rec list \<Rightarrow> 'f world \<Rightarrow> bool" where
  "pages_read env c variant dec selector pages w [] w' \<longleftrightarrow> w' = w"
| "pages_read env c variant dec selector [] w (r # rs) w' \<longleftrightarrow> False"
| "pages_read env c variant dec selector (page # pages) w (r # rs) w' \<longleftrightarrow>
     fst (inventory_page env c variant dec (JObj [(''terms'', JArr [JStr selector])]) page w) = Inr r \<and>
     pages_read env c variant dec selector pages
       (snd (inventory_page env c variant dec (JObj [(''terms'', JArr [JStr selector])]) page w)) rs w'"

abbreviation exact_matches ::
  "string \<Rightarrow> 'i resource_list_item list \<Rightarrow> 'i resource_list_item list" where
  "exact_matches selector items \<equiv>
     filter (\<lambda>item. eq_ignore_ascii_case (ri_name item) selector) items"

lemma collect_exact_eq:
  "length ms < 2 \<Longrightarrow> collect_exact selector ms items =
     (take 2 (ms @ exact_matches selector items), 2 \<le> length (ms @ exact_matches selector items))"
proof (induction items arbitrary: ms)
  case Nil
  then show ?case by simp
next
  case (Cons item items)
  show ?case
  proof (cases "eq_ignore_ascii_case (ri_name item) selector \<and> length ms = 1")
    case True
    then obtain m where "ms = [m]" by (cases ms) auto
    with True show ?thesis by simp
  next
    case False
    with Cons show ?thesis by (auto simp: Let_def less_2_cases_iff)
  qed
qed

lemma scan_pages_result:
  assumes "scan_pages env c variant dec selector pages ms w = (Inr p, w')" "length ms < 2"
  shows "\<exists>rs. rs \<noteq> [] \<and> pages_read env c variant dec selector pages w rs w' \<and>
    ip_items p = take 2 (ms @ exact_matches selector (concat (map ip_items rs))) \<and>
    ip_next_page p = None \<and>
    (length (ip_items p) = 2 \<or> ip_next_page (last rs) = None)"
  using assms
proof (induction pages arbitrary: ms w)
  case Nil
  then show ?case by simp
next
  case (Cons page pages)
  let ?q = "JObj [(''terms'', JArr [JStr selector])]"
  from Cons.prems(1) obtain r w1 where r: "inventory_page env c variant dec ?q page w = (Inr r, w1)"
    and rest: "(let (matches', full) = collect_exact selector ms (ip_items r)
         in if full \<or> ip_next_page r = None
            then ret \<lparr> ip_items = matches', ip_next_page = None \<rparr>
            else scan_pages env c variant dec selector pages matches') w1 = (Inr p, w')"
    by (auto simp: bind_io_Inr)
  let ?ms = "ms @ exact_matches selector (ip_items r)"
  show ?case
  proof (cases "2 \<le> length ?ms \<or> ip_next_page r = None")
    case True
    with rest r Cons.prems(2) show ?thesis
      by (intro exI [of _ "[r]"]) (auto simp: collect_exact_eq)
  next
    case False
    then have "scan_pages env c variant dec selector pages ?ms w1 = (Inr p, w')" "length ?ms < 2"
      using rest Cons.prems(2) by (auto simp: collect_exact_eq)
    from Cons.IH [OF this] obtain rs where "rs \<noteq> []"
      "pages_read env c variant dec selector pages w1 rs w'"
      "ip_items p = take 2 (?ms @ exact_matches selector (concat (map ip_items rs)))"
      "ip_next_page p = None" "length (ip_items p) = 2 \<or> ip_next_page (last rs) = None" by blast
    with r show ?thesis by (intro exI [of _ "r # rs"]) auto
  qed
qed

text \<open>
  C12: when the scan for a name on Core 2.3 or later returns, its items are
  the first two exact (ASCII case-insensitive) matches on the pages it read in order from page
  zero; fewer than two means that the last page read was the end of the inventory, so a single
  item is the only resource of that name and no item means that there is none.
\<close>

theorem selector_scan_exact:
  assumes "native_inventory env c variant dec (Selector selector) w = (Inr p, w')"
  shows "\<exists>rs. rs \<noteq> [] \<and> pages_read env c variant dec selector [0..<16] w rs w' \<and>
    ip_items p = take 2 (exact_matches selector (concat (map ip_items rs))) \<and>
    ip_next_page p = None \<and>
    (length (ip_items p) = 2 \<or> ip_next_page (last rs) = None)"
  using scan_pages_result [of env c variant dec selector "[0..<16]" "[]" w p w'] assms
  by (simp add: native_inventory_def max_selector_pages_def)

theorem selector_scan_exact_witness:
  "\<exists>rs. rs \<noteq> [] \<and> pages_read sample_env sample_client ''ListStacks'' (dec_stacks sample_env)
      ''web'' [0..<16] (initial_world ()) rs
      (snd (native_inventory sample_env sample_client ''ListStacks'' (dec_stacks sample_env)
        (Selector ''web'') (initial_world ()))) \<and>
    ip_items \<lparr> ip_items = [], ip_next_page = None \<rparr> =
      take 2 (exact_matches ''web'' (concat (map ip_items rs))) \<and>
    ip_next_page \<lparr> ip_items = ([] :: stack_info resource_list_item list), ip_next_page = None \<rparr> = None \<and>
    (length (ip_items \<lparr> ip_items = ([] :: stack_info resource_list_item list), ip_next_page = None \<rparr>) = 2
      \<or> ip_next_page (last rs) = None)"
  by (rule selector_scan_exact)
    (simp add: native_inventory_def max_selector_pages_def upt_rec [of 0] sample_env_def
      sample_client_def inventory_page_def post_def post_once_def bind_io_def receive_def
      check_page_def page_size_def interruption_def initial_world_def status_is_success_def
      maximum_response_bytes_def usize_saturating_add_def u64_max_def)

lemma sends_inventory_page [send_bounds]:
  "sends_at_most 2 (inventory_page env c variant dec query page)"
  using sends_bind [OF sends_post_read sends_basic(3)] unfolding inventory_page_def
  by (metis (no_types) add_0_right)

lemma sends_scan_pages:
  "sends_at_most (2 * length pages) (scan_pages env c variant dec selector pages ms)"
proof (induction pages arbitrary: ms)
  case Nil
  show ?case unfolding scan_pages.simps by (rule sends_basic)
next
  case (Cons page pages)
  show ?case unfolding scan_pages.simps
    by (rule sends_at_most_mono [OF sends_bind [OF sends_inventory_page,
          where b = "2 * length pages"]])
      (auto simp: Let_def split: prod.split intro!: sends_basic Cons)
qed


lemma sends_with_timeout:
  fixes m :: "('b, 'e, 'a) io"
  shows "sends_at_most n m \<Longrightarrow> sends_at_most n (with_timeout env d e m)"
  unfolding sends_at_most_def
proof
  fix w :: "'b world"
  let ?w = "w\<lparr>timeout_at := Some (now env (steps w) + d), steps := Suc (steps w)\<rparr>"
  assume "\<forall>w. length (sent (snd (m w))) \<le> length (sent w) + n"
  then have "length (sent (snd (m ?w))) \<le> length (sent ?w) + n" by blast
  then show "length (sent (snd (with_timeout env d e m w))) \<le> length (sent w) + n"
    by (cases "m ?w") (simp add: with_timeout_def Let_def)
qed

lemma sends_versioned_inventory:
  "sends_at_most 34 (versioned_inventory env c variant dec request)"
proof -
  have "sends_at_most (2 * 16) (scan_pages env c variant dec s [0..<16] [])" for s
    using sends_scan_pages [of "[0..<16]"] by simp
  then have native: "sends_at_most 32 (native_inventory env c variant dec request)"
    by (cases request)
      (auto simp: native_inventory_def max_selector_pages_def
        intro: sends_at_most_mono [OF sends_inventory_page])
  have "sends_at_most (2 + 0) (bind_io (legacy_read env c variant dec) (\<lambda>items.
      lift (from_legacy items request)))"
    unfolding legacy_read_def by (intro send_bounds)
  then have legacy: "sends_at_most 32 (case request of
      Page (Suc _) \<Rightarrow> fail InventoryPaginationUnsupported
    | _ \<Rightarrow> bind_io (legacy_read env c variant dec) (\<lambda>items. lift (from_legacy items request)))"
    using sends_basic(2) by (auto split: inventory_request.split nat.split intro: sends_at_most_mono)
  have "sends_at_most (2 + 32) (versioned_inventory env c variant dec request)"
    unfolding versioned_inventory_def using native legacy
    by (intro sends_bind sends_core_2_3 sends_if)
  then show ?thesis by simp
qed

lemma sends_inventory_inner: "sends_at_most 36 (inventory_inner env c variant dec request)"
proof (cases request)
    case (Page page)
    then show ?thesis
      by (auto simp: inventory_inner_def intro: sends_at_most_mono [OF sends_versioned_inventory])
  next
    case (Selector s)
    have "sends_at_most (2 + 34) (bind_io (post env c ''read'' variant
        (JObj [(''query'', JObj [(''names'', JArr [JStr s])]), (''limit'', JInt 0)]) True dec)
        (\<lambda>items. if list_ex (\<lambda>item. ri_id item = s) items
          then ret \<lparr> ip_items = items, ip_next_page = None \<rparr>
          else versioned_inventory env c variant dec request))"
      by (intro send_bounds sends_versioned_inventory)
    then show ?thesis
      using Selector
      by (auto simp: inventory_inner_def
          intro: sends_basic sends_at_most_mono [OF sends_versioned_inventory])
qed

lemma sends_inventory [send_bounds]: "sends_at_most 36 (inventory env c variant dec request)"
  unfolding inventory_def
  by (cases request) (auto intro: sends_with_timeout sends_inventory_inner)

text \<open>
  C25: one inventory lookup sends at most 36 requests to Core,
  retries, the version question and sixteen pages included, whatever Core answers and however
  the lookup ends.
\<close>

theorem inventory_requests_bounded:
  "length (sent (snd (inventory env c variant dec request w))) \<le> length (sent w) + 36"
  using sends_inventory unfolding sends_at_most_def by blast

end
