(* ===== verification/Mcp_Registry.thy ===== *)
theory Mcp_Registry
  imports Prelude
begin

text \<open>
  The tool registry of \<open>crates/komodo-mcp/src/lib.rs\<close>: the kinds, their behaviour
  hints, the capability profiles, and what a handler lists and accepts. The human-readable
  descriptions (and the JSON schemas derived for the catalog) carry no behaviour and are left
  out.
\<close>

section \<open>Profiles, kinds, behaviour\<close>

datatype tool_profile = Status | ReadOnly | Operations | Full

fun profile_from_str :: "string \<Rightarrow> string + tool_profile" where
  "profile_from_str value =
     (if value = ''status'' then Inr Status
      else if value = ''read-only'' then Inr ReadOnly
      else if value = ''operations'' then Inr Operations
      else if value = ''full'' then Inr Full
      else Inl ''tool profile must be status, read-only, operations, or full'')"

fun profile_index :: "tool_profile \<Rightarrow> nat" where
  "profile_index Status = 0"
| "profile_index ReadOnly = 1"
| "profile_index Operations = 2"
| "profile_index Full = 3"

text \<open>Profiles are ordered by their index, from the least capable to the complete one.\<close>

lemma profile_index_inj: "profile_index p = profile_index q \<longleftrightarrow> p = q"
  by (cases p; cases q) auto

instantiation tool_profile :: linorder
begin

definition less_eq_tool_profile :: "tool_profile \<Rightarrow> tool_profile \<Rightarrow> bool" where
  "less_eq_tool_profile p q \<longleftrightarrow> profile_index p \<le> profile_index q"

definition less_tool_profile :: "tool_profile \<Rightarrow> tool_profile \<Rightarrow> bool" where
  "less_tool_profile p q \<longleftrightarrow> profile_index p < profile_index q"

instance
  by standard (auto simp: less_eq_tool_profile_def less_tool_profile_def profile_index_inj)

end

datatype tool_kind =
    SystemStatus
  | ServersSearch
  | ServersStatus
  | ServersNetworksSearch
  | ServersNetworksRead
  | StacksSearch
  | StacksStatus
  | StacksDiagnostics
  | StacksConfigRead
  | StacksComposeRead
  | StacksEnvironmentRead
  | StacksCommandsRead
  | StacksWebhookStatus
  | StacksWebhookSecretRead
  | StacksLogsTail
  | DeploymentsSearch
  | DeploymentsStatus
  | BuildsSearch
  | BuildsStatus
  | ReposSearch
  | ReposStatus
  | OperationsSearch
  | OperationsStatus
  | OperationsLogsRead
  | StacksDeploy
  | StacksRestart
  | StacksStop
  | DeploymentsDeploy
  | DeploymentsRestart
  | BuildsRun
  | BuildsCancel
  | ReposPull
  | StacksConfigPatch
  | StacksComposeWrite
  | StacksEnvironmentWrite
  | StacksCommandsWrite
  | StacksFileWrite
  | StacksWebhookUpdate
  | StacksWebhookSecretWrite

record tool_behavior =
  read_only :: bool
  destructive :: bool
  idempotent :: bool
  open_world :: bool

record tool_spec =
  spec_name :: string
  spec_behavior :: tool_behavior
  spec_kind :: tool_kind

definition read_behavior :: tool_behavior where
  "read_behavior =
     \<lparr> read_only = True, destructive = False, idempotent = True, open_world = False \<rparr>"

definition mutation_behavior :: tool_behavior where
  "mutation_behavior =
     \<lparr> read_only = False, destructive = False, idempotent = False, open_world = False \<rparr>"

definition with_destructive :: "tool_behavior \<Rightarrow> tool_behavior" where
  "with_destructive b = b\<lparr>destructive := True\<rparr>"

definition with_idempotent :: "tool_behavior \<Rightarrow> tool_behavior" where
  "with_idempotent b = b\<lparr>idempotent := True\<rparr>"

definition with_open_world :: "tool_behavior \<Rightarrow> tool_behavior" where
  "with_open_world b = b\<lparr>open_world := True\<rparr>"

definition read_spec :: "tool_kind \<Rightarrow> string \<Rightarrow> tool_spec" where
  "read_spec kind name =
     \<lparr> spec_name = name, spec_behavior = read_behavior, spec_kind = kind \<rparr>"

definition write_spec :: "tool_kind \<Rightarrow> string \<Rightarrow> tool_behavior \<Rightarrow> tool_spec" where
  "write_spec kind name behavior =
     \<lparr> spec_name = name, spec_behavior = behavior, spec_kind = kind \<rparr>"

section \<open>The registry\<close>

definition read_registry :: "tool_spec list" where
  "read_registry =
    [read_spec SystemStatus ''system.status'',
     read_spec ServersSearch ''servers.search'',
     read_spec ServersStatus ''servers.status'',
     read_spec ServersNetworksSearch ''servers.networks.search'',
     read_spec ServersNetworksRead ''servers.networks.read'',
     read_spec StacksSearch ''stacks.search'',
     read_spec StacksStatus ''stacks.status'',
     read_spec StacksDiagnostics ''stacks.diagnostics'',
     read_spec StacksConfigRead ''stacks.config.read'',
     read_spec StacksComposeRead ''stacks.compose.read'',
     read_spec StacksEnvironmentRead ''stacks.environment.read'',
     read_spec StacksCommandsRead ''stacks.commands.read'',
     read_spec StacksWebhookStatus ''stacks.webhook.status'',
     read_spec StacksWebhookSecretRead ''stacks.webhook.secret.read'',
     read_spec StacksLogsTail ''stacks.logs.tail'',
     read_spec DeploymentsSearch ''deployments.search'',
     read_spec DeploymentsStatus ''deployments.status'',
     read_spec BuildsSearch ''builds.search'',
     read_spec BuildsStatus ''builds.status'',
     read_spec ReposSearch ''repos.search'',
     read_spec ReposStatus ''repos.status'',
     read_spec OperationsSearch ''operations.search'',
     read_spec OperationsStatus ''operations.status'',
     read_spec OperationsLogsRead ''operations.logs.read'']"

definition write_registry :: "tool_spec list" where
  "write_registry =
    [write_spec StacksDeploy ''stacks.deploy'' (with_open_world (with_destructive mutation_behavior)),
     write_spec StacksRestart ''stacks.restart'' mutation_behavior,
     write_spec StacksStop ''stacks.stop'' (with_idempotent (with_destructive mutation_behavior)),
     write_spec DeploymentsDeploy ''deployments.deploy'' (with_open_world (with_destructive mutation_behavior)),
     write_spec DeploymentsRestart ''deployments.restart'' mutation_behavior,
     write_spec BuildsRun ''builds.run'' (with_open_world mutation_behavior),
     write_spec BuildsCancel ''builds.cancel'' (with_idempotent (with_destructive mutation_behavior)),
     write_spec ReposPull ''repos.pull'' (with_open_world (with_destructive mutation_behavior)),
     write_spec StacksConfigPatch ''stacks.config.patch'' (with_destructive mutation_behavior),
     write_spec StacksComposeWrite ''stacks.compose.write'' (with_destructive mutation_behavior),
     write_spec StacksEnvironmentWrite ''stacks.environment.write'' (with_destructive mutation_behavior),
     write_spec StacksCommandsWrite ''stacks.commands.write'' (with_destructive mutation_behavior),
     write_spec StacksFileWrite ''stacks.file.write'' (with_destructive mutation_behavior),
     write_spec StacksWebhookUpdate ''stacks.webhook.update'' (with_destructive mutation_behavior),
     write_spec StacksWebhookSecretWrite ''stacks.webhook.secret.write'' (with_destructive mutation_behavior)]"

definition tool_registry :: "tool_spec list" where
  "tool_registry = read_registry @ write_registry"

section \<open>Listing and lookup\<close>

definition operational_kinds :: "tool_kind set" where
  "operational_kinds = {StacksDeploy, StacksRestart, StacksStop, DeploymentsDeploy,
     DeploymentsRestart, BuildsRun, BuildsCancel, ReposPull}"

fun profile_permits :: "tool_profile \<Rightarrow> tool_spec \<Rightarrow> bool" where
  "profile_permits Status spec = read_only (spec_behavior spec)"
| "profile_permits ReadOnly spec = read_only (spec_behavior spec)"
| "profile_permits Operations spec =
     (read_only (spec_behavior spec) \<or> spec_kind spec \<in> operational_kinds)"
| "profile_permits Full spec = True"

definition list_tools_for_profile :: "tool_profile \<Rightarrow> tool_spec list" where
  "list_tools_for_profile profile = filter (profile_permits profile) tool_registry"

text \<open>\<open>has_admin\<close>: whether the handler holds an administrative client.\<close>

definition handler_permits :: "bool \<Rightarrow> tool_profile \<Rightarrow> tool_spec \<Rightarrow> bool" where
  "handler_permits has_admin profile spec \<longleftrightarrow>
     profile_permits profile spec \<and> (has_admin \<or> read_only (spec_behavior spec))"

definition available_tools :: "bool \<Rightarrow> tool_profile \<Rightarrow> tool_spec list" where
  "available_tools has_admin profile =
     list_tools_for_profile (if \<not> has_admin then ReadOnly else profile)"

definition find_spec :: "bool \<Rightarrow> tool_profile \<Rightarrow> string \<Rightarrow> tool_spec option" where
  "find_spec has_admin profile name =
     find (\<lambda>spec. spec_name spec = name \<and> handler_permits has_admin profile spec) tool_registry"

section \<open>Lemmas\<close>

lemmas registry_defs = tool_registry_def read_registry_def write_registry_def read_spec_def
  write_spec_def read_behavior_def mutation_behavior_def with_destructive_def
  with_idempotent_def with_open_world_def

lemma registry_read_only: "list_all (\<lambda>s. read_only (spec_behavior s)) read_registry"
  by (simp add: registry_defs)

lemma registry_writes: "list_all (\<lambda>s. \<not> read_only (spec_behavior s)) write_registry"
  by (simp add: registry_defs)

lemma read_profile_permits: "read_only (spec_behavior s) \<Longrightarrow> profile_permits p s"
  by (cases p) auto

lemma read_only_tools:
  "filter (\<lambda>s. read_only (spec_behavior s)) tool_registry = read_registry"
  using registry_read_only registry_writes by (simp add: tool_registry_def list_all_iff)

lemma list_tools_read:
  "list_tools_for_profile Status = read_registry"
  "list_tools_for_profile ReadOnly = read_registry"
  unfolding list_tools_for_profile_def read_only_tools [symmetric]
  by (rule filter_cong; simp)+

lemma find_spec_SomeD:
  "find_spec a p name = Some s \<Longrightarrow>
     s \<in> set tool_registry \<and> spec_name s = name \<and> handler_permits a p s"
  by (auto simp: find_spec_def find_Some_iff)

section \<open>Properties\<close>

text \<open>
  The registry has exactly one tool of every kind, no two tools share a
  name, and a tool is read-only exactly when it is in the first part of the registry; no read
  is marked destructive or open-world.
\<close>

theorem registry_complete:
  "distinct (map spec_name tool_registry) \<and> distinct (map spec_kind tool_registry) \<and>
   set (map spec_kind tool_registry) = UNIV \<and>
   filter (\<lambda>s. read_only (spec_behavior s)) tool_registry = read_registry \<and>
   filter (\<lambda>s. read_only (spec_behavior s) \<and>
     (destructive (spec_behavior s) \<or> open_world (spec_behavior s))) tool_registry = []"
proof (intro conjI)
  show "distinct (map spec_name tool_registry)" by code_simp
  show "distinct (map spec_kind tool_registry)" by code_simp
  have "k \<in> set (map spec_kind tool_registry)" for k
    by (cases k) (simp_all add: registry_defs)
  then show "set (map spec_kind tool_registry) = UNIV" by blast
  show "filter (\<lambda>s. read_only (spec_behavior s)) tool_registry = read_registry"
    by (rule read_only_tools)
  show "filter (\<lambda>s. read_only (spec_behavior s) \<and>
     (destructive (spec_behavior s) \<or> open_world (spec_behavior s))) tool_registry = []"
    by (simp add: registry_defs)
qed

text \<open>
  C20: the profiles are nested: what a profile permits every larger one
  permits. The two read profiles permit the reads only, the operations profile adds exactly
  the eight named actions, the full profile permits everything.
\<close>

theorem profiles_nested:
  "(p \<le> q \<longrightarrow> set (list_tools_for_profile p) \<subseteq> set (list_tools_for_profile q)) \<and>
   list_tools_for_profile Status = read_registry \<and>
   list_tools_for_profile ReadOnly = read_registry \<and>
   map spec_kind (list_tools_for_profile Operations) = map spec_kind read_registry @
     [StacksDeploy, StacksRestart, StacksStop, DeploymentsDeploy, DeploymentsRestart,
      BuildsRun, BuildsCancel, ReposPull] \<and>
   list_tools_for_profile Full = tool_registry"
proof (intro conjI impI)
  assume "p \<le> q"
  then show "set (list_tools_for_profile p) \<subseteq> set (list_tools_for_profile q)"
    by (cases p; cases q) (auto simp: list_tools_for_profile_def less_eq_tool_profile_def)
next
  show "list_tools_for_profile Status = read_registry"
    "list_tools_for_profile ReadOnly = read_registry" by (rule list_tools_read)+
next
  show "map spec_kind (list_tools_for_profile Operations) = map spec_kind read_registry @
     [StacksDeploy, StacksRestart, StacksStop, DeploymentsDeploy, DeploymentsRestart,
      BuildsRun, BuildsCancel, ReposPull]"
    by (simp add: list_tools_for_profile_def registry_defs operational_kinds_def)
  show "list_tools_for_profile Full = tool_registry"
    by (simp add: list_tools_for_profile_def)
qed

theorem profiles_nested_witness:
  "set (list_tools_for_profile Status) \<subseteq> set (list_tools_for_profile Operations)"
proof -
  have "Status \<le> Operations" by (simp add: less_eq_tool_profile_def)
  with profiles_nested [of Status Operations] show ?thesis by blast
qed

text \<open>
  C19: a handler lists a tool exactly when a call of that name is
  accepted, whether or not it holds an administrative client and whatever its profile.
\<close>

theorem discovery_matches_dispatch:
  "(\<exists>s. find_spec has_admin profile name = Some s) \<longleftrightarrow>
     name \<in> set (map spec_name (available_tools has_admin profile))"
proof -
  have "handler_permits has_admin profile s \<longleftrightarrow>
      profile_permits (if \<not> has_admin then ReadOnly else profile) s" for s
    using read_profile_permits [of s profile] by (auto simp: handler_permits_def)
  then have "name \<in> set (map spec_name (available_tools has_admin profile)) \<longleftrightarrow>
      (\<exists>s \<in> set tool_registry. spec_name s = name \<and> handler_permits has_admin profile s)"
    by (auto simp: available_tools_def list_tools_for_profile_def)
  moreover have "(\<exists>s. find P xs = Some s) \<longleftrightarrow> (\<exists>s \<in> set xs. P s)" for P and xs :: "tool_spec list"
    by (induction xs) auto
  ultimately show ?thesis by (simp add: find_spec_def)
qed

end
