(* ===== verification/Mcp_Schemas.thy ===== *)
theory Mcp_Schemas
  imports Json
begin

text \<open>
  The JSON schemas of the tool catalogue (\<open>crates/komodo-mcp/src/lib.rs\<close>): array-valued \<open>type\<close>
  unions are rewritten to \<open>anyOf\<close> branches everywhere in a derived schema, and the output schema
  of a tool joins the schemas of its success and its failure. The claim of the code is that the
  rewriting keeps the accepted values; it is proved against a validator for JSON Schema. The
  schemas themselves are derived by \<open>schemars\<close>: inputs of the definitions here.
\<close>

section \<open>The rewriting\<close>

definition json_schema_types :: "string list" where
  "json_schema_types =
     [''null'', ''boolean'', ''object'', ''array'', ''number'', ''string'', ''integer'']"

definition member_keywords :: "string list" where
  "member_keywords = [''$defs'', ''definitions'', ''properties'', ''patternProperties'',
     ''dependentSchemas'', ''dependencies'']"

definition array_keywords :: "string list" where
  "array_keywords = [''allOf'', ''anyOf'', ''oneOf'', ''prefixItems'']"

definition single_keywords :: "string list" where
  "single_keywords = [''contains'', ''propertyNames'', ''not'', ''if'', ''then'', ''else'',
     ''contentSchema'', ''additionalProperties'', ''unevaluatedProperties'', ''additionalItems'',
     ''unevaluatedItems'']"

text \<open>A non-empty array of distinct type names.\<close>

fun collect_types :: "string list \<Rightarrow> json list \<Rightarrow> string list option" where
  "collect_types types [] = Some types"
| "collect_types types (x # xs) =
     (case as_str x of None \<Rightarrow> None
      | Some name \<Rightarrow>
          if name \<notin> set json_schema_types \<or> name \<in> set types then None
          else collect_types (types @ [name]) xs)"

definition portable_types :: "obj \<Rightarrow> string list option" where
  "portable_types fs =
     (case map_of fs ''type'' of
        Some (JArr xs) \<Rightarrow>
          (case collect_types [] xs of None \<Rightarrow> None | Some types \<Rightarrow> if types = [] then None else Some types)
      | _ \<Rightarrow> None)"

definition type_branch :: "string \<Rightarrow> json" where
  "type_branch name = JObj [(''type'', JStr name)]"

text \<open>
  The union of one schema object; \<open>None\<close> is the panic on an \<open>allOf\<close> that is not an array. The order
  of the keys of an object is immaterial: \<open>serde_json\<close> sorts them.
\<close>

definition split_union :: "obj \<Rightarrow> obj option" where
  "split_union fs =
     (case portable_types fs of
        None \<Rightarrow> Some fs
      | Some types \<Rightarrow>
          (let fs' = filter (\<lambda>f. fst f \<noteq> ''type'') fs;
               branches = JArr (map type_branch types) in
           if map_of fs' ''anyOf'' \<noteq> None then
             (case map_of fs' ''allOf'' of
                None \<Rightarrow> Some (jset ''allOf'' (JArr [JObj [(''anyOf'', branches)]]) fs')
              | Some (JArr xs) \<Rightarrow> Some (jset ''allOf'' (JArr (xs @ [JObj [(''anyOf'', branches)]])) fs')
              | Some _ \<Rightarrow> None)
           else Some (jset ''anyOf'' branches fs')))"

text \<open>
  A weight that decreases: strings in arrays, as in a \<open>type\<close> union, weigh more than the branches
  made of them.
\<close>

fun json_weight :: "json \<Rightarrow> nat" and fields_weight :: "obj \<Rightarrow> nat" and items_weight :: "json list \<Rightarrow> nat" where
  "json_weight (JObj fs) = Suc (fields_weight fs)"
| "json_weight (JArr xs) = Suc (items_weight xs)"
| "json_weight JNull = 1"
| "json_weight (JBool b) = 1"
| "json_weight (JInt i) = 1"
| "json_weight (JFloat x) = 1"
| "json_weight (JStr s) = 1"
| "fields_weight [] = 0"
| "fields_weight ((k, x) # fs) = Suc (json_weight x + fields_weight fs)"
| "items_weight [] = 0"
| "items_weight (x # xs) = Suc ((if as_str x = None then 0 else 20) + json_weight x + items_weight xs)"

lemma items_weight_append: "items_weight (xs @ ys) = items_weight xs + items_weight ys"
  by (induction xs) auto

lemma items_weight_ge: "x \<in> set xs \<Longrightarrow> json_weight x < items_weight xs"
  by (induction xs) auto

lemma fields_weight_ge: "(k, x) \<in> set fs \<Longrightarrow> json_weight x < fields_weight fs"
  by (induction fs) auto

lemma json_weight_pos [simp]: "0 < json_weight x"
  by (cases x) auto

lemma collect_types_weight:
  "collect_types ts xs = Some types \<Longrightarrow> 22 * length types = 22 * length ts + items_weight xs"
  by (induction ts xs rule: collect_types.induct)
    (auto simp: as_str_def split: option.splits if_splits json.splits)

lemma branches_weight: "items_weight (map type_branch types) = 4 * length types"
  by (induction types) (auto simp: type_branch_def as_str_def)

lemma fields_weight_without:
  "map_of fs k = Some x \<Longrightarrow>
    fields_weight (filter (\<lambda>f. fst f \<noteq> k) fs) + Suc (json_weight x) \<le> fields_weight fs"
proof (induction fs)
  case (Cons f fs)
  have "fields_weight (filter (\<lambda>f. fst f \<noteq> k) fs) \<le> fields_weight fs"
    by (induction fs) auto
  with Cons show ?case by (cases f) auto
qed simp

lemma fields_weight_jset:
  "fields_weight (jset k x fs) + (case map_of fs k of None \<Rightarrow> 0 | Some y \<Rightarrow> Suc (json_weight y)) =
    fields_weight fs + Suc (json_weight x)"
  by (induction k x fs rule: jset.induct) auto

lemma portable_types_Some:
  assumes "portable_types fs = Some types"
  obtains xs where "map_of fs ''type'' = Some (JArr xs)" "collect_types [] xs = Some types" "types \<noteq> []"
  using assms by (auto simp: portable_types_def split: option.splits json.splits if_splits)

abbreviation untyped :: "obj \<Rightarrow> obj" where
  "untyped fs \<equiv> filter (\<lambda>f. fst f \<noteq> ''type'') fs"

abbreviation any_of :: "string list \<Rightarrow> json" where
  "any_of types \<equiv> JArr (map type_branch types)"

lemma split_union_cases:
  assumes "split_union fs = Some fs'"
  obtains (same) "fs' = fs" "portable_types fs = None"
  | (any) types where "portable_types fs = Some types" "map_of (untyped fs) ''anyOf'' = None"
      "fs' = jset ''anyOf'' (any_of types) (untyped fs)"
  | (all) types where "portable_types fs = Some types" "map_of (untyped fs) ''anyOf'' \<noteq> None"
      "map_of (untyped fs) ''allOf'' = None"
      "fs' = jset ''allOf'' (JArr [JObj [(''anyOf'', any_of types)]]) (untyped fs)"
  | (push) types xs where "portable_types fs = Some types" "map_of (untyped fs) ''anyOf'' \<noteq> None"
      "map_of (untyped fs) ''allOf'' = Some (JArr xs)"
      "fs' = jset ''allOf'' (JArr (xs @ [JObj [(''anyOf'', any_of types)]])) (untyped fs)"
proof (cases "portable_types fs")
  case None
  with assms same show thesis by (simp add: split_union_def)
next
  case (Some types)
  show thesis
  proof (cases "map_of (untyped fs) ''anyOf''")
    case None
    with assms Some any show thesis by (simp add: split_union_def Let_def)
  next
    case any': (Some y)
    show thesis
    proof (cases "map_of (untyped fs) ''allOf''")
      case None
      with assms Some any' all show thesis by (simp add: split_union_def Let_def)
    next
      case (Some z)
      with assms \<open>portable_types fs = Some types\<close> any' obtain xs where "z = JArr xs"
        by (auto simp: split_union_def Let_def split: json.splits)
      with assms \<open>portable_types fs = Some types\<close> any' Some push show thesis
        by (simp add: split_union_def Let_def)
    qed
  qed
qed

lemma portable_types_weight:
  assumes "portable_types fs = Some types"
  shows "fields_weight (untyped fs) + 2 + 22 * length types \<le> fields_weight fs" "1 \<le> length types"
proof -
  from assms obtain xs where xs: "map_of fs ''type'' = Some (JArr xs)" "collect_types [] xs = Some types" "types \<noteq> []"
    by (rule portable_types_Some)
  show "1 \<le> length types" using xs(3) by (cases types) auto
  show "fields_weight (untyped fs) + 2 + 22 * length types \<le> fields_weight fs"
    using fields_weight_without [OF xs(1)] collect_types_weight [OF xs(2)] by simp
qed

lemma split_union_weight:
  assumes "split_union fs = Some fs'"
  shows "fields_weight fs' \<le> fields_weight fs"
  using assms
proof (cases rule: split_union_cases)
  case (any types)
  with portable_types_weight [OF any(1)] fields_weight_jset [of "''anyOf''" "any_of types" "untyped fs"]
  show ?thesis by (simp add: branches_weight)
next
  case (all types)
  with portable_types_weight [OF all(1)]
    fields_weight_jset [of "''allOf''" "JArr [JObj [(''anyOf'', any_of types)]]" "untyped fs"]
  show ?thesis by (simp add: branches_weight as_str_def)
next
  case (push types xs)
  with portable_types_weight [OF push(1)]
    fields_weight_jset [of "''allOf''" "JArr (xs @ [JObj [(''anyOf'', any_of types)]])" "untyped fs"]
  show ?thesis by (simp add: branches_weight items_weight_append as_str_def)
qed simp

function (sequential)
  normalize_schema :: "json \<Rightarrow> json option" and
  normalize_keyword :: "string \<Rightarrow> json \<Rightarrow> json option" and
  normalize_keywords :: "obj \<Rightarrow> obj option" and
  normalize_members :: "obj \<Rightarrow> obj option" and
  normalize_all :: "json list \<Rightarrow> json list option" where
  "normalize_schema (JObj fs) =
     (case split_union fs of None \<Rightarrow> None | Some fs' \<Rightarrow> map_option JObj (normalize_keywords fs'))"
| "normalize_schema j = Some j"
| "normalize_keyword k x =
     (if k \<in> set member_keywords then
        (case x of JObj fs \<Rightarrow> map_option JObj (normalize_members fs) | _ \<Rightarrow> Some x)
      else if k \<in> set array_keywords then
        (case x of JArr xs \<Rightarrow> map_option JArr (normalize_all xs) | _ \<Rightarrow> Some x)
      else if k = ''items'' then
        (case x of JArr xs \<Rightarrow> map_option JArr (normalize_all xs) | _ \<Rightarrow> normalize_schema x)
      else if k \<in> set single_keywords then
        (case x of JObj fs \<Rightarrow> normalize_schema x | _ \<Rightarrow> Some x)
      else Some x)"
| "normalize_keywords [] = Some []"
| "normalize_keywords ((k, x) # fs) =
     (case normalize_keyword k x of None \<Rightarrow> None
      | Some x' \<Rightarrow> map_option ((#) (k, x')) (normalize_keywords fs))"
| "normalize_members [] = Some []"
| "normalize_members ((k, x) # fs) =
     (case normalize_schema x of None \<Rightarrow> None
      | Some x' \<Rightarrow> map_option ((#) (k, x')) (normalize_members fs))"
| "normalize_all [] = Some []"
| "normalize_all (x # xs) =
     (case normalize_schema x of None \<Rightarrow> None
      | Some x' \<Rightarrow> map_option ((#) x') (normalize_all xs))"
  by pat_completeness auto

termination
  by (relation "measure (\<lambda>c. case c of
       Inl (Inl j) \<Rightarrow> 2 * json_weight j
     | Inl (Inr (k, x)) \<Rightarrow> 2 * json_weight x + 1
     | Inr (Inl fs) \<Rightarrow> 2 * fields_weight fs
     | Inr (Inr (Inl fs)) \<Rightarrow> 2 * fields_weight fs
     | Inr (Inr (Inr xs)) \<Rightarrow> 2 * items_weight xs)")
    (auto dest: split_union_weight)

section \<open>A validator\<close>

text \<open>
  JSON Schema as the specification has it, for the keywords that hold subschemas and for \<open>type\<close>.
  The parameters are the regular expressions of \<open>patternProperties\<close>, which floating-point numbers
  are integers, and the keywords without subschemas. A reference looks its schema up in \<open>defs\<close>; at
  most \<open>n\<close> references are followed one inside another. \<open>unevaluatedProperties\<close> and
  \<open>unevaluatedItems\<close> depend on the annotations of other keywords and are not interpreted.
\<close>

record schema_env =
  sc_matches :: "string \<Rightarrow> string \<Rightarrow> bool"
  sc_integral :: "f64 \<Rightarrow> bool"
  sc_other :: "string \<Rightarrow> json \<Rightarrow> json \<Rightarrow> bool"

definition value_has_type :: "schema_env \<Rightarrow> json \<Rightarrow> string \<Rightarrow> bool" where
  "value_has_type sx v name = (case v of
       JNull \<Rightarrow> name = ''null''
     | JBool _ \<Rightarrow> name = ''boolean''
     | JInt _ \<Rightarrow> name = ''integer'' \<or> name = ''number''
     | JFloat x \<Rightarrow> name = ''number'' \<or> name = ''integer'' \<and> sc_integral sx x
     | JStr _ \<Rightarrow> name = ''string''
     | JArr _ \<Rightarrow> name = ''array''
     | JObj _ \<Rightarrow> name = ''object'')"

definition type_holds :: "schema_env \<Rightarrow> json \<Rightarrow> json \<Rightarrow> bool" where
  "type_holds sx x v = (case x of
       JStr name \<Rightarrow> value_has_type sx v name
     | JArr ns \<Rightarrow> list_ex (\<lambda>n. case as_str n of None \<Rightarrow> False | Some name \<Rightarrow> value_has_type sx v name) ns
     | _ \<Rightarrow> True)"

definition members_of :: "json \<Rightarrow> obj" where
  "members_of x = (case x of JObj fs \<Rightarrow> fs | _ \<Rightarrow> [])"

definition elements_of :: "json \<Rightarrow> json list" where
  "elements_of x = (case x of JArr xs \<Rightarrow> xs | _ \<Rightarrow> [])"

definition keyword_members :: "string \<Rightarrow> obj \<Rightarrow> obj" where
  "keyword_members k fs = (case map_of fs k of None \<Rightarrow> [] | Some x \<Rightarrow> members_of x)"

definition keyword_length :: "string \<Rightarrow> obj \<Rightarrow> nat" where
  "keyword_length k fs = (case map_of fs k of None \<Rightarrow> 0 | Some x \<Rightarrow> length (elements_of x))"

text \<open>The properties \<open>additionalProperties\<close> does not apply to, and the items \<open>additionalItems\<close> does.\<close>

definition named_property :: "schema_env \<Rightarrow> obj \<Rightarrow> string \<Rightarrow> bool" where
  "named_property sx fs p \<longleftrightarrow> p \<in> fst ` set (keyword_members ''properties'' fs) \<or>
     list_ex (\<lambda>pat. sc_matches sx pat p) (map fst (keyword_members ''patternProperties'' fs))"

definition is_array :: "json \<Rightarrow> bool" where
  "is_array x \<longleftrightarrow> (case x of JArr _ \<Rightarrow> True | _ \<Rightarrow> False)"

definition names_present :: "json \<Rightarrow> json \<Rightarrow> bool" where
  "names_present x v \<longleftrightarrow> list_all (\<lambda>m. case as_str m of None \<Rightarrow> True
     | Some name \<Rightarrow> map_of (members_of v) name \<noteq> None) (elements_of x)"

definition positional_items :: "obj \<Rightarrow> bool" where
  "positional_items fs \<longleftrightarrow> (case map_of fs ''items'' of None \<Rightarrow> False | Some x \<Rightarrow> is_array x)"

lemma fields_weight_snd: "f \<in> set fs \<Longrightarrow> json_weight (snd f) < fields_weight fs"
  using fields_weight_ge [of "fst f" "snd f"] by simp

lemma members_of_weight: "f \<in> set (members_of y) \<Longrightarrow> json_weight (snd f) < json_weight y"
  by (cases y) (auto simp: members_of_def dest: fields_weight_snd)

lemma elements_of_weight: "x \<in> set (elements_of y) \<Longrightarrow> json_weight x < json_weight y"
  by (cases y) (auto simp: elements_of_def dest: items_weight_ge)

lemma zip_elements_weight: "p \<in> set (zip (elements_of y) ys) \<Longrightarrow> json_weight (fst p) < json_weight y"
  by (cases p) (auto dest: set_zip_leftD elements_of_weight)

lemma map_of_weight: "map_of fs k = Some x \<Longrightarrow> json_weight x < fields_weight fs"
  by (rule fields_weight_ge [OF map_of_SomeD])

lemma schema_call_weights:
  "f \<in> set fs \<Longrightarrow> Suc (2 * json_weight (snd f)) < Suc (Suc (2 * fields_weight fs))"
  "map_of fs k = Some x \<Longrightarrow> 2 * json_weight x < Suc (Suc (2 * fields_weight fs))"
  "f \<in> set (members_of y) \<Longrightarrow> 2 * json_weight (snd f) < Suc (2 * json_weight y)"
  "x \<in> set (elements_of y) \<Longrightarrow> 2 * json_weight x < Suc (2 * json_weight y)"
  "p \<in> set (zip (elements_of y) ys) \<Longrightarrow> (case p of (s, v) \<Rightarrow> 2 * json_weight s) < Suc (2 * json_weight y)"
  "f \<in> set fs \<Longrightarrow> 2 * json_weight (snd f) < Suc (2 * fields_weight fs)"
  using fields_weight_snd [of f fs] map_of_weight [of fs k x] members_of_weight [of f y]
    elements_of_weight [of x y] zip_elements_weight [of p y ys]
  by (cases p; simp)+

function (sequential)
  accepts :: "schema_env \<Rightarrow> nat \<Rightarrow> obj \<Rightarrow> json \<Rightarrow> json \<Rightarrow> bool" and
  keyword_holds :: "schema_env \<Rightarrow> nat \<Rightarrow> obj \<Rightarrow> obj \<Rightarrow> string \<Rightarrow> json \<Rightarrow> json \<Rightarrow> bool" where
  "accepts sx n defs (JBool b) v = b"
| "accepts sx n defs (JObj fs) v =
     (list_all (\<lambda>f. if map_of fs (fst f) = Some (snd f)
        then keyword_holds sx n defs fs (fst f) (snd f) v else True) fs \<and>
      (case map_of fs ''if'' of None \<Rightarrow> True
       | Some c \<Rightarrow>
           (case map_of fs (if accepts sx n defs c v then ''then'' else ''else'') of
              None \<Rightarrow> True | Some t \<Rightarrow> accepts sx n defs t v)))"
| "accepts sx n defs s v = True"
| "keyword_holds sx n defs fs k x v =
     (if k = ''type'' then type_holds sx x v
      else if k = ''allOf'' then list_all (\<lambda>s. accepts sx n defs s v) (elements_of x)
      else if k = ''anyOf'' then list_ex (\<lambda>s. accepts sx n defs s v) (elements_of x)
      else if k = ''oneOf'' then length (filter (\<lambda>s. accepts sx n defs s v) (elements_of x)) = 1
      else if k = ''not'' then \<not> accepts sx n defs x v
      else if k = ''properties'' then
        list_all (\<lambda>p. case map_of (members_of v) (fst p) of None \<Rightarrow> True
          | Some y \<Rightarrow> accepts sx n defs (snd p) y) (members_of x)
      else if k = ''patternProperties'' then
        list_all (\<lambda>p. list_all (\<lambda>f. sc_matches sx (fst p) (fst f) \<longrightarrow> accepts sx n defs (snd p) (snd f))
          (members_of v)) (members_of x)
      else if k = ''additionalProperties'' then
        list_all (\<lambda>f. named_property sx fs (fst f) \<or> accepts sx n defs x (snd f)) (members_of v)
      else if k = ''propertyNames'' then
        list_all (\<lambda>f. accepts sx n defs x (JStr (fst f))) (members_of v)
      else if k = ''dependentSchemas'' \<or> k = ''dependencies'' then
        list_all (\<lambda>p. map_of (members_of v) (fst p) \<noteq> None \<longrightarrow>
          (if is_array (snd p) then names_present (snd p) v else accepts sx n defs (snd p) v))
          (members_of x)
      else if k = ''prefixItems'' then
        list_all (\<lambda>p. accepts sx n defs (fst p) (snd p)) (zip (elements_of x) (elements_of v))
      else if k = ''items'' then
        (if is_array x
         then list_all (\<lambda>p. accepts sx n defs (fst p) (snd p)) (zip (elements_of x) (elements_of v))
         else list_all (\<lambda>y. accepts sx n defs x y)
           (drop (keyword_length ''prefixItems'' fs) (elements_of v)))
      else if k = ''additionalItems'' then
        (if positional_items fs then list_all (\<lambda>y. accepts sx n defs x y)
           (drop (keyword_length ''items'' fs) (elements_of v)) else True)
      else if k = ''contains'' then
        (case v of JArr ys \<Rightarrow> list_ex (\<lambda>y. accepts sx n defs x y) ys | _ \<Rightarrow> True)
      else if k = ''$ref'' then
        (case n of 0 \<Rightarrow> True
         | Suc m \<Rightarrow> (case as_str x of None \<Rightarrow> True
             | Some r \<Rightarrow> (case map_of defs r of None \<Rightarrow> True | Some s \<Rightarrow> accepts sx m defs s v)))
      else if k \<in> {''if'', ''then'', ''else'', ''$defs'', ''definitions'', ''contentSchema'',
        ''unevaluatedProperties'', ''unevaluatedItems''} then True
      else sc_other sx k x v)"
  by pat_completeness auto

termination
  by (relation "measures [\<lambda>c. case c of Inl (sx, n, defs, s, v) \<Rightarrow> n | Inr (sx, n, defs, fs, k, x, v) \<Rightarrow> n,
      \<lambda>c. case c of Inl (sx, n, defs, s, v) \<Rightarrow> 2 * json_weight s
        | Inr (sx, n, defs, fs, k, x, v) \<Rightarrow> 2 * json_weight x + 1]")
    (simp_all add: schema_call_weights)

declare accepts.simps [simp del] keyword_holds.simps [simp del]

text \<open>The validator, keyword by keyword.\<close>

lemma keyword_equations:
  "keyword_holds sx n defs fs ''type'' x v = type_holds sx x v"
  "keyword_holds sx n defs fs ''allOf'' x v = list_all (\<lambda>s. accepts sx n defs s v) (elements_of x)"
  "keyword_holds sx n defs fs ''anyOf'' x v = list_ex (\<lambda>s. accepts sx n defs s v) (elements_of x)"
  "keyword_holds sx n defs fs ''oneOf'' x v =
     (length (filter (\<lambda>s. accepts sx n defs s v) (elements_of x)) = 1)"
  "keyword_holds sx n defs fs ''not'' x v = (\<not> accepts sx n defs x v)"
  "keyword_holds sx n defs fs ''properties'' x v =
     list_all (\<lambda>p. case map_of (members_of v) (fst p) of None \<Rightarrow> True
       | Some y \<Rightarrow> accepts sx n defs (snd p) y) (members_of x)"
  "keyword_holds sx n defs fs ''patternProperties'' x v =
     list_all (\<lambda>p. list_all (\<lambda>f. sc_matches sx (fst p) (fst f) \<longrightarrow> accepts sx n defs (snd p) (snd f))
       (members_of v)) (members_of x)"
  "keyword_holds sx n defs fs ''additionalProperties'' x v =
     list_all (\<lambda>f. named_property sx fs (fst f) \<or> accepts sx n defs x (snd f)) (members_of v)"
  "keyword_holds sx n defs fs ''propertyNames'' x v =
     list_all (\<lambda>f. accepts sx n defs x (JStr (fst f))) (members_of v)"
  "keyword_holds sx n defs fs ''dependentSchemas'' x v =
     list_all (\<lambda>p. map_of (members_of v) (fst p) \<noteq> None \<longrightarrow>
       (if is_array (snd p) then names_present (snd p) v else accepts sx n defs (snd p) v)) (members_of x)"
  "keyword_holds sx n defs fs ''dependencies'' x v =
     list_all (\<lambda>p. map_of (members_of v) (fst p) \<noteq> None \<longrightarrow>
       (if is_array (snd p) then names_present (snd p) v else accepts sx n defs (snd p) v)) (members_of x)"
  "keyword_holds sx n defs fs ''prefixItems'' x v =
     list_all (\<lambda>p. accepts sx n defs (fst p) (snd p)) (zip (elements_of x) (elements_of v))"
  "keyword_holds sx n defs fs ''items'' x v =
     (if is_array x
      then list_all (\<lambda>p. accepts sx n defs (fst p) (snd p)) (zip (elements_of x) (elements_of v))
      else list_all (\<lambda>y. accepts sx n defs x y) (drop (keyword_length ''prefixItems'' fs) (elements_of v)))"
  "keyword_holds sx n defs fs ''additionalItems'' x v =
     (if positional_items fs then list_all (\<lambda>y. accepts sx n defs x y)
        (drop (keyword_length ''items'' fs) (elements_of v)) else True)"
  "keyword_holds sx n defs fs ''contains'' x v =
     (case v of JArr ys \<Rightarrow> list_ex (\<lambda>y. accepts sx n defs x y) ys | _ \<Rightarrow> True)"
  "keyword_holds sx n defs fs ''$ref'' x v =
     (case n of 0 \<Rightarrow> True
      | Suc m \<Rightarrow> (case as_str x of None \<Rightarrow> True
          | Some r \<Rightarrow> (case map_of defs r of None \<Rightarrow> True | Some s \<Rightarrow> accepts sx m defs s v)))"
  "keyword_holds sx n defs fs ''if'' x v"
  "keyword_holds sx n defs fs ''then'' x v"
  "keyword_holds sx n defs fs ''else'' x v"
  "keyword_holds sx n defs fs ''$defs'' x v"
  "keyword_holds sx n defs fs ''definitions'' x v"
  "keyword_holds sx n defs fs ''contentSchema'' x v"
  "keyword_holds sx n defs fs ''unevaluatedProperties'' x v"
  "keyword_holds sx n defs fs ''unevaluatedItems'' x v"
  by (subst keyword_holds.simps, simp)+

lemma keyword_uninterpreted:
  assumes "k \<notin> set member_keywords" "k \<notin> set array_keywords" "k \<noteq> ''items''" "k \<notin> set single_keywords"
    "k \<noteq> ''$ref''"
  shows "keyword_holds sx n defs' fs k x v = keyword_holds sx n defs fs k x v"
  using assms by (simp add: keyword_holds.simps member_keywords_def array_keywords_def single_keywords_def)

section \<open>Objects, keyword by keyword\<close>

definition conditional_holds :: "schema_env \<Rightarrow> nat \<Rightarrow> obj \<Rightarrow> obj \<Rightarrow> json \<Rightarrow> bool" where
  "conditional_holds sx n defs fs v \<longleftrightarrow>
     (case map_of fs ''if'' of None \<Rightarrow> True
      | Some c \<Rightarrow>
          (case map_of fs (if accepts sx n defs c v then ''then'' else ''else'') of
             None \<Rightarrow> True | Some t \<Rightarrow> accepts sx n defs t v))"

lemma accepts_object:
  "accepts sx n defs (JObj fs) v \<longleftrightarrow>
     (\<forall>k x. map_of fs k = Some x \<longrightarrow> keyword_holds sx n defs fs k x v) \<and>
     conditional_holds sx n defs fs v"
proof -
  have "list_all (\<lambda>f. if map_of fs (fst f) = Some (snd f)
      then keyword_holds sx n defs fs (fst f) (snd f) v else True) fs \<longleftrightarrow>
    (\<forall>k x. map_of fs k = Some x \<longrightarrow> keyword_holds sx n defs fs k x v)"
  proof
    assume all: "list_all (\<lambda>f. if map_of fs (fst f) = Some (snd f)
      then keyword_holds sx n defs fs (fst f) (snd f) v else True) fs"
    show "\<forall>k x. map_of fs k = Some x \<longrightarrow> keyword_holds sx n defs fs k x v"
    proof (intro allI impI)
      fix k x
      assume k: "map_of fs k = Some x"
      then have "(k, x) \<in> set fs" by (rule map_of_SomeD)
      with all k show "keyword_holds sx n defs fs k x v" by (auto simp: list_all_iff)
    qed
  qed (simp add: list_all_iff)
  then show ?thesis by (simp add: accepts.simps conditional_holds_def)
qed

lemma accepts_other: "\<forall>fs. s \<noteq> JObj fs \<Longrightarrow> accepts sx n defs' s v = accepts sx n defs s v"
  by (cases s) (auto simp: accepts.simps)

text \<open>What a keyword looks at beside its own value.\<close>

definition same_context :: "obj \<Rightarrow> obj \<Rightarrow> bool" where
  "same_context fs fs' \<longleftrightarrow>
     (\<forall>k \<in> {''properties'', ''patternProperties''}.
        map fst (keyword_members k fs') = map fst (keyword_members k fs)) \<and>
     (\<forall>k \<in> {''prefixItems'', ''items''}. keyword_length k fs' = keyword_length k fs) \<and>
     positional_items fs' = positional_items fs"

lemma keyword_holds_context:
  assumes "same_context fs fs'"
  shows "keyword_holds sx n defs fs' k x v = keyword_holds sx n defs fs k x v"
proof -
  have "set (map fst (keyword_members ''properties'' fs')) = set (map fst (keyword_members ''properties'' fs))"
    using assms by (simp add: same_context_def)
  then have "named_property sx fs' = named_property sx fs"
    using assms by (auto simp: named_property_def same_context_def fun_eq_iff)
  with assms show ?thesis by (simp add: keyword_holds.simps same_context_def)
qed

lemma same_context_map_of:
  "(\<And>k. k \<in> {''properties'', ''patternProperties'', ''prefixItems'', ''items''} \<Longrightarrow> map_of fs' k = map_of fs k) \<Longrightarrow>
    same_context fs fs'"
  by (simp add: same_context_def keyword_members_def keyword_length_def positional_items_def)

section \<open>Unions\<close>

lemma collect_types_names: "collect_types ts xs = Some types \<Longrightarrow> types = ts @ map (\<lambda>x. the (as_str x)) xs \<and>
    list_all (\<lambda>x. as_str x \<noteq> None) xs"
  by (induction ts xs rule: collect_types.induct) (auto split: option.splits if_splits)

lemma accepts_branch: "accepts sx n defs (type_branch name) v = value_has_type sx v name"
  by (simp add: type_branch_def accepts_object conditional_holds_def keyword_equations type_holds_def)

lemma any_of_holds:
  assumes "portable_types fs = Some types"
  shows "\<exists>x. map_of fs ''type'' = Some x \<and>
    type_holds sx x v = list_ex (\<lambda>s. accepts sx n defs s v) (map type_branch types)"
proof -
  obtain xs where xs: "map_of fs ''type'' = Some (JArr xs)" "collect_types [] xs = Some types"
    using assms by (rule portable_types_Some)
  from collect_types_names [OF xs(2)] have "types = map (\<lambda>x. the (as_str x)) xs"
    "list_all (\<lambda>x. as_str x \<noteq> None) xs" by simp_all
  then have "type_holds sx (JArr xs) v = list_ex (value_has_type sx v) types"
    unfolding type_holds_def json.case by (induction xs arbitrary: types) auto
  with xs(1) show ?thesis by (auto simp: accepts_branch list_ex_iff)
qed

lemma accepts_any_of:
  "accepts sx n defs (JObj [(''anyOf'', JArr ss)]) v = list_ex (\<lambda>s. accepts sx n defs s v) ss"
  by (simp add: accepts_object conditional_holds_def keyword_equations elements_of_def)

lemma map_of_untyped: "map_of (untyped fs) k = (if k = ''type'' then None else map_of fs k)"
  by (induction fs) auto

text \<open>Replacing the union by a keyword that holds for its branches.\<close>

lemma union_swap:
  assumes types: "portable_types fs = Some types" and new: "k0 = ''anyOf'' \<or> k0 = ''allOf''"
    and fs': "\<And>k. map_of fs' k = (if k = k0 then Some x0 else if k = ''type'' then None else map_of fs k)"
    and x0: "keyword_holds sx n defs fs k0 x0 v \<longleftrightarrow>
      (\<forall>x. map_of fs k0 = Some x \<longrightarrow> keyword_holds sx n defs fs k0 x v) \<and>
      list_ex (\<lambda>s. accepts sx n defs s v) (map type_branch types)"
  shows "accepts sx n defs (JObj fs') v = accepts sx n defs (JObj fs) v"
proof -
  obtain t where t: "map_of fs ''type'' = Some t"
    "keyword_holds sx n defs fs ''type'' t v = list_ex (\<lambda>s. accepts sx n defs s v) (map type_branch types)"
    using any_of_holds [OF types, of sx v n defs] by (auto simp: keyword_equations)
  have "same_context fs fs'" by (rule same_context_map_of) (use new fs' in auto)
  note ctx = keyword_holds_context [OF this]
  have "conditional_holds sx n defs fs' v = conditional_holds sx n defs fs v"
  proof -
    have keys: "map_of fs' ''if'' = map_of fs ''if''" "map_of fs' ''then'' = map_of fs ''then''"
      "map_of fs' ''else'' = map_of fs ''else''"
      using new by (auto simp: fs')
    show ?thesis by (cases "map_of fs ''if''") (simp_all add: conditional_holds_def keys)
  qed
  moreover have "(\<forall>k x. map_of fs' k = Some x \<longrightarrow> keyword_holds sx n defs fs k x v) \<longleftrightarrow>
      (\<forall>k x. map_of fs k = Some x \<longrightarrow> keyword_holds sx n defs fs k x v)" (is "?l = ?r")
  proof
    assume ?l
    show ?r
    proof (intro allI impI)
      fix k x
      assume k: "map_of fs k = Some x"
      have x0': "keyword_holds sx n defs fs k0 x0 v" using \<open>?l\<close> fs' [of k0] by simp
      show "keyword_holds sx n defs fs k x v"
      proof (cases "k = k0 \<or> k = ''type''")
        case True
        with k t x0 x0' show ?thesis by auto
      next
        case False
        with k fs' [of k] \<open>?l\<close> show ?thesis by simp
      qed
    qed
  next
    assume ?r
    then have "keyword_holds sx n defs fs k0 x0 v" using x0 t by simp
    with \<open>?r\<close> show ?l by (simp add: fs')
  qed
  ultimately show ?thesis by (simp add: accepts_object ctx)
qed

text \<open>Rewriting the union of an object keeps the values it accepts.\<close>

lemma split_union_accepts:
  assumes "split_union fs = Some fs'"
  shows "accepts sx n defs (JObj fs') v = accepts sx n defs (JObj fs) v"
  using assms
proof (cases rule: split_union_cases)
  case same
  then show ?thesis by simp
next
  case (any types)
  from any(2) have "map_of fs ''anyOf'' = None" by (simp add: map_of_untyped)
  with any(1,3) show ?thesis
    by (intro union_swap [of _ types "''anyOf''" _ "any_of types"])
      (auto simp: map_of_jset map_of_untyped keyword_equations elements_of_def)
next
  case (all types)
  from all(3) have "map_of fs ''allOf'' = None" by (simp add: map_of_untyped)
  with all(1,4) show ?thesis
    by (intro union_swap [of _ types "''allOf''" _ "JArr [JObj [(''anyOf'', any_of types)]]"])
      (auto simp: map_of_jset map_of_untyped keyword_equations elements_of_def accepts_any_of)
next
  case (push types xs)
  from push(3) have "map_of fs ''allOf'' = Some (JArr xs)" by (simp add: map_of_untyped)
  with push(1,4) show ?thesis
    by (intro union_swap [of _ types "''allOf''" _ "JArr (xs @ [JObj [(''anyOf'', any_of types)]])"])
      (auto simp: map_of_jset map_of_untyped keyword_equations elements_of_def accepts_any_of)
qed

section \<open>Subschemas\<close>

text \<open>
  A schema and its rewritten form, under definitions and their rewritten form: the same values,
  and arrays (which are not schemas, but occur in their place) unchanged.
\<close>

definition schema_eqv :: "schema_env \<Rightarrow> nat \<Rightarrow> obj \<Rightarrow> obj \<Rightarrow> json \<Rightarrow> json \<Rightarrow> bool" where
  "schema_eqv sx n defs defs' s s' \<longleftrightarrow> is_array s' = is_array s \<and> (is_array s \<longrightarrow> s' = s) \<and>
     (\<forall>v. accepts sx n defs' s' v = accepts sx n defs s v)"

definition member_eqv ::
  "schema_env \<Rightarrow> nat \<Rightarrow> obj \<Rightarrow> obj \<Rightarrow> string \<times> json \<Rightarrow> string \<times> json \<Rightarrow> bool" where
  "member_eqv sx n defs defs' p p' \<longleftrightarrow> fst p' = fst p \<and> schema_eqv sx n defs defs' (snd p) (snd p')"

definition keyword_eqv :: "schema_env \<Rightarrow> nat \<Rightarrow> obj \<Rightarrow> obj \<Rightarrow> string \<Rightarrow> json \<Rightarrow> json \<Rightarrow> bool" where
  "keyword_eqv sx n defs defs' k x x' \<longleftrightarrow>
     (k \<in> {''properties'', ''patternProperties''} \<longrightarrow> map fst (members_of x') = map fst (members_of x)) \<and>
     (k \<in> {''prefixItems'', ''items''} \<longrightarrow> length (elements_of x') = length (elements_of x)) \<and>
     (k = ''items'' \<longrightarrow> is_array x' = is_array x) \<and>
     (k \<in> {''if'', ''then'', ''else''} \<longrightarrow> schema_eqv sx n defs defs' x x') \<and>
     (\<forall>fs v. keyword_holds sx n defs' fs k x' v = keyword_holds sx n defs fs k x v)"

lemma schema_eqv_other: "\<forall>fs. s \<noteq> JObj fs \<Longrightarrow> schema_eqv sx n defs defs' s s"
  by (simp add: schema_eqv_def accepts_other)

lemma schema_eqvD: "schema_eqv sx n defs defs' s s' \<Longrightarrow> accepts sx n defs' s' v = accepts sx n defs s v"
  by (simp add: schema_eqv_def)

lemma list_all2_filter_length:
  "list_all2 (\<lambda>x y. P x = Q y) xs ys \<Longrightarrow> length (filter P xs) = length (filter Q ys)"
  by (induction rule: list_all2_induct) auto

lemma list_all2_all: "list_all2 (\<lambda>x y. P x = Q y) xs ys \<Longrightarrow> list_all P xs = list_all Q ys"
  by (induction rule: list_all2_induct) auto

lemma list_all2_ex: "list_all2 (\<lambda>x y. P x = Q y) xs ys \<Longrightarrow> list_ex P xs = list_ex Q ys"
  by (induction rule: list_all2_induct) auto

lemma list_all2_zip_all:
  "list_all2 (\<lambda>x y. \<forall>v. P x v = Q y v) xs ys \<Longrightarrow>
    list_all (\<lambda>p. P (fst p) (snd p)) (zip xs vs) = list_all (\<lambda>p. Q (fst p) (snd p)) (zip ys vs)"
proof (induction arbitrary: vs rule: list_all2_induct)
  case (Cons x xs y ys)
  then show ?case by (cases vs) auto
qed simp

lemma array_keyword_eqv:
  assumes "list_all2 (schema_eqv sx n defs defs') xs xs'" "k \<in> set array_keywords \<or> k = ''items''"
  shows "keyword_eqv sx n defs defs' k (JArr xs) (JArr xs')"
proof -
  have eq: "list_all2 (\<lambda>s s'. \<forall>v. accepts sx n defs s v = accepts sx n defs' s' v) xs xs'"
    using assms(1) by (rule list_all2_mono) (simp add: schema_eqv_def)
  then have eq': "list_all2 (\<lambda>s s'. accepts sx n defs s v = accepts sx n defs' s' v) xs xs'" for v
    by (rule list_all2_mono) simp
  note all = list_all2_all [OF eq'] list_all2_ex [OF eq'] list_all2_filter_length [OF eq']
    list_all2_zip_all [OF eq]
  have "keyword_holds sx n defs' fs k (JArr xs') v = keyword_holds sx n defs fs k (JArr xs) v" for fs v
    using assms(2) by (auto simp: array_keywords_def keyword_equations elements_of_def is_array_def all)
  moreover have "length xs' = length xs" using list_all2_lengthD [OF assms(1)] by simp
  ultimately show ?thesis
    using assms(2) by (auto simp: keyword_eqv_def elements_of_def is_array_def array_keywords_def)
qed

lemma member_keyword_eqv:
  assumes "list_all2 (member_eqv sx n defs defs') ps ps'" "k \<in> set member_keywords"
  shows "keyword_eqv sx n defs defs' k (JObj ps) (JObj ps')"
proof -
  have names: "map fst ps' = map fst ps"
    using assms(1) by (induction rule: list_all2_induct) (auto simp: member_eqv_def)
  have props: "list_all2 (\<lambda>p p'.
      (case map_of (members_of v) (fst p) of None \<Rightarrow> True | Some y \<Rightarrow> accepts sx n defs (snd p) y) =
      (case map_of (members_of v) (fst p') of None \<Rightarrow> True | Some y \<Rightarrow> accepts sx n defs' (snd p') y)) ps ps'" for v
    using assms(1) by (rule list_all2_mono) (auto simp: member_eqv_def schema_eqv_def split: option.splits)
  have pats: "list_all2 (\<lambda>p p'.
      list_all (\<lambda>f. sc_matches sx (fst p) (fst f) \<longrightarrow> accepts sx n defs (snd p) (snd f)) vs =
      list_all (\<lambda>f. sc_matches sx (fst p') (fst f) \<longrightarrow> accepts sx n defs' (snd p') (snd f)) vs) ps ps'" for vs
    using assms(1) by (rule list_all2_mono) (simp add: member_eqv_def schema_eqv_def)
  have deps: "list_all2 (\<lambda>p p'.
      (map_of (members_of v) (fst p) \<noteq> None \<longrightarrow>
        (if is_array (snd p) then names_present (snd p) v else accepts sx n defs (snd p) v)) =
      (map_of (members_of v) (fst p') \<noteq> None \<longrightarrow>
        (if is_array (snd p') then names_present (snd p') v else accepts sx n defs' (snd p') v))) ps ps'" for v
    using assms(1) by (rule list_all2_mono) (auto simp: member_eqv_def schema_eqv_def)
  have "keyword_holds sx n defs' fs k (JObj ps') v = keyword_holds sx n defs fs k (JObj ps) v" for fs v
    using assms(2) list_all2_all [OF props, of v] list_all2_all [OF pats, of "members_of v"]
      list_all2_all [OF deps, of v]
    by (auto simp: member_keywords_def keyword_equations members_of_def)
  with names assms(2) show ?thesis by (auto simp: keyword_eqv_def members_of_def member_keywords_def)
qed

lemma single_keyword_eqv:
  assumes "schema_eqv sx n defs defs' x x'" "k \<in> set single_keywords \<or> k = ''items'' \<and> \<not> is_array x"
  shows "keyword_eqv sx n defs defs' k x x'"
proof -
  have acc: "accepts sx n defs' x' = accepts sx n defs x" and arr: "is_array x' = is_array x"
    using assms(1) by (auto simp: schema_eqv_def)
  have "keyword_holds sx n defs' fs k x' v = keyword_holds sx n defs fs k x v" for fs v
  proof -
    from assms(2) consider "k = ''contains''" | "k = ''propertyNames''" | "k = ''not''"
      | "k = ''additionalProperties''" | "k = ''additionalItems''" | "k = ''items'' \<and> \<not> is_array x"
      | "k = ''if''" | "k = ''then''" | "k = ''else''" | "k = ''contentSchema''"
      | "k = ''unevaluatedProperties''" | "k = ''unevaluatedItems''"
      unfolding single_keywords_def by fastforce
    then show ?thesis
      by cases (simp_all only: keyword_equations acc arr simp_thms if_False)
  qed
  moreover have "length (elements_of x') = length (elements_of x)" if "k = ''items''"
    using assms that by (auto simp: schema_eqv_def elements_of_def is_array_def single_keywords_def split: json.splits)
  ultimately show ?thesis using assms by (auto simp: keyword_eqv_def schema_eqv_def single_keywords_def)
qed

lemma same_keyword_eqv:
  assumes "k \<notin> set single_keywords" "k \<noteq> ''items'' \<or> \<not> is_array x"
    and "k \<in> set member_keywords \<Longrightarrow> members_of x = []" "k \<in> set array_keywords \<Longrightarrow> elements_of x = []"
    and "k = ''items'' \<Longrightarrow> schema_eqv sx n defs defs' x x"
    and "\<And>fs v. k = ''$ref'' \<Longrightarrow> keyword_holds sx n defs' fs k x v = keyword_holds sx n defs fs k x v"
  shows "keyword_eqv sx n defs defs' k x x"
proof -
  have "keyword_holds sx n defs' fs k x v = keyword_holds sx n defs fs k x v" for fs v
  proof -
    consider (member) "k \<in> set member_keywords" | (elems) "k \<in> set array_keywords" | (items) "k = ''items''"
      | (reference) "k = ''$ref''"
      | (none) "k \<notin> set member_keywords" "k \<notin> set array_keywords" "k \<noteq> ''items''" "k \<noteq> ''$ref''"
      by blast
    then show ?thesis
    proof cases
      case member
      with assms(3) have "members_of x = []" by simp
      with member show ?thesis by (auto simp: member_keywords_def keyword_equations)
    next
      case elems
      with assms(4) have "elements_of x = []" by simp
      with elems show ?thesis by (auto simp: array_keywords_def keyword_equations)
    next
      case items
      have "accepts sx n defs' x = accepts sx n defs x" using assms(5) [OF items] by (auto simp: schema_eqv_def)
      with items assms(2) show ?thesis by (simp add: keyword_equations)
    next
      case reference
      then show ?thesis by (rule assms(6))
    next
      case none
      with assms(1) show ?thesis by (intro keyword_uninterpreted) auto
    qed
  qed
  with assms(1) show ?thesis by (auto simp: keyword_eqv_def single_keywords_def)
qed

lemma keywords_map_of:
  "list_all2 (\<lambda>f f'. fst f' = fst f \<and> P (fst f) (snd f) (snd f')) fs fs' \<Longrightarrow>
    rel_option (P k) (map_of fs k) (map_of fs' k)"
  by (induction rule: list_all2_induct) auto

lemma keyword_members_eqv:
  "rel_option (keyword_eqv sx n defs defs' k) (map_of fs k) (map_of fs' k) \<Longrightarrow>
    k \<in> {''properties'', ''patternProperties''} \<Longrightarrow>
    map fst (keyword_members k fs') = map fst (keyword_members k fs)"
  by (cases "map_of fs k"; cases "map_of fs' k") (auto simp: keyword_members_def keyword_eqv_def)

lemma keyword_length_eqv:
  "rel_option (keyword_eqv sx n defs defs' k) (map_of fs k) (map_of fs' k) \<Longrightarrow>
    k \<in> {''prefixItems'', ''items''} \<Longrightarrow> keyword_length k fs' = keyword_length k fs"
  by (cases "map_of fs k"; cases "map_of fs' k") (auto simp: keyword_length_def keyword_eqv_def)

lemma keyword_schema_eqv:
  assumes "rel_option (keyword_eqv sx n defs defs' k) (map_of fs k) (map_of fs' k)"
    "k \<in> {''if'', ''then'', ''else''}"
  shows "rel_option (schema_eqv sx n defs defs') (map_of fs k) (map_of fs' k)"
  using assms by (cases rule: option.rel_cases) (auto simp: keyword_eqv_def)

lemma object_eqv:
  assumes "list_all2 (\<lambda>f f'. fst f' = fst f \<and> keyword_eqv sx n defs defs' (fst f) (snd f) (snd f')) fs fs'"
  shows "accepts sx n defs' (JObj fs') v = accepts sx n defs (JObj fs) v"
proof -
  note rel = keywords_map_of [OF assms]
  have "positional_items fs' = positional_items fs"
    using rel [of "''items''"] by (cases rule: option.rel_cases) (auto simp: positional_items_def keyword_eqv_def)
  then have ctx: "same_context fs fs'"
    using keyword_members_eqv [OF rel] keyword_length_eqv [OF rel] by (simp add: same_context_def)
  have hold: "keyword_holds sx n defs' fs' k x' v = keyword_holds sx n defs fs k x v"
    if "keyword_eqv sx n defs defs' k x x'" for k x x'
    using that by (simp add: keyword_eqv_def keyword_holds_context [OF ctx])
  have "(\<forall>x. map_of fs' k = Some x \<longrightarrow> keyword_holds sx n defs' fs' k x v) \<longleftrightarrow>
      (\<forall>x. map_of fs k = Some x \<longrightarrow> keyword_holds sx n defs fs k x v)" for k
    using rel [of k] by (cases rule: option.rel_cases) (auto simp: hold)
  moreover have "conditional_holds sx n defs' fs' v = conditional_holds sx n defs fs v"
  proof -
    have branch: "(case map_of fs' k of None \<Rightarrow> True | Some t \<Rightarrow> accepts sx n defs' t v) =
        (case map_of fs k of None \<Rightarrow> True | Some t \<Rightarrow> accepts sx n defs t v)"
      if "k \<in> {''if'', ''then'', ''else''}" for k
      using keyword_schema_eqv [OF rel that] by (cases rule: option.rel_cases) (auto dest: schema_eqvD)
    have "rel_option (schema_eqv sx n defs defs') (map_of fs ''if'') (map_of fs' ''if'')"
      by (rule keyword_schema_eqv [OF rel]) simp
    then show ?thesis
    proof (cases rule: option.rel_cases)
      case (Some c c')
      then have "accepts sx n defs' c' v = accepts sx n defs c v" by (simp add: schema_eqvD)
      with Some branch show ?thesis by (simp add: conditional_holds_def)
    qed (simp add: conditional_holds_def)
  qed
  ultimately show ?thesis unfolding accepts_object by blast
qed

lemma keyword_kinds:
  "k \<in> set member_keywords \<Longrightarrow> k \<notin> set array_keywords \<and> k \<notin> set single_keywords \<and> k \<noteq> ''items''"
  "k \<in> set array_keywords \<Longrightarrow> k \<notin> set member_keywords \<and> k \<notin> set single_keywords \<and> k \<noteq> ''items''"
  "k \<in> set single_keywords \<Longrightarrow> k \<notin> set member_keywords \<and> k \<notin> set array_keywords \<and> k \<noteq> ''items''"
  "''items'' \<notin> set member_keywords" "''items'' \<notin> set array_keywords"
  by (auto simp: member_keywords_def array_keywords_def single_keywords_def)

lemma normalize_keyword_eqv:
  assumes norm: "normalize_keyword k x = Some x'"
    and members: "\<And>ps ps'. k \<in> set member_keywords \<Longrightarrow> x = JObj ps \<Longrightarrow> normalize_members ps = Some ps' \<Longrightarrow>
      list_all2 (member_eqv sx n defs defs') ps ps'"
    and elems: "\<And>xs xs'. k \<in> set array_keywords \<or> k = ''items'' \<Longrightarrow> x = JArr xs \<Longrightarrow>
      normalize_all xs = Some xs' \<Longrightarrow> list_all2 (schema_eqv sx n defs defs') xs xs'"
    and schema: "k \<in> set single_keywords \<or> k = ''items'' \<and> \<not> is_array x \<Longrightarrow> normalize_schema x = Some x' \<Longrightarrow>
      schema_eqv sx n defs defs' x x'"
    and ref: "\<And>fs v. keyword_holds sx n defs' fs ''$ref'' x v = keyword_holds sx n defs fs ''$ref'' x v"
  shows "keyword_eqv sx n defs defs' k x x'"
proof -
  consider (member) ps ps' where "k \<in> set member_keywords" "x = JObj ps" "normalize_members ps = Some ps'" "x' = JObj ps'"
    | (items) xs xs' where "k \<in> set array_keywords \<or> k = ''items''" "x = JArr xs" "normalize_all xs = Some xs'" "x' = JArr xs'"
    | (single) "k \<in> set single_keywords \<or> k = ''items'' \<and> \<not> is_array x" "normalize_schema x = Some x'"
    | (same) "x' = x" "k \<notin> set single_keywords" "k \<noteq> ''items''"
        "k \<in> set member_keywords \<longrightarrow> members_of x = []" "k \<in> set array_keywords \<longrightarrow> elements_of x = []"
    using norm by (cases x) (auto simp: members_of_def elements_of_def is_array_def simp: keyword_kinds(4,5) dest: keyword_kinds(1-3) split: if_splits)
  then show ?thesis
  proof cases
    case (member ps ps')
    with members show ?thesis by (auto intro: member_keyword_eqv)
  next
    case (items xs xs')
    with elems show ?thesis by (auto intro: array_keyword_eqv)
  next
    case single
    with schema show ?thesis by (intro single_keyword_eqv) blast+
  next
    case same
    with ref show ?thesis by (auto intro: same_keyword_eqv)
  qed
qed

lemma normalize_eqv:
  assumes refs: "\<And>m r. n = Suc m \<Longrightarrow> rel_option (schema_eqv sx m defs defs') (map_of defs r) (map_of defs' r)"
  shows "\<forall>s'. normalize_schema s = Some s' \<longrightarrow> schema_eqv sx n defs defs' s s'"
    and "\<forall>x'. normalize_keyword k x = Some x' \<longrightarrow> keyword_eqv sx n defs defs' k x x'"
    and "\<forall>fs'. normalize_keywords fs = Some fs' \<longrightarrow>
      list_all2 (\<lambda>f f'. fst f' = fst f \<and> keyword_eqv sx n defs defs' (fst f) (snd f) (snd f')) fs fs'"
    and "\<forall>ps'. normalize_members ps = Some ps' \<longrightarrow> list_all2 (member_eqv sx n defs defs') ps ps'"
    and "\<forall>xs'. normalize_all xs = Some xs' \<longrightarrow> list_all2 (schema_eqv sx n defs defs') xs xs'"
proof (induction s and k x and fs and ps and xs
    rule: normalize_schema_normalize_keyword_normalize_keywords_normalize_members_normalize_all.induct)
  case (1 fs)
  show ?case
  proof (intro allI impI)
    fix s'
    assume "normalize_schema (JObj fs) = Some s'"
    then obtain gs gs' where gs: "split_union fs = Some gs" "normalize_keywords gs = Some gs'" "s' = JObj gs'"
      by (auto split: option.splits)
    with 1 [OF gs(1)] have "accepts sx n defs' (JObj gs') v = accepts sx n defs (JObj gs) v" for v
      by (intro object_eqv) simp
    with split_union_accepts [OF gs(1)] gs(3) show "schema_eqv sx n defs defs' (JObj fs) s'"
      by (simp add: schema_eqv_def is_array_def)
  qed
next
  case (3 k x)
  have ref: "keyword_holds sx n defs' fs ''$ref'' y v = keyword_holds sx n defs fs ''$ref'' y v" for fs y v
  proof (cases n)
    case (Suc m)
    have "(case map_of defs' r of None \<Rightarrow> True | Some s \<Rightarrow> accepts sx m defs' s v) =
        (case map_of defs r of None \<Rightarrow> True | Some s \<Rightarrow> accepts sx m defs s v)" for r
      using refs [OF Suc, of r] by (cases rule: option.rel_cases) (auto dest: schema_eqvD)
    then show ?thesis by (cases "as_str y") (simp_all add: keyword_equations Suc)
  qed (simp add: keyword_equations)
  show ?case
  proof (intro allI impI)
    fix x'
    assume norm: "normalize_keyword k x = Some x'"
    show "keyword_eqv sx n defs defs' k x x'"
      using norm
    proof (rule normalize_keyword_eqv)
      show "schema_eqv sx n defs defs' x x'"
        if "k \<in> set single_keywords \<or> k = ''items'' \<and> \<not> is_array x" "normalize_schema x = Some x'"
        using that 3 keyword_kinds(3) [of k] by (cases x) (auto simp: is_array_def schema_eqv_other keyword_kinds(4,5))
      show "list_all2 (member_eqv sx n defs defs') ps ps'"
        if "k \<in> set member_keywords" "x = JObj ps" "normalize_members ps = Some ps'" for ps ps'
        using that 3(1) by blast
      show "list_all2 (schema_eqv sx n defs defs') xs xs'"
        if "k \<in> set array_keywords \<or> k = ''items''" "x = JArr xs" "normalize_all xs = Some xs'" for xs xs'
        using that 3 keyword_kinds(2) [of k] keyword_kinds(4,5) by auto
    qed (rule ref)
  qed
qed (auto simp: schema_eqv_other member_eqv_def split: option.splits)

section \<open>Whole schemas\<close>

text \<open>A schema document, with its definitions under the references the derived schemas use.\<close>

definition root_definitions :: "obj \<Rightarrow> obj" where
  "root_definitions fs = map (\<lambda>d. (''#/$defs/'' @ fst d, snd d)) (keyword_members ''$defs'' fs)"

definition document_accepts :: "schema_env \<Rightarrow> nat \<Rightarrow> obj \<Rightarrow> json \<Rightarrow> bool" where
  "document_accepts sx n fs v \<longleftrightarrow> accepts sx n (root_definitions fs) (JObj fs) v"

text \<open>\<open>schema_object\<close> on a derived schema; \<open>None\<close> is a panic.\<close>

definition schema_object :: "json \<Rightarrow> obj option" where
  "schema_object s = (case normalize_schema s of Some (JObj fs) \<Rightarrow> Some fs | _ \<Rightarrow> None)"

lemma normalize_keywords_map_of:
  "normalize_keywords gs = Some fs' \<Longrightarrow>
    rel_option (\<lambda>x x'. normalize_keyword k x = Some x') (map_of gs k) (map_of fs' k)"
proof (induction gs arbitrary: fs')
  case (Cons g gs)
  then show ?case by (cases g) (auto split: option.splits)
qed simp

lemma split_union_other:
  assumes "split_union fs = Some gs" "k \<notin> {''type'', ''anyOf'', ''allOf''}"
  shows "map_of gs k = map_of fs k"
  using assms(1) by (cases rule: split_union_cases) (use assms(2) in \<open>auto simp: map_of_jset map_of_untyped\<close>)

lemma schema_object_normal:
  assumes "schema_object (JObj fs) = Some fs'"
  obtains gs where "split_union fs = Some gs" "normalize_keywords gs = Some fs'"
    "normalize_schema (JObj fs) = Some (JObj fs')"
  using assms by (auto simp: schema_object_def split: option.splits json.splits)

lemma keyword_members_normal:
  assumes "schema_object (JObj fs) = Some fs'"
  shows "normalize_members (keyword_members ''$defs'' fs) = Some (keyword_members ''$defs'' fs')"
proof -
  obtain gs where gs: "split_union fs = Some gs" "normalize_keywords gs = Some fs'"
    using assms by (rule schema_object_normal)
  have "rel_option (\<lambda>x x'. normalize_keyword ''$defs'' x = Some x') (map_of fs ''$defs'') (map_of fs' ''$defs'')"
    using normalize_keywords_map_of [OF gs(2), of "''$defs''"] split_union_other [OF gs(1), of "''$defs''"] by simp
  then show ?thesis
  proof (cases rule: option.rel_cases)
    case (Some x x')
    then show ?thesis
      by (cases x) (auto simp: keyword_members_def members_of_def member_keywords_def)
  qed (simp add: keyword_members_def)
qed

lemma definitions_eqv:
  assumes "list_all2 (member_eqv sx n D D') ds ds'"
  shows "rel_option (schema_eqv sx n D D') (map_of (map (\<lambda>d. (c @ fst d, snd d)) ds) r)
    (map_of (map (\<lambda>d. (c @ fst d, snd d)) ds') r)"
  using assms by (induction rule: list_all2_induct) (auto simp: member_eqv_def)

lemma root_definitions_eqv:
  assumes "schema_object (JObj fs) = Some fs'"
  shows "rel_option (schema_eqv sx n (root_definitions fs) (root_definitions fs'))
    (map_of (root_definitions fs) r) (map_of (root_definitions fs') r)"
proof (induction n arbitrary: r)
  case 0
  have "list_all2 (member_eqv sx 0 (root_definitions fs) (root_definitions fs'))
      (keyword_members ''$defs'' fs) (keyword_members ''$defs'' fs')"
    using normalize_eqv(4) [of 0] keyword_members_normal [OF assms] by blast
  then show ?case unfolding root_definitions_def by (rule definitions_eqv)
next
  case (Suc n)
  have "list_all2 (member_eqv sx (Suc n) (root_definitions fs) (root_definitions fs'))
      (keyword_members ''$defs'' fs) (keyword_members ''$defs'' fs')"
    using normalize_eqv(4) [of "Suc n", OF _] Suc.IH keyword_members_normal [OF assms] by blast
  then show ?case unfolding root_definitions_def by (rule definitions_eqv)
qed

lemma schema_object_accepts:
  assumes "schema_object (JObj fs) = Some fs'"
  shows "document_accepts sx n fs' v = document_accepts sx n fs v"
proof -
  have "normalize_schema (JObj fs) = Some (JObj fs')" using assms by (rule schema_object_normal)
  then have "schema_eqv sx n (root_definitions fs) (root_definitions fs') (JObj fs) (JObj fs')"
    using normalize_eqv(1) root_definitions_eqv [OF assms] by blast
  then show ?thesis by (simp add: document_accepts_def schema_eqvD)
qed

section \<open>More definitions than a schema refers to\<close>

text \<open>Every reference of a schema, and of its definitions, is defined.\<close>

fun references :: "json \<Rightarrow> string list" and field_references :: "obj \<Rightarrow> string list"
  and item_references :: "json list \<Rightarrow> string list" where
  "references (JObj fs) = field_references fs"
| "references (JArr xs) = item_references xs"
| "references _ = []"
| "field_references [] = []"
| "field_references ((k, x) # fs) =
     (case as_str x of None \<Rightarrow> [] | Some r \<Rightarrow> if k = ''$ref'' then [r] else []) @ references x @ field_references fs"
| "item_references [] = []"
| "item_references (x # xs) = references x @ item_references xs"

definition refers_within :: "obj \<Rightarrow> json \<Rightarrow> bool" where
  "refers_within defs s \<longleftrightarrow> list_all (\<lambda>r. map_of defs r \<noteq> None) (references s)"

definition closed_document :: "obj \<Rightarrow> bool" where
  "closed_document fs \<longleftrightarrow> refers_within (root_definitions fs) (JObj fs)"

text \<open>Rewriting a schema keeps its references and the names it defines.\<close>

lemma field_references_set:
  "set (field_references fs) =
    {r. \<exists>x. (''$ref'', x) \<in> set fs \<and> as_str x = Some r} \<union> (\<Union>f \<in> set fs. set (references (snd f)))"
proof (induction fs)
  case (Cons f fs)
  then show ?case by (cases f; cases "as_str (snd f)") auto
qed simp

lemma item_references_set: "set (item_references xs) = (\<Union>x \<in> set xs. set (references x))"
  by (induction xs) auto

lemma split_union_references:
  assumes "split_union fs = Some fs'"
  shows "set (field_references fs') \<subseteq> set (field_references fs)"
proof -
  have branches: "set (item_references (map type_branch types)) = {}" for types
    by (auto simp: item_references_set type_branch_def as_str_def)
  have subset: "set (field_references (untyped fs)) \<subseteq> set (field_references fs)"
    by (auto simp: field_references_set)
  have keep: "set (field_references (jset k x gs)) \<subseteq> set (references x) \<union> set (field_references gs)"
    if "as_str x = None" for k x gs
    using that by (induction k x gs rule: jset.induct) auto
  have found: "set (references x) \<subseteq> set (field_references gs)" if "map_of gs k = Some x" for gs k x
    using map_of_SomeD [OF that] by (auto simp: field_references_set)
  show ?thesis
    using assms
  proof (cases rule: split_union_cases)
    case (any types)
    with keep [of "any_of types" "''anyOf''" "untyped fs"] subset branches show ?thesis
      by (auto simp: as_str_def)
  next
    case (all types)
    with keep [of "JArr [JObj [(''anyOf'', any_of types)]]" "''allOf''" "untyped fs"] subset branches
    show ?thesis by (auto simp: as_str_def)
  next
    case (push types xs)
    with keep [of "JArr (xs @ [JObj [(''anyOf'', any_of types)]])" "''allOf''" "untyped fs"] subset branches
      found [OF push(3)]
    show ?thesis by (simp add: as_str_def item_references_set) blast
  qed simp
qed

lemma normalize_schema_object: "normalize_schema (JObj fs) = Some s \<Longrightarrow> \<exists>fs'. s = JObj fs'"
  by (auto split: option.splits)

lemma normalize_schema_str: "normalize_schema x = Some x' \<Longrightarrow> as_str x' = as_str x"
  by (cases x) (auto simp: as_str_def split: option.splits)

lemma normalize_references:
  "\<forall>s'. normalize_schema s = Some s' \<longrightarrow> set (references s') \<subseteq> set (references s)"
  "\<forall>x'. normalize_keyword k x = Some x' \<longrightarrow> set (references x') \<subseteq> set (references x) \<and> as_str x' = as_str x"
  "\<forall>fs'. normalize_keywords fs = Some fs' \<longrightarrow> set (field_references fs') \<subseteq> set (field_references fs)"
  "\<forall>ps'. normalize_members ps = Some ps' \<longrightarrow> set (field_references ps') \<subseteq> set (field_references ps) \<and>
    map fst ps' = map fst ps"
  "\<forall>xs'. normalize_all xs = Some xs' \<longrightarrow> set (item_references xs') \<subseteq> set (item_references xs)"
proof (induction s and k x and fs and ps and xs
    rule: normalize_schema_normalize_keyword_normalize_keywords_normalize_members_normalize_all.induct)
  case (1 fs)
  then show ?case using split_union_references by (fastforce split: option.splits)
next
  case (3 k x)
  show ?case
  proof (intro allI impI)
    fix x'
    assume "normalize_keyword k x = Some x'"
    then show "set (references x') \<subseteq> set (references x) \<and> as_str x' = as_str x"
      using 3 by (cases x) (auto simp: as_str_def simp del: normalize_schema.simps(1)
        dest: normalize_schema_object split: if_splits json.splits)
  qed
next
  case (5 k x fs)
  show ?case
  proof (intro allI impI)
    fix gs
    assume "normalize_keywords ((k, x) # fs) = Some gs"
    then obtain x' fs' where "normalize_keyword k x = Some x'" "normalize_keywords fs = Some fs'" "gs = (k, x') # fs'"
      by (auto split: option.splits)
    with 5 show "set (field_references gs) \<subseteq> set (field_references ((k, x) # fs))"
      by (cases "as_str x") auto
  qed
next
  case (7 k x fs)
  show ?case
  proof (intro allI impI)
    fix gs
    assume "normalize_members ((k, x) # fs) = Some gs"
    then obtain x' fs' where norm: "normalize_schema x = Some x'" "normalize_members fs = Some fs'"
      and gs: "gs = (k, x') # fs'"
      by (auto split: option.splits)
    have "as_str x' = as_str x" using norm(1) by (rule normalize_schema_str)
    with 7 norm gs show "set (field_references gs) \<subseteq> set (field_references ((k, x) # fs)) \<and>
        map fst gs = map fst ((k, x) # fs)"
      by (cases "as_str x") auto
  qed
next
  case (9 x xs)
  show ?case
  proof (intro allI impI)
    fix ys
    assume "normalize_all (x # xs) = Some ys"
    then obtain x' xs' where "normalize_schema x = Some x'" "normalize_all xs = Some xs'" "ys = x' # xs'"
      by (auto split: option.splits)
    with 9 show "set (item_references ys) \<subseteq> set (item_references (x # xs))" by auto
  qed
qed simp_all

lemma refers_within_set: "refers_within defs s \<longleftrightarrow> set (references s) \<subseteq> fst ` set defs"
  by (auto simp: refers_within_def list_all_iff map_of_eq_None_iff)

lemma closed_document_normal:
  assumes closed: "closed_document fs" and norm: "schema_object (JObj fs) = Some fs'"
  shows "closed_document fs'"
proof -
  have "map fst (keyword_members ''$defs'' fs') = map fst (keyword_members ''$defs'' fs)"
    using keyword_members_normal [OF norm] normalize_references(4) by blast
  then have "map ((@) ''#/$defs/'') (map fst (keyword_members ''$defs'' fs')) =
      map ((@) ''#/$defs/'') (map fst (keyword_members ''$defs'' fs))"
    by simp
  then have "map fst (root_definitions fs') = map fst (root_definitions fs)"
    by (simp add: root_definitions_def comp_def del: append.simps)
  then have names: "fst ` set (root_definitions fs') = fst ` set (root_definitions fs)"
    by (metis list.set_map)
  have "normalize_schema (JObj fs) = Some (JObj fs')" using norm by (rule schema_object_normal)
  then have "set (references (JObj fs')) \<subseteq> set (references (JObj fs))"
    using normalize_references(1) [of "JObj fs"] by blast
  also have "\<dots> \<subseteq> fst ` set (root_definitions fs)"
    using closed unfolding closed_document_def refers_within_set .
  finally show ?thesis unfolding closed_document_def refers_within_set names .
qed

lemma refers_within_field:
  "refers_within defs (JObj fs) \<Longrightarrow> (k, x) \<in> set fs \<Longrightarrow> refers_within defs x"
  by (induction fs) (auto simp: refers_within_def)

lemma refers_within_ref:
  "refers_within defs (JObj fs) \<Longrightarrow> (''$ref'', x) \<in> set fs \<Longrightarrow> as_str x = Some r \<Longrightarrow> \<exists>s. map_of defs r = Some s"
  by (induction fs) (auto simp: refers_within_def)

lemma refers_within_item: "refers_within defs (JArr xs) \<Longrightarrow> x \<in> set xs \<Longrightarrow> refers_within defs x"
  by (induction xs) (auto simp: refers_within_def)

lemma keyword_eqv_refl:
  assumes sub: "\<And>y. json_weight y \<le> json_weight x \<Longrightarrow> refers_within defs y \<Longrightarrow> schema_eqv sx n defs defs' y y"
    and within: "refers_within defs x"
    and ref: "\<And>fs v. k = ''$ref'' \<Longrightarrow> keyword_holds sx n defs' fs k x v = keyword_holds sx n defs fs k x v"
  shows "keyword_eqv sx n defs defs' k x x"
proof -
  have elems: "list_all2 (schema_eqv sx n defs defs') xs xs" if "x = JArr xs" for xs
    unfolding list_all2_same
  proof
    fix y
    assume y: "y \<in> set xs"
    have "refers_within defs y" using refers_within_item within that y by blast
    with items_weight_ge [OF y] that show "schema_eqv sx n defs defs' y y" by (intro sub) auto
  qed
  have fields: "list_all2 (member_eqv sx n defs defs') ps ps" if "x = JObj ps" for ps
    unfolding list_all2_same
  proof
    fix p
    assume p: "p \<in> set ps"
    have "refers_within defs (snd p)"
      using refers_within_field [of defs ps "fst p" "snd p"] within that p by simp
    with fields_weight_snd [OF p] that show "member_eqv sx n defs defs' p p"
      by (auto simp: member_eqv_def intro: sub)
  qed
  have self: "schema_eqv sx n defs defs' x x" using sub within by blast
  consider (reference) "k = ''$ref''" | (member) ps where "k \<in> set member_keywords" "x = JObj ps"
    | (items) xs where "k \<in> set array_keywords \<or> k = ''items''" "x = JArr xs"
    | (single) "k \<in> set single_keywords \<or> k = ''items'' \<and> \<not> is_array x" "k \<noteq> ''$ref''"
    | (same) "k \<noteq> ''$ref''" "k \<noteq> ''items''" "k \<notin> set single_keywords"
        "k \<in> set member_keywords \<longrightarrow> members_of x = []" "k \<in> set array_keywords \<longrightarrow> elements_of x = []"
    by (cases x) (auto simp: members_of_def elements_of_def is_array_def)
  then show ?thesis
  proof cases
    case reference
    then show ?thesis
      by (intro same_keyword_eqv)
        (use ref in \<open>simp_all add: single_keywords_def member_keywords_def array_keywords_def\<close>)
  next
    case (member ps)
    with fields show ?thesis by (auto intro: member_keyword_eqv)
  next
    case (items xs)
    with elems show ?thesis by (auto intro: array_keyword_eqv)
  next
    case single
    with self show ?thesis by (auto intro: single_keyword_eqv)
  next
    case same
    with self show ?thesis by (intro same_keyword_eqv) auto
  qed
qed

lemma self_eqv:
  assumes refs: "\<And>m r t. n = Suc m \<Longrightarrow> map_of defs r = Some t \<Longrightarrow>
      map_of defs' r = Some t \<and> schema_eqv sx m defs defs' t t"
  shows "refers_within defs s \<Longrightarrow> schema_eqv sx n defs defs' s s"
proof (induction s rule: measure_induct_rule [of json_weight])
  case (less s)
  have ref: "keyword_holds sx n defs' fs ''$ref'' x v = keyword_holds sx n defs fs ''$ref'' x v"
    if "\<And>r. as_str x = Some r \<Longrightarrow> \<exists>s. map_of defs r = Some s" for fs x v
  proof (cases "as_str x")
    case (Some r)
    with that obtain t where t: "map_of defs r = Some t" by blast
    from refs [OF _ t] Some t show ?thesis by (cases n) (simp_all add: keyword_equations schema_eqvD)
  qed (simp add: keyword_equations split: nat.split)
  show ?case
  proof (cases s)
    case (JObj fs)
    have "keyword_eqv sx n defs defs' (fst f) (snd f) (snd f)" if f: "f \<in> set fs" for f
    proof (rule keyword_eqv_refl)
      show "keyword_holds sx n defs' gs (fst f) (snd f) v = keyword_holds sx n defs gs (fst f) (snd f) v"
        if k: "fst f = ''$ref''" for gs v
        using ref [of "snd f"] refers_within_ref [of defs fs "snd f"] less.prems f k JObj
        by (cases f) auto
    qed (use less refers_within_field [of defs fs "fst f" "snd f"] fields_weight_snd [OF f] f JObj in auto)
    then have "accepts sx n defs' s v = accepts sx n defs s v" for v
      unfolding JObj by (intro object_eqv) (simp add: list_all2_same)
    then show ?thesis by (simp add: schema_eqv_def)
  qed (auto intro: schema_eqv_other)
qed

lemma more_definitions:
  assumes more: "map_of defs \<subseteq>\<^sub>m map_of defs'"
    and closed: "\<And>r x. map_of defs r = Some x \<Longrightarrow> refers_within defs x"
  shows "refers_within defs s \<Longrightarrow> schema_eqv sx n defs defs' s s"
proof (induction n arbitrary: s)
  case 0
  then show ?case by (intro self_eqv) simp_all
next
  case (Suc n)
  have "map_of defs' r = Some t \<and> schema_eqv sx n defs defs' t t" if "map_of defs r = Some t" for r t
    using more closed [OF that] Suc.IH that by (metis domI map_le_def)
  with Suc.prems show ?case by (intro self_eqv) simp_all
qed

section \<open>Output schemas\<close>

text \<open>
  The definitions of the failure schema are added to those of the success schema; the \<open>expect\<close> and
  the \<open>assert\<close> are \<open>None\<close>.
\<close>

fun merge_definitions :: "obj \<Rightarrow> json \<Rightarrow> json option" where
  "merge_definitions [] d = Some d"
| "merge_definitions ((name, x) # fs) d =
     (case d of
        JObj ds \<Rightarrow>
          (if map_of ds name = None \<or> map_of ds name = Some x then merge_definitions fs (JObj (jset name x ds))
           else None)
      | _ \<Rightarrow> None)"

abbreviation without_definitions :: "obj \<Rightarrow> obj" where
  "without_definitions fs \<equiv> filter (\<lambda>f. fst f \<noteq> ''$defs'') fs"

text \<open>
  \<open>tool_output_schema\<close> on the schemas \<open>schemars\<close> derives for the output and the failure of a tool.
\<close>

definition tool_output_schema :: "json \<Rightarrow> json \<Rightarrow> obj option" where
  "tool_output_schema s f =
     (case (schema_object s, schema_object f) of
        (Some success, Some failure) \<Rightarrow>
          (let definitions = (case map_of success ''$defs'' of None \<Rightarrow> JObj [] | Some d \<Rightarrow> d);
               merged = (case map_of failure ''$defs'' of
                   Some (JObj ds) \<Rightarrow> merge_definitions ds definitions
                 | _ \<Rightarrow> Some definitions) in
           map_option (\<lambda>d. [(''type'', JStr ''object''),
             (''anyOf'', JArr [JObj (without_definitions success), JObj (without_definitions failure)]),
             (''$defs'', d)]) merged)
      | _ \<Rightarrow> None)"

lemma merge_definitions_extends:
  "merge_definitions fs d = Some m \<Longrightarrow>
    map_of (members_of d) \<subseteq>\<^sub>m map_of (members_of m) \<and> map_of fs \<subseteq>\<^sub>m map_of (members_of m)"
proof (induction fs d rule: merge_definitions.induct)
  case (2 name x fs d)
  then obtain ds where ds: "d = JObj ds" "map_of ds name = None \<or> map_of ds name = Some x"
    "merge_definitions fs (JObj (jset name x ds)) = Some m"
    by (auto split: json.splits if_splits)
  with 2 have "map_of (jset name x ds) \<subseteq>\<^sub>m map_of (members_of m)" "map_of fs \<subseteq>\<^sub>m map_of (members_of m)"
    by (auto simp: members_of_def)
  then show ?case
    using ds(1,2) unfolding map_of_jset map_le_def
    by (auto simp: members_of_def dom_def split: if_splits)
qed simp

lemma root_definitions_extend:
  assumes "map_of (keyword_members ''$defs'' fs) \<subseteq>\<^sub>m map_of (keyword_members ''$defs'' gs)"
  shows "map_of (root_definitions fs) \<subseteq>\<^sub>m map_of (root_definitions gs)"
proof -
  have prefixed: "map_of (map (\<lambda>d. (c @ fst d, snd d)) ds) r =
      (if take (length c) r = c then map_of ds (drop (length c) r) else None)" for c r and ds :: obj
    by (induction ds) (auto, metis append_take_drop_id)
  show ?thesis
    using assms unfolding root_definitions_def map_le_def prefixed by (auto simp: dom_def)
qed

lemma accepts_without_definitions:
  "accepts sx n defs (JObj (without_definitions fs)) v = accepts sx n defs (JObj fs) v"
proof -
  have keys: "map_of (without_definitions fs) k = (if k = ''$defs'' then None else map_of fs k)" for k
    by (induction fs) auto
  have "same_context fs (without_definitions fs)" by (rule same_context_map_of) (auto simp: keys)
  note ctx = keyword_holds_context [OF this]
  have "conditional_holds sx n defs (without_definitions fs) v = conditional_holds sx n defs fs v"
    by (cases "map_of fs ''if''") (simp_all add: conditional_holds_def keys)
  moreover have "(\<forall>k x. map_of (without_definitions fs) k = Some x \<longrightarrow> keyword_holds sx n defs fs k x v) \<longleftrightarrow>
      (\<forall>k x. map_of fs k = Some x \<longrightarrow> keyword_holds sx n defs fs k x v)"
    by (simp add: keys) (metis keyword_equations(20))
  ultimately show ?thesis by (simp add: accepts_object ctx)
qed

text \<open>A schema without unresolved references means the same beside further definitions.\<close>

lemma closed_document_accepts:
  assumes "closed_document fs"
    and "map_of (keyword_members ''$defs'' fs) \<subseteq>\<^sub>m map_of (keyword_members ''$defs'' gs)"
  shows "accepts sx n (root_definitions gs) (JObj (without_definitions fs)) v = document_accepts sx n fs v"
proof -
  have "refers_within (root_definitions fs) x" if d: "map_of (root_definitions fs) r = Some x" for r x
  proof -
    from d have "(r, x) \<in> set (root_definitions fs)" by (rule map_of_SomeD)
    then obtain k where k: "(k, x) \<in> set (keyword_members ''$defs'' fs)" by (auto simp: root_definitions_def)
    then obtain ds where ds: "map_of fs ''$defs'' = Some (JObj ds)" "(k, x) \<in> set ds"
      by (cases "map_of fs ''$defs''") (auto simp: keyword_members_def members_of_def split: json.splits)
    have "refers_within (root_definitions fs) (JObj ds)"
      using refers_within_field [OF _ map_of_SomeD [OF ds(1)]] assms(1) by (simp add: closed_document_def)
    then show ?thesis using ds(2) by (rule refers_within_field)
  qed
  then have "schema_eqv sx n (root_definitions fs) (root_definitions gs) (JObj fs) (JObj fs)"
    using assms by (intro more_definitions root_definitions_extend) (simp_all add: closed_document_def)
  then show ?thesis by (simp add: document_accepts_def accepts_without_definitions schema_eqvD)
qed

lemma accepts_either:
  "accepts sx n defs (JObj [(''type'', JStr t), (''anyOf'', JArr ss), (''$defs'', d)]) v \<longleftrightarrow>
    value_has_type sx v t \<and> list_ex (\<lambda>s. accepts sx n defs s v) ss"
proof -
  let ?fs = "[(''type'', JStr t), (''anyOf'', JArr ss), (''$defs'', d)]"
  have "(\<forall>k x. map_of ?fs k = Some x \<longrightarrow> P k x) \<longleftrightarrow>
      P ''type'' (JStr t) \<and> P ''anyOf'' (JArr ss) \<and> P ''$defs'' d" for P :: "string \<Rightarrow> json \<Rightarrow> bool"
    by simp blast
  moreover have "conditional_holds sx n defs ?fs v" by (simp add: conditional_holds_def)
  ultimately show ?thesis
    by (simp add: accepts_object keyword_equations type_holds_def elements_of_def)
qed

lemma tool_output_schema_accepts:
  assumes out: "tool_output_schema (JObj s) (JObj f) = Some out"
    and documents: "closed_document s" "closed_document f"
  shows "document_accepts sx n out v \<longleftrightarrow>
    (\<exists>fs. v = JObj fs) \<and> (document_accepts sx n s v \<or> document_accepts sx n f v)"
proof -
  obtain success failure where parts: "schema_object (JObj s) = Some success" "schema_object (JObj f) = Some failure"
    using out by (auto simp: tool_output_schema_def split: option.splits)
  note closed = closed_document_normal [OF documents(1) parts(1)] closed_document_normal [OF documents(2) parts(2)]
  define definitions where "definitions = (case map_of success ''$defs'' of None \<Rightarrow> JObj [] | Some d \<Rightarrow> d)"
  obtain d where d: "out = [(''type'', JStr ''object''),
      (''anyOf'', JArr [JObj (without_definitions success), JObj (without_definitions failure)]), (''$defs'', d)]"
    and merged: "(case map_of failure ''$defs'' of Some (JObj ds) \<Rightarrow> merge_definitions ds definitions
        | _ \<Rightarrow> Some definitions) = Some d"
    using out parts by (auto simp: tool_output_schema_def Let_def simp flip: definitions_def)
  have "keyword_members ''$defs'' success = members_of definitions"
    by (simp add: definitions_def keyword_members_def members_of_def split: option.split)
  moreover have "map_of (members_of definitions) \<subseteq>\<^sub>m map_of (members_of d) \<and>
    map_of (keyword_members ''$defs'' failure) \<subseteq>\<^sub>m map_of (members_of d)"
  proof (cases "\<exists>ds. map_of failure ''$defs'' = Some (JObj ds)")
    case True
    then obtain ds where ds: "map_of failure ''$defs'' = Some (JObj ds)" by blast
    with merged have "merge_definitions ds definitions = Some d" by simp
    moreover have "keyword_members ''$defs'' failure = ds" by (simp add: ds keyword_members_def members_of_def)
    ultimately show ?thesis using merge_definitions_extends by blast
  next
    case False
    with merged have "d = definitions" "keyword_members ''$defs'' failure = []"
      by (auto simp: keyword_members_def members_of_def split: option.splits json.splits)
    then show ?thesis by simp
  qed
  ultimately have extend: "map_of (keyword_members ''$defs'' g) \<subseteq>\<^sub>m map_of (keyword_members ''$defs'' out)"
    if "g = success \<or> g = failure" for g
    using that by (auto simp: d keyword_members_def)
  have "accepts sx n (root_definitions out) (JObj (without_definitions g)) v = document_accepts sx n g v"
    if "g = success \<or> g = failure" for g
    using that closed extend by (intro closed_document_accepts) auto
  moreover have "document_accepts sx n out v \<longleftrightarrow> value_has_type sx v ''object'' \<and>
      list_ex (\<lambda>s. accepts sx n (root_definitions out) s v)
        [JObj (without_definitions success), JObj (without_definitions failure)]"
    unfolding document_accepts_def using d accepts_either by metis
  ultimately have "document_accepts sx n out v \<longleftrightarrow> value_has_type sx v ''object'' \<and>
      (document_accepts sx n success v \<or> document_accepts sx n failure v)"
    by simp
  moreover have "value_has_type sx v ''object'' \<longleftrightarrow> (\<exists>fs. v = JObj fs)"
    by (cases v) (simp_all add: value_has_type_def)
  ultimately show ?thesis using parts by (simp add: schema_object_accepts)
qed

section \<open>Properties\<close>

definition sample_schema_env :: schema_env where
  "sample_schema_env = \<lparr>sc_matches = (=), sc_integral = (\<lambda>_. False),
     sc_other = (\<lambda>k x v. k = ''required'' \<longrightarrow> names_present x v)\<rparr>"

definition sample_output :: obj where
  "sample_output =
     [(''type'', JStr ''object''),
      (''properties'', JObj [(''unit'', JObj [(''$ref'', JStr ''#/$defs/Unit'')])]),
      (''required'', JArr [JStr ''unit'']),
      (''$defs'', JObj [(''Unit'', JObj [(''type'', JArr [JStr ''string'', JStr ''null''])])])]"

definition sample_failure :: obj where
  "sample_failure =
     [(''properties'', JObj [(''code'', JObj [(''type'', JStr ''integer'')])]),
      (''required'', JArr [JStr ''code'']), (''type'', JStr ''object'')]"

text \<open>
  C21: Rewriting the array-valued \<open>type\<close> unions of a derived schema keeps what it means: under every
  interpretation of the keywords without subschemas, the document \<open>schema_object\<close> returns, with its
  rewritten definitions, accepts exactly the values the derived document accepts, null and missing
  members told apart as before.
\<close>

theorem normalized_schema_accepts_same:
  "schema_object (JObj fs) = Some fs' \<Longrightarrow> document_accepts sx n fs' v = document_accepts sx n fs v"
  by (rule schema_object_accepts)

theorem normalized_schema_accepts_same_witness:
  "document_accepts sample_schema_env 1 (the (schema_object (JObj sample_output))) (JObj [(''unit'', JNull)]) \<and>
    \<not> document_accepts sample_schema_env 1 (the (schema_object (JObj sample_output))) (JObj []) \<and>
    schema_object (JObj sample_output) \<noteq> Some sample_output"
proof -
  have some: "schema_object (JObj sample_output) = Some (the (schema_object (JObj sample_output)))" by code_simp
  have "document_accepts sample_schema_env 1 sample_output (JObj [(''unit'', JNull)])"
    "\<not> document_accepts sample_schema_env 1 sample_output (JObj [])"
    "schema_object (JObj sample_output) \<noteq> Some sample_output" by code_simp+
  then show ?thesis by (simp add: normalized_schema_accepts_same [OF some])
qed

text \<open>
  C22: The output schema of a tool accepts a value exactly when it is an object and the schema derived
  for the output or the schema derived for a failure accepts it, each read with its own definitions:
  joining the definitions of the two changes neither, as long as both refer only to what they define.
\<close>

theorem output_schema_accepts_either:
  assumes "tool_output_schema (JObj s) (JObj f) = Some out" "closed_document s" "closed_document f"
  shows "document_accepts sx n out v \<longleftrightarrow>
    (\<exists>fs. v = JObj fs) \<and> (document_accepts sx n s v \<or> document_accepts sx n f v)"
  using assms by (rule tool_output_schema_accepts)

theorem output_schema_accepts_either_witness:
  "document_accepts sample_schema_env 1 (the (tool_output_schema (JObj sample_output) (JObj sample_failure)))
      (JObj [(''code'', JInt 5)]) \<and>
    \<not> document_accepts sample_schema_env 1 (the (tool_output_schema (JObj sample_output) (JObj sample_failure)))
      (JObj [(''unit'', JInt 5)])"
proof -
  let ?s = "JObj sample_output" and ?f = "JObj sample_failure"
  have out: "tool_output_schema ?s ?f = Some (the (tool_output_schema ?s ?f))" by code_simp
  have closed: "closed_document sample_output" "closed_document sample_failure" by code_simp+
  note either = output_schema_accepts_either [OF out closed, of sample_schema_env 1]
  have "document_accepts sample_schema_env 1 sample_failure (JObj [(''code'', JInt 5)])"
    "\<not> document_accepts sample_schema_env 1 sample_output (JObj [(''unit'', JInt 5)])"
    "\<not> document_accepts sample_schema_env 1 sample_failure (JObj [(''unit'', JInt 5)])" by code_simp+
  then show ?thesis unfolding either by simp
qed

end
