(* ===== verification/Mcp_Inputs.thy ===== *)
theory Mcp_Inputs
  imports Mcp_Registry Json Api_Operations
begin

text \<open>
  Tool arguments of \<open>crates/komodo-mcp/src/lib.rs\<close> (and \<open>networks.rs\<close>,
  \<open>files.rs\<close>): MCP errors, the input structs with their derived deserialisers, and the
  validation every handler runs before it sends anything.
\<close>

section \<open>MCP errors and calls\<close>

datatype error_code = InvalidRequest | MethodNotFound | InvalidParams | InternalError

record mcp_error =
  err_code :: error_code
  err_message :: string
  err_data :: "json option"

definition invalid_params :: "string \<Rightarrow> json option \<Rightarrow> mcp_error" where
  "invalid_params m d = \<lparr> err_code = InvalidParams, err_message = m, err_data = d \<rparr>"

definition internal_error :: "string \<Rightarrow> json option \<Rightarrow> mcp_error" where
  "internal_error m d = \<lparr> err_code = InternalError, err_message = m, err_data = d \<rparr>"

definition invalid_request :: "string \<Rightarrow> json option \<Rightarrow> mcp_error" where
  "invalid_request m d = \<lparr> err_code = InvalidRequest, err_message = m, err_data = d \<rparr>"

definition method_not_found :: mcp_error where
  "method_not_found = \<lparr> err_code = MethodNotFound, err_message = ''tools/call'', err_data = None \<rparr>"

record call_params =
  cp_name :: string
  cp_arguments :: "obj option"

text \<open>\<open>parse\<close>: missing arguments are the empty object.\<close>

definition parse :: "(json \<Rightarrow> 'a option) \<Rightarrow> call_params \<Rightarrow> mcp_error + 'a" where
  "parse de params =
     ok_or (invalid_params ''arguments do not match the advertised schema'' None)
       (de (JObj (case cp_arguments params of None \<Rightarrow> [] | Some fs \<Rightarrow> fs)))"

section \<open>Limits\<close>

definition max_query_bytes :: nat where "max_query_bytes = 128"
definition max_selector_bytes :: nat where "max_selector_bytes = 128"
definition max_offset :: nat where "max_offset = 10000"
definition default_content_items :: nat where "default_content_items = 250"
definition max_collection_offset :: nat where "max_collection_offset = 2097152"
definition max_write_content_bytes :: nat where "max_write_content_bytes = 256 * 1024"
definition max_write_paths :: nat where "max_write_paths = 50"
definition max_write_path_bytes :: nat where "max_write_path_bytes = 512"
definition max_log_services :: nat where "max_log_services = 50"
definition min_log_tail :: nat where "min_log_tail = 1"
definition max_log_tail :: nat where "max_log_tail = 5000"
definition default_log_tail :: nat where "default_log_tail = 100"
definition default_limit :: nat where "default_limit = 20"

section \<open>Input structs\<close>

text \<open>Decoding: \<open>obind\<close> chains the fields.\<close>

abbreviation obind :: "'a option \<Rightarrow> ('a \<Rightarrow> 'b option) \<Rightarrow> 'b option" where
  "obind \<equiv> Option.bind"

definition de_empty_input :: "json \<Rightarrow> unit option" where
  "de_empty_input j = obind (as_struct [] 0 j) (\<lambda>_. Some ())"

datatype projection = Summary | Detail

definition de_projection :: "json \<Rightarrow> projection option" where
  "de_projection = de_enum [(''summary'', Summary), (''detail'', Detail)]"

record search_input =
  si_projection :: projection
  si_page :: nat
  si_query :: "string option"
  si_offset :: nat
  si_limit :: nat

definition search_input_fields :: "string list" where
  "search_input_fields = [''projection'', ''page'', ''query'', ''offset'', ''limit'']"

definition de_search_input :: "json \<Rightarrow> search_input option" where
  "de_search_input j =
     obind (as_struct search_input_fields 3 j) (\<lambda>fs.
     obind (field_def de_projection Detail ''projection'' fs) (\<lambda>pr.
     obind (field_def (de_uint u32_max) 0 ''page'' fs) (\<lambda>pg.
     obind (field_opt de_str ''query'' fs) (\<lambda>q.
     obind (field_def (de_uint u16_max) 0 ''offset'' fs) (\<lambda>off.
     obind (field_def (de_uint u64_max) default_limit ''limit'' fs) (\<lambda>lim.
       Some \<lparr> si_projection = pr, si_page = pg, si_query = q, si_offset = off,
              si_limit = lim \<rparr>))))))"

record status_input =
  st_selector :: string
  st_projection :: projection

definition status_input_fields :: "string list" where
  "status_input_fields = [''selector'', ''projection'']"

definition de_status_input :: "json \<Rightarrow> status_input option" where
  "de_status_input j =
     obind (as_struct status_input_fields 1 j) (\<lambda>fs.
     obind (field_req de_str ''selector'' fs) (\<lambda>s.
     obind (field_def de_projection Detail ''projection'' fs) (\<lambda>pr.
       Some \<lparr> st_selector = s, st_projection = pr \<rparr>)))"

record selector_input =
  sel_selector :: string

definition selector_input_fields :: "string list" where
  "selector_input_fields = [''selector'']"

definition de_selector_input :: "json \<Rightarrow> selector_input option" where
  "de_selector_input j =
     obind (as_struct selector_input_fields 1 j) (\<lambda>fs.
     obind (field_req de_str ''selector'' fs) (\<lambda>s. Some \<lparr> sel_selector = s \<rparr>))"

datatype compose_source = Configured | Latest | Deployed

definition de_compose_source :: "json \<Rightarrow> compose_source option" where
  "de_compose_source =
     de_enum [(''configured'', Configured), (''latest'', Latest), (''deployed'', Deployed)]"

record collection_window =
  cw_offset :: nat
  cw_limit :: nat

definition default_window :: collection_window where
  "default_window = \<lparr> cw_offset = 0, cw_limit = default_content_items \<rparr>"

definition de_collection_window :: "json \<Rightarrow> collection_window option" where
  "de_collection_window j =
     obind (as_struct [''offset'', ''limit''] 0 j) (\<lambda>fs.
     obind (field_def (de_uint u32_max) 0 ''offset'' fs) (\<lambda>off.
     obind (field_def (de_uint u64_max) default_content_items ''limit'' fs) (\<lambda>lim.
       Some \<lparr> cw_offset = off, cw_limit = lim \<rparr>)))"

record compose_read_input =
  cri_selector :: string
  cri_source :: compose_source
  cri_window :: collection_window

definition compose_read_fields :: "string list" where
  "compose_read_fields = [''selector'', ''source'', ''window'']"

definition de_compose_read_input :: "json \<Rightarrow> compose_read_input option" where
  "de_compose_read_input j =
     obind (as_struct compose_read_fields 1 j) (\<lambda>fs.
     obind (field_req de_str ''selector'' fs) (\<lambda>s.
     obind (field_def de_compose_source Configured ''source'' fs) (\<lambda>src.
     obind (field_def de_collection_window default_window ''window'' fs) (\<lambda>win.
       Some \<lparr> cri_selector = s, cri_source = src, cri_window = win \<rparr>))))"

record collection_read_input =
  coll_selector :: string
  coll_window :: collection_window

definition collection_read_fields :: "string list" where
  "collection_read_fields = [''selector'', ''window'']"

definition de_collection_read_input :: "json \<Rightarrow> collection_read_input option" where
  "de_collection_read_input j =
     obind (as_struct collection_read_fields 1 j) (\<lambda>fs.
     obind (field_req de_str ''selector'' fs) (\<lambda>s.
     obind (field_def de_collection_window default_window ''window'' fs) (\<lambda>win.
       Some \<lparr> coll_selector = s, coll_window = win \<rparr>)))"

record log_tail_input =
  lt_selector :: string
  lt_services :: "string list"
  lt_tail :: nat
  lt_timestamps :: bool

definition log_tail_fields :: "string list" where
  "log_tail_fields = [''selector'', ''services'', ''tail'', ''timestamps'']"

definition de_log_tail_input :: "json \<Rightarrow> log_tail_input option" where
  "de_log_tail_input j =
     obind (as_struct log_tail_fields 1 j) (\<lambda>fs.
     obind (field_req de_str ''selector'' fs) (\<lambda>s.
     obind (field_def (de_list de_str) [] ''services'' fs) (\<lambda>svc.
     obind (field_def (de_uint u64_max) default_log_tail ''tail'' fs) (\<lambda>tl.
     obind (field_def de_bool False ''timestamps'' fs) (\<lambda>ts.
       Some \<lparr> lt_selector = s, lt_services = svc, lt_tail = tl, lt_timestamps = ts \<rparr>)))))"

record operation_logs_input =
  ol_operation_id :: string
  ol_window :: collection_window

definition operation_logs_fields :: "string list" where
  "operation_logs_fields = [''operation_id'', ''window'']"

definition de_operation_logs_input :: "json \<Rightarrow> operation_logs_input option" where
  "de_operation_logs_input j =
     obind (as_struct operation_logs_fields 1 j) (\<lambda>fs.
     obind (field_req de_str ''operation_id'' fs) (\<lambda>i.
     obind (field_def de_collection_window default_window ''window'' fs) (\<lambda>win.
       Some \<lparr> ol_operation_id = i, ol_window = win \<rparr>)))"

record config_patch_input =
  cpi_selector :: string
  cpi_files_on_host :: "bool option"
  cpi_run_directory :: "string option"
  cpi_file_paths :: "string list option"
  cpi_env_file_path :: "string option"

definition config_patch_fields :: "string list" where
  "config_patch_fields =
     [''selector'', ''files_on_host'', ''run_directory'', ''file_paths'', ''env_file_path'']"

definition de_config_patch_input :: "json \<Rightarrow> config_patch_input option" where
  "de_config_patch_input j =
     obind (as_struct config_patch_fields 1 j) (\<lambda>fs.
     obind (field_req de_str ''selector'' fs) (\<lambda>s.
     obind (field_opt de_bool ''files_on_host'' fs) (\<lambda>foh.
     obind (field_opt de_str ''run_directory'' fs) (\<lambda>rd.
     obind (field_opt (de_list de_str) ''file_paths'' fs) (\<lambda>fp.
     obind (field_opt de_str ''env_file_path'' fs) (\<lambda>ep.
       Some \<lparr> cpi_selector = s, cpi_files_on_host = foh, cpi_run_directory = rd,
              cpi_file_paths = fp, cpi_env_file_path = ep \<rparr>))))))"

record compose_write_input =
  cwi_selector :: string
  cwi_contents :: string

definition compose_write_fields :: "string list" where
  "compose_write_fields = [''selector'', ''contents'']"

definition de_compose_write_input :: "json \<Rightarrow> compose_write_input option" where
  "de_compose_write_input j =
     obind (as_struct compose_write_fields 2 j) (\<lambda>fs.
     obind (field_req de_str ''selector'' fs) (\<lambda>s.
     obind (field_req de_str ''contents'' fs) (\<lambda>c.
       Some \<lparr> cwi_selector = s, cwi_contents = c \<rparr>)))"

record environment_write_input =
  ewi_selector :: string
  ewi_environment :: string

definition environment_write_fields :: "string list" where
  "environment_write_fields = [''selector'', ''environment'']"

definition de_environment_write_input :: "json \<Rightarrow> environment_write_input option" where
  "de_environment_write_input j =
     obind (as_struct environment_write_fields 2 j) (\<lambda>fs.
     obind (field_req de_str ''selector'' fs) (\<lambda>s.
     obind (field_req de_str ''environment'' fs) (\<lambda>e.
       Some \<lparr> ewi_selector = s, ewi_environment = e \<rparr>)))"

record command_input =
  ci_shell_mode :: "bool option"
  ci_path :: string
  ci_command :: string

definition de_command_input :: "json \<Rightarrow> command_input option" where
  "de_command_input j =
     obind (as_struct [''shell_mode'', ''path'', ''command''] 3 j) (\<lambda>fs.
     obind (field_opt de_bool ''shell_mode'' fs) (\<lambda>sm.
     obind (field_def de_str [] ''path'' fs) (\<lambda>p.
     obind (field_req de_str ''command'' fs) (\<lambda>c.
       Some \<lparr> ci_shell_mode = sm, ci_path = p, ci_command = c \<rparr>))))"

record commands_write_input =
  cmw_selector :: string
  cmw_pre_deploy :: "command_input option"
  cmw_post_deploy :: "command_input option"

definition commands_write_fields :: "string list" where
  "commands_write_fields = [''selector'', ''pre_deploy'', ''post_deploy'']"

definition de_commands_write_input :: "json \<Rightarrow> commands_write_input option" where
  "de_commands_write_input j =
     obind (as_struct commands_write_fields 1 j) (\<lambda>fs.
     obind (field_req de_str ''selector'' fs) (\<lambda>s.
     obind (field_opt de_command_input ''pre_deploy'' fs) (\<lambda>pre.
     obind (field_opt de_command_input ''post_deploy'' fs) (\<lambda>post.
       Some \<lparr> cmw_selector = s, cmw_pre_deploy = pre, cmw_post_deploy = post \<rparr>))))"

record file_write_input =
  fwi_selector :: string
  fwi_file_path :: string
  fwi_contents :: string

definition file_write_fields :: "string list" where
  "file_write_fields = [''selector'', ''file_path'', ''contents'']"

definition de_file_write_input :: "json \<Rightarrow> file_write_input option" where
  "de_file_write_input j =
     obind (as_struct file_write_fields 3 j) (\<lambda>fs.
     obind (field_req de_str ''selector'' fs) (\<lambda>s.
     obind (field_req de_str ''file_path'' fs) (\<lambda>p.
     obind (field_req de_str ''contents'' fs) (\<lambda>c.
       Some \<lparr> fwi_selector = s, fwi_file_path = p, fwi_contents = c \<rparr>))))"

record webhook_update_input =
  wu_selector :: string
  wu_enabled :: "bool option"
  wu_force_deploy :: "bool option"

definition webhook_update_fields :: "string list" where
  "webhook_update_fields = [''selector'', ''enabled'', ''force_deploy'']"

definition de_webhook_update_input :: "json \<Rightarrow> webhook_update_input option" where
  "de_webhook_update_input j =
     obind (as_struct webhook_update_fields 1 j) (\<lambda>fs.
     obind (field_req de_str ''selector'' fs) (\<lambda>s.
     obind (field_opt de_bool ''enabled'' fs) (\<lambda>e.
     obind (field_opt de_bool ''force_deploy'' fs) (\<lambda>f.
       Some \<lparr> wu_selector = s, wu_enabled = e, wu_force_deploy = f \<rparr>))))"

text \<open>File metadata (\<open>files.rs\<close>), the only form in which a credential file is named.\<close>

record file_digest =
  fd_algorithm :: string
  fd_value :: string

record file_value =
  fv_uri :: string
  fv_name :: "string option"
  fv_mime_type :: "string option"
  fv_size :: "nat option"
  fv_digest :: "file_digest option"

text \<open>
  An internally tagged enum; how its derived deserialiser treats stray fields is serde's, so
  it is a parameter of the inputs that contain it.
\<close>

datatype webhook_secret_input = Inherited | Custom file_value

record webhook_secret_write_input =
  wsw_selector :: string
  wsw_secret :: webhook_secret_input

definition webhook_secret_write_fields :: "string list" where
  "webhook_secret_write_fields = [''selector'', ''secret'']"

definition de_webhook_secret_write_input ::
  "(json \<Rightarrow> webhook_secret_input option) \<Rightarrow> json \<Rightarrow> webhook_secret_write_input option" where
  "de_webhook_secret_write_input de_secret j =
     obind (as_struct webhook_secret_write_fields 2 j) (\<lambda>fs.
     obind (field_req de_str ''selector'' fs) (\<lambda>s.
     obind (field_req de_secret ''secret'' fs) (\<lambda>x.
       Some \<lparr> wsw_selector = s, wsw_secret = x \<rparr>)))"

datatype outcome = Accepted | Running | Succeeded | Failed | UnknownOutcome

definition de_operation_outcome :: "json \<Rightarrow> outcome option" where
  "de_operation_outcome = de_enum [(''accepted'', Accepted), (''running'', Running),
     (''succeeded'', Succeeded), (''failed'', Failed), (''unknown'', UnknownOutcome)]"

record operation_target_filter =
  otf_kind :: string
  otf_id :: string

definition de_operation_target_filter :: "json \<Rightarrow> operation_target_filter option" where
  "de_operation_target_filter j =
     obind (as_struct [''kind'', ''id''] 2 j) (\<lambda>fs.
     obind (field_req de_str ''kind'' fs) (\<lambda>k.
     obind (field_req de_str ''id'' fs) (\<lambda>i.
       Some \<lparr> otf_kind = k, otf_id = i \<rparr>)))"

record operation_search_filter =
  osf_target :: "operation_target_filter option"
  osf_operation :: "string option"
  osf_outcome :: "outcome option"
  osf_started_after :: "int option"
  osf_started_before :: "int option"

definition de_operation_search_filter :: "json \<Rightarrow> operation_search_filter option" where
  "de_operation_search_filter j =
     obind (as_struct [''target'', ''operation'', ''outcome'', ''started_after'',
       ''started_before''] 5 j) (\<lambda>fs.
     obind (field_opt de_operation_target_filter ''target'' fs) (\<lambda>t.
     obind (field_opt de_str ''operation'' fs) (\<lambda>o'.
     obind (field_opt de_operation_outcome ''outcome'' fs) (\<lambda>oc.
     obind (field_opt de_i64 ''started_after'' fs) (\<lambda>a.
     obind (field_opt de_i64 ''started_before'' fs) (\<lambda>b.
       Some \<lparr> osf_target = t, osf_operation = o', osf_outcome = oc, osf_started_after = a,
              osf_started_before = b \<rparr>))))))"

record operations_search_input =
  osi_projection :: projection
  osi_offset :: nat
  osi_page :: nat
  osi_query :: "string option"
  osi_limit :: nat
  osi_filter :: "operation_search_filter option"

definition operations_search_fields :: "string list" where
  "operations_search_fields =
     [''projection'', ''offset'', ''page'', ''query'', ''limit'', ''filter'']"

definition de_operations_search_input :: "json \<Rightarrow> operations_search_input option" where
  "de_operations_search_input j =
     obind (as_struct operations_search_fields 6 j) (\<lambda>fs.
     obind (field_def de_projection Detail ''projection'' fs) (\<lambda>pr.
     obind (field_def (de_uint u16_max) 0 ''offset'' fs) (\<lambda>off.
     obind (field_def (de_uint u32_max) 0 ''page'' fs) (\<lambda>pg.
     obind (field_opt de_str ''query'' fs) (\<lambda>q.
     obind (field_def (de_uint u64_max) default_limit ''limit'' fs) (\<lambda>lim.
     obind (field_opt de_operation_search_filter ''filter'' fs) (\<lambda>f.
       Some \<lparr> osi_projection = pr, osi_offset = off, osi_page = pg, osi_query = q,
              osi_limit = lim, osi_filter = f \<rparr>)))))))"

record operation_status_input =
  osti_projection :: projection
  osti_operation_id :: string
  osti_page :: nat

definition operation_status_fields :: "string list" where
  "operation_status_fields = [''projection'', ''operation_id'', ''page'']"

definition de_operation_status_input :: "json \<Rightarrow> operation_status_input option" where
  "de_operation_status_input j =
     obind (as_struct operation_status_fields 2 j) (\<lambda>fs.
     obind (field_def de_projection Detail ''projection'' fs) (\<lambda>pr.
     obind (field_req de_str ''operation_id'' fs) (\<lambda>i.
     obind (field_def (de_uint u32_max) 0 ''page'' fs) (\<lambda>pg.
       Some \<lparr> osti_projection = pr, osti_operation_id = i, osti_page = pg \<rparr>))))"

record network_search_input =
  nsi_server :: string
  nsi_query :: "string option"
  nsi_window :: collection_window

definition network_search_fields :: "string list" where
  "network_search_fields = [''server'', ''query'', ''window'']"

definition de_network_search_input :: "json \<Rightarrow> network_search_input option" where
  "de_network_search_input j =
     obind (as_struct network_search_fields 2 j) (\<lambda>fs.
     obind (field_req de_str ''server'' fs) (\<lambda>s.
     obind (field_opt de_str ''query'' fs) (\<lambda>q.
     obind (field_def de_collection_window default_window ''window'' fs) (\<lambda>win.
       Some \<lparr> nsi_server = s, nsi_query = q, nsi_window = win \<rparr>))))"

record network_read_input =
  nri_server :: string
  nri_network :: string

definition network_read_fields :: "string list" where
  "network_read_fields = [''server'', ''network'']"

definition de_network_read_input :: "json \<Rightarrow> network_read_input option" where
  "de_network_read_input j =
     obind (as_struct network_read_fields 2 j) (\<lambda>fs.
     obind (field_req de_str ''server'' fs) (\<lambda>s.
     obind (field_req de_str ''network'' fs) (\<lambda>n.
       Some \<lparr> nri_server = s, nri_network = n \<rparr>)))"

section \<open>Validation\<close>

definition window_validate :: "collection_window \<Rightarrow> mcp_error + unit" where
  "window_validate w =
     ensure (\<not> (max_collection_offset < cw_offset w \<or> cw_limit w = 0))
       (invalid_params ''collection window is outside its supported range'' None)"

definition validate_limit :: "nat \<Rightarrow> mcp_error + unit" where
  "validate_limit limit = ensure (0 < limit) (invalid_params ''limit must be positive'' None)"

definition validate_query :: "string option \<Rightarrow> mcp_error + string option" where
  "validate_query query =
     (if (case query of None \<Rightarrow> False | Some v \<Rightarrow> max_query_bytes < length v \<or> has_control v)
      then Inl (invalid_params
        ''query must be at most 128 bytes and contain no control characters'' None)
      else Inr (case query of None \<Rightarrow> None
        | Some v \<Rightarrow> if trim v = [] then None else Some (to_ascii_lowercase (trim v))))"

definition validate_search :: "search_input \<Rightarrow> mcp_error + string option" where
  "validate_search input =
     rbind (validate_limit (si_limit input)) (\<lambda>_.
     if max_offset < si_offset input
     then Inl (invalid_params ''offset must not exceed 10000'' None)
     else validate_query (si_query input))"

definition validate_selector :: "string \<Rightarrow> mcp_error + unit" where
  "validate_selector selector =
     ensure (\<not> (selector = [] \<or> max_selector_bytes < length selector \<or> has_control selector))
       (invalid_params ''selector must be 1 to 128 bytes with no control characters'' None)"

definition validate_write_content :: "string \<Rightarrow> mcp_error + unit" where
  "validate_write_content value =
     ensure (length value \<le> max_write_content_bytes)
       (invalid_params ''written content exceeds the maximum size'' None)"

definition validate_write_path :: "string \<Rightarrow> mcp_error + unit" where
  "validate_write_path value =
     ensure (\<not> (value = [] \<or> max_write_path_bytes < length value \<or> has_control value))
       (invalid_params ''path must be 1 to 512 bytes with no control characters'' None)"

definition validate_command :: "command_input \<Rightarrow> mcp_error + system_command" where
  "validate_command input =
     rbind (if ci_path input \<noteq> [] then validate_write_path (ci_path input) else Inr ()) (\<lambda>_.
     rbind (validate_write_content (ci_command input)) (\<lambda>_.
     Inr \<lparr> sc_path = ci_path input, sc_command = ci_command input,
           sc_shell_mode = ci_shell_mode input \<rparr>))"

fun validate_services :: "string list \<Rightarrow> mcp_error + unit" where
  "validate_services [] = Inr ()"
| "validate_services (service # services) =
     (if service = [] \<or> max_selector_bytes < length service \<or> has_control service
      then Inl (invalid_params
        ''each service must be 1 to 128 bytes with no control characters'' None)
      else validate_services services)"

definition validate_log_tail :: "log_tail_input \<Rightarrow> mcp_error + unit" where
  "validate_log_tail input =
     rbind (validate_selector (lt_selector input)) (\<lambda>_.
     if \<not> (min_log_tail \<le> lt_tail input \<and> lt_tail input \<le> max_log_tail)
     then Inl (invalid_params ''tail must be between 1 and 5000'' None)
     else if max_log_services < length (lt_services input)
     then Inl (invalid_params ''at most 50 services may be selected'' None)
     else validate_services (lt_services input))"

fun validate_paths :: "string list \<Rightarrow> mcp_error + unit" where
  "validate_paths [] = Inr ()"
| "validate_paths (p # ps) = rbind (validate_write_path p) (\<lambda>_. validate_paths ps)"

fun outcome_filter :: "outcome option \<Rightarrow> update_status_filter option \<times> bool option" where
  "outcome_filter None = (None, None)"
| "outcome_filter (Some Accepted) = (Some Queued, None)"
| "outcome_filter (Some Running) = (Some InProgress, None)"
| "outcome_filter (Some Succeeded) = (Some StatusComplete, Some True)"
| "outcome_filter (Some Failed) = (Some StatusComplete, Some False)"
| "outcome_filter (Some UnknownOutcome) = (Some StatusOther, None)"

definition validated_query :: "operation_search_filter \<Rightarrow> mcp_error + operation_query" where
  "validated_query f =
     rbind (case osf_target f of None \<Rightarrow> Inr ()
       | Some t \<Rightarrow> rbind (validate_selector (otf_kind t)) (\<lambda>_. validate_selector (otf_id t))) (\<lambda>_.
     rbind (case osf_operation f of None \<Rightarrow> Inr () | Some o' \<Rightarrow> validate_selector o') (\<lambda>_.
     if (case osf_started_after f of None \<Rightarrow> False | Some v \<Rightarrow> v < 0) \<or>
        (case osf_started_before f of None \<Rightarrow> False | Some v \<Rightarrow> v < 0) \<or>
        (case osf_started_after f of None \<Rightarrow> False | Some a \<Rightarrow>
           (case osf_started_before f of None \<Rightarrow> False | Some b \<Rightarrow> b \<le> a))
     then Inl (invalid_params
       ''operation timestamps must be nonnegative and started_after must precede started_before''
       None)
     else Inr
       (let (status, success) = outcome_filter (osf_outcome f)
        in \<lparr> oq_target = map_option (\<lambda>t. \<lparr> ot_kind = otf_kind t, ot_id = otf_id t \<rparr>) (osf_target f),
             oq_operation = osf_operation f, oq_status = status, oq_success = success,
             oq_started_after = osf_started_after f,
             oq_started_before = osf_started_before f \<rparr>)))"

section \<open>Lemmas\<close>

lemma validate_selector_iff [simp]:
  "validate_selector s = Inr u \<longleftrightarrow> s \<noteq> [] \<and> length s \<le> 128 \<and> \<not> has_control s"
  by (auto simp: validate_selector_def max_selector_bytes_def)

lemma validate_write_path_iff [simp]:
  "validate_write_path s = Inr u \<longleftrightarrow> s \<noteq> [] \<and> length s \<le> 512 \<and> \<not> has_control s"
  by (auto simp: validate_write_path_def max_write_path_bytes_def)

lemma validate_paths_iff [simp]:
  "validate_paths ps = Inr u \<longleftrightarrow> (\<forall>p \<in> set ps. p \<noteq> [] \<and> length p \<le> 512 \<and> \<not> has_control p)"
  by (induction ps) (auto simp: rbind_Inr_iff)

lemma validate_services_iff [simp]:
  "validate_services ss = Inr u \<longleftrightarrow>
     (\<forall>s \<in> set ss. s \<noteq> [] \<and> length s \<le> 128 \<and> \<not> has_control s)"
  by (induction ss) (auto simp: max_selector_bytes_def)

lemma as_struct_unknown:
  "(k, v) \<in> set fs \<Longrightarrow> k \<notin> set names \<Longrightarrow> as_struct names n (JObj fs) = None"
  using unknown_field_refused by (simp add: as_struct_def)

end
