(* ===== verification/Mcp_Normalize.thy ===== *)
theory Mcp_Normalize
  imports Mcp_Inputs "HOL-Library.Multiset"
begin

text \<open>
  From Core's facts to the answers of the tools (\<open>crates/komodo-mcp/src/lib.rs\<close>):
  bounded pages of a collection, search over one inventory page, exact selection, and the
  normalised views. Answers are records of the fields they are serialised from; the stack
  configuration, whose serialiser leaves a field out, is given as the JSON object it becomes.
\<close>

section \<open>Pages of a collection\<close>

record collection_page_rec =
  pg_available :: bool
  pg_returned :: nat
  pg_total_observed :: "nat option"
  pg_truncated :: bool
  pg_next_offset :: "nat option"

definition collection_page ::
  "'a list option \<Rightarrow> collection_window \<Rightarrow> 'a list \<times> collection_page_rec" where
  "collection_page items window =
     (let available = (items \<noteq> None);
          all = (case items of None \<Rightarrow> [] | Some xs \<Rightarrow> xs);
          total = length all;
          end = min (usize_saturating_add (cw_offset window) (cw_limit window)) total;
          page = take (cw_limit window) (drop (cw_offset window) all)
      in (page,
          \<lparr> pg_available = available, pg_returned = length page,
            pg_total_observed = (if available then Some total else None),
            pg_truncated = (length page < total),
            pg_next_offset = (if end < total then Some end else None) \<rparr>))"

section \<open>Search\<close>

definition resource_matches :: "'i resource_list_item \<Rightarrow> string option \<Rightarrow> bool" where
  "resource_matches item query = none_or query (\<lambda>q.
     str_contains (to_ascii_lowercase (ri_name item)) q \<or>
     str_contains (to_ascii_lowercase (ri_id item)) q)"

definition operation_matches :: "operation_item \<Rightarrow> string option \<Rightarrow> bool" where
  "operation_matches item query = none_or query (\<lambda>q.
     str_contains (to_ascii_lowercase (op_id item)) q \<or>
     str_contains (to_ascii_lowercase (op_operation item)) q)"

record 'o search_page =
  sp_items :: "'o list"
  sp_next_offset :: "nat option"
  sp_truncated :: bool

definition supported_offset :: "nat \<Rightarrow> nat option" where
  "supported_offset consumed = Option.bind (u16_try_from consumed)
     (\<lambda>offset. if offset \<le> max_offset then Some offset else None)"

definition search_key :: "'i resource_list_item \<Rightarrow> string \<times> string" where
  "search_key item = (to_ascii_lowercase (ri_name item), ri_id item)"

definition search_items ::
  "'i resource_list_item list \<Rightarrow> search_input \<Rightarrow> ('i resource_list_item \<Rightarrow> 'o)
    \<Rightarrow> mcp_error + 'o search_page" where
  "search_items resources input view =
     rbind (validate_search input) (\<lambda>query.
       let listing = sort_key search_key (filter (\<lambda>item. resource_matches item query) resources);
           total = length listing;
           items = map view (take (si_limit input) (drop (si_offset input) listing));
           consumed = usize_saturating_add (si_offset input) (length items);
           next_offset = (if consumed < total then supported_offset consumed else None)
       in Inr \<lparr> sp_items = items, sp_next_offset = next_offset,
                sp_truncated = (consumed < total \<and> next_offset = None) \<rparr>)"

section \<open>Selection\<close>

definition select_resource ::
  "'i resource_list_item list \<Rightarrow> string \<Rightarrow> mcp_error + 'i resource_list_item" where
  "select_resource resources selector =
     rbind (validate_selector selector) (\<lambda>_.
     case find (\<lambda>item. ri_id item = selector) resources of
       Some item \<Rightarrow> Inr item
     | None \<Rightarrow>
         (case filter (\<lambda>item. eq_ignore_ascii_case (ri_name item) selector) resources of
            [] \<Rightarrow> Inl (invalid_params ''resource not found'' None)
          | [item] \<Rightarrow> Inr item
          | _ \<Rightarrow> Inl (invalid_params
              ''selector is ambiguous; use the exact resource id'' None)))"

section \<open>Views\<close>

record server_status =
  svs_id :: string
  svs_name :: string
  svs_state :: string
  svs_health :: string
  svs_version :: "string option"
  svs_resource :: "server_info resource_list_item option"

definition normalize_server :: "server_info resource_list_item \<Rightarrow> server_status" where
  "normalize_server item =
     (let state = to_ascii_lowercase (srv_state (ri_info item))
      in \<lparr> svs_id = ri_id item, svs_name = ri_name item, svs_state = srv_state (ri_info item),
           svs_health = (if state = ''ok'' then ''healthy''
             else if state = ''disabled'' then ''disabled'' else ''unhealthy''),
           svs_version = srv_version (ri_info item), svs_resource = Some item \<rparr>)"

definition stack_health :: "string \<Rightarrow> bool \<Rightarrow> string" where
  "stack_health state project_missing =
     (let s = to_ascii_lowercase state
      in if s = ''running'' \<and> \<not> project_missing then ''healthy''
         else if s = ''down'' then ''down'' else ''unhealthy'')"

definition count_service_updates :: "stack_service list \<Rightarrow> nat" where
  "count_service_updates services = length (filter svc_update_available services)"

record stack_status =
  sks_id :: string
  sks_name :: string
  sks_state :: string
  sks_health :: string
  sks_service_count :: nat
  sks_services_with_updates :: nat
  sks_project_missing :: bool
  sks_resource :: "stack_info resource_list_item option"

definition normalize_stack :: "stack_info resource_list_item \<Rightarrow> stack_status" where
  "normalize_stack item =
     (let info = ri_info item
      in \<lparr> sks_id = ri_id item, sks_name = ri_name item, sks_state = stk_state info,
           sks_health = stack_health (stk_state info) (stk_project_missing info),
           sks_service_count = length (stk_services info),
           sks_services_with_updates = count_service_updates (stk_services info),
           sks_project_missing = stk_project_missing info, sks_resource = Some item \<rparr>)"

record stack_diagnostics =
  dia_id :: string
  dia_name :: string
  dia_state :: string
  dia_health :: string
  dia_status_message :: "string option"
  dia_service_count :: nat
  dia_services_with_updates :: nat
  dia_project_missing :: bool
  dia_missing_files :: "string list"
  dia_missing_files_page :: collection_page_rec
  dia_up_to_date :: "bool option"
  dia_services :: "stack_service list"
  dia_services_page :: collection_page_rec

text \<open>\<open>ServiceDiagnostic\<close> has the three fields of \<open>StackService\<close>.\<close>

definition normalize_stack_diagnostics ::
  "stack_info resource_list_item \<Rightarrow> collection_window \<Rightarrow> stack_diagnostics" where
  "normalize_stack_diagnostics item window =
     (let info = ri_info item;
          (missing_files, missing_files_page) = collection_page (Some (stk_missing_files info)) window;
          (services, services_page) = collection_page (Some (stk_services info)) window
      in \<lparr> dia_id = ri_id item, dia_name = ri_name item, dia_state = stk_state info,
           dia_health = stack_health (stk_state info) (stk_project_missing info),
           dia_status_message = stk_status info,
           dia_service_count = length (stk_services info),
           dia_services_with_updates = count_service_updates (stk_services info),
           dia_project_missing = stk_project_missing info,
           dia_missing_files = missing_files, dia_missing_files_page = missing_files_page,
           dia_up_to_date =
             (case stk_deployed_hash info of None \<Rightarrow> None | Some d \<Rightarrow>
                (case stk_latest_hash info of None \<Rightarrow> None | Some l \<Rightarrow> Some (d = l))),
           dia_services = services, dia_services_page = services_page \<rparr>)"

definition webhook_secret_source :: "string \<Rightarrow> string" where
  "webhook_secret_source secret = (if secret = [] then ''inherited'' else ''custom'')"

fun compose_source_label :: "compose_source \<Rightarrow> string" where
  "compose_source_label Configured = ''configured''"
| "compose_source_label Latest = ''latest''"
| "compose_source_label Deployed = ''deployed''"

subsection \<open>The serialised stack configuration\<close>

definition opt_json :: "('a \<Rightarrow> json) \<Rightarrow> 'a option \<Rightarrow> json" where
  "opt_json f x = (case x of None \<Rightarrow> JNull | Some v \<Rightarrow> f v)"

definition strs_json :: "string list \<Rightarrow> json" where "strs_json ss = JArr (map JStr ss)"

fun env_file_json :: "additional_env_file \<Rightarrow> json" where
  "env_file_json (EnvPath p) = JStr p"
| "env_file_json (EnvSettings p track) = JObj [(''path'', JStr p), (''track'', opt_json JBool track)]"

fun dependency_json :: "stack_file_dependency \<Rightarrow> json" where
  "dependency_json (DepPath p) = JStr p"
| "dependency_json (DepSettings p services requires) =
     JObj [(''path'', JStr p), (''services'', opt_json strs_json services),
           (''requires'', opt_json JStr requires)]"

definition facts_json :: "stack_configuration_facts \<Rightarrow> obj" where
  "facts_json f =
     [(''swarm_id'', opt_json JStr (scf_swarm_id f)),
      (''server_id'', opt_json JStr (scf_server_id f)),
      (''links'', opt_json strs_json (scf_links f)),
      (''project_name'', opt_json JStr (scf_project_name f)),
      (''auto_pull'', opt_json JBool (scf_auto_pull f)),
      (''run_build'', opt_json JBool (scf_run_build f)),
      (''poll_for_updates'', opt_json JBool (scf_poll_for_updates f)),
      (''auto_update'', opt_json JBool (scf_auto_update f)),
      (''auto_update_all_services'', opt_json JBool (scf_auto_update_all_services f)),
      (''auto_update_skip_services'', opt_json strs_json (scf_auto_update_skip_services f)),
      (''destroy_before_deploy'', opt_json JBool (scf_destroy_before_deploy f)),
      (''skip_secret_interp'', opt_json JBool (scf_skip_secret_interp f)),
      (''linked_repo'', opt_json JStr (scf_linked_repo f)),
      (''git_provider'', opt_json JStr (scf_git_provider f)),
      (''git_https'', opt_json JBool (scf_git_https f)),
      (''git_account'', opt_json JStr (scf_git_account f)),
      (''repo'', opt_json JStr (scf_repo f)),
      (''branch'', opt_json JStr (scf_branch f)),
      (''commit'', opt_json JStr (scf_commit f)),
      (''clone_path'', opt_json JStr (scf_clone_path f)),
      (''reclone'', opt_json JBool (scf_reclone f)),
      (''additional_env_files'', opt_json (\<lambda>fs. JArr (map env_file_json fs)) (scf_additional_env_files f)),
      (''config_files'', opt_json (\<lambda>fs. JArr (map dependency_json fs)) (scf_config_files f)),
      (''send_alerts'', opt_json JBool (scf_send_alerts f)),
      (''registry_provider'', opt_json JStr (scf_registry_provider f)),
      (''registry_account'', opt_json JStr (scf_registry_account f)),
      (''extra_args'', opt_json strs_json (scf_extra_args f)),
      (''build_extra_args'', opt_json strs_json (scf_build_extra_args f)),
      (''compose_cmd_wrapper'', opt_json JStr (scf_compose_cmd_wrapper f)),
      (''compose_cmd_wrapper_include'', opt_json strs_json (scf_compose_cmd_wrapper_include f)),
      (''ignore_services'', opt_json strs_json (scf_ignore_services f))]"

text \<open>The literal webhook token is the one field the serialiser skips.\<close>

definition stack_config_json :: "stack_config_detail \<Rightarrow> obj" where
  "stack_config_json c = facts_json (cd_facts c) @
     [(''file_contents'', JStr (cd_file_contents c)),
      (''environment'', JStr (cd_environment c)),
      (''files_on_host'', JBool (cd_files_on_host c)),
      (''run_directory'', JStr (cd_run_directory c)),
      (''file_paths'', strs_json (cd_file_paths c)),
      (''env_file_path'', JStr (cd_env_file_path c)),
      (''pre_deploy'', JObj ([(''path'', JStr (sc_path (cd_pre_deploy c))),
         (''command'', JStr (sc_command (cd_pre_deploy c)))] @
         opt_field ''shell_mode'' JBool (sc_shell_mode (cd_pre_deploy c)))),
      (''post_deploy'', JObj ([(''path'', JStr (sc_path (cd_post_deploy c))),
         (''command'', JStr (sc_command (cd_post_deploy c)))] @
         opt_field ''shell_mode'' JBool (sc_shell_mode (cd_post_deploy c)))),
      (''webhook_enabled'', JBool (cd_webhook_enabled c)),
      (''webhook_force_deploy'', JBool (cd_webhook_force_deploy c))]"

record stack_config_view =
  scv_configuration :: obj
  scv_name :: string
  scv_files_on_host :: bool
  scv_run_directory :: string
  scv_file_paths :: "string list"
  scv_file_paths_page :: collection_page_rec
  scv_env_file_path :: string
  scv_webhook_enabled :: bool
  scv_webhook_force_deploy :: bool
  scv_webhook_secret_source :: string
  scv_has_compose_contents :: bool
  scv_has_environment :: bool
  scv_has_pre_deploy :: bool
  scv_has_post_deploy :: bool

definition normalize_stack_config ::
  "string \<Rightarrow> stack_config_detail \<Rightarrow> collection_window \<Rightarrow> stack_config_view" where
  "normalize_stack_config name config window =
     (let (file_paths, file_paths_page) = collection_page (Some (cd_file_paths config)) window
      in \<lparr> scv_configuration = stack_config_json config, scv_name = name,
           scv_files_on_host = cd_files_on_host config,
           scv_run_directory = cd_run_directory config,
           scv_file_paths = file_paths, scv_file_paths_page = file_paths_page,
           scv_env_file_path = cd_env_file_path config,
           scv_webhook_enabled = cd_webhook_enabled config,
           scv_webhook_force_deploy = cd_webhook_force_deploy config,
           scv_webhook_secret_source = webhook_secret_source (cd_webhook_secret config),
           scv_has_compose_contents = (cd_file_contents config \<noteq> []),
           scv_has_environment = (cd_environment config \<noteq> []),
           scv_has_pre_deploy = (sc_command (cd_pre_deploy config) \<noteq> []),
           scv_has_post_deploy = (sc_command (cd_post_deploy config) \<noteq> []) \<rparr>)"

subsection \<open>Compose, commands, webhook, logs\<close>

record compose_view =
  cv_provenance :: stack_compose_provenance
  cv_source :: string
  cv_files :: "compose_file list"
  cv_files_page :: collection_page_rec

text \<open>\<open>ComposeFileView\<close> has the four fields of \<open>ComposeFile\<close>.\<close>

definition compose_source_files :: "compose_source \<Rightarrow> stack_detail \<Rightarrow> compose_file list option" where
  "compose_source_files source detail =
     (case source of
        Configured \<Rightarrow>
          if cd_file_contents (sd_config detail) = [] then Some []
          else Some [\<lparr> cf_path = (case cd_file_paths (sd_config detail) of
                          [] \<Rightarrow> ''compose.yaml'' | path # _ \<Rightarrow> path),
                       cf_contents = cd_file_contents (sd_config detail),
                       cf_services = None, cf_requires = None \<rparr>]
      | Deployed \<Rightarrow> sci_deployed_contents (sd_info detail)
      | Latest \<Rightarrow> sci_remote_contents (sd_info detail))"

definition normalize_compose ::
  "compose_source \<Rightarrow> stack_detail \<Rightarrow> collection_window \<Rightarrow> compose_view" where
  "normalize_compose source detail window =
     (let (files, files_page) = collection_page (compose_source_files source detail) window
      in \<lparr> cv_provenance = sci_provenance (sd_info detail),
           cv_source = compose_source_label source, cv_files = files, cv_files_page = files_page \<rparr>)"

record commands_view =
  cmv_pre_deploy :: system_command
  cmv_post_deploy :: system_command

definition normalize_commands :: "stack_config_detail \<Rightarrow> commands_view" where
  "normalize_commands config =
     \<lparr> cmv_pre_deploy = cd_pre_deploy config, cmv_post_deploy = cd_post_deploy config \<rparr>"

record webhook_status_view =
  wsv_enabled :: bool
  wsv_force_deploy :: bool
  wsv_secret_source :: string

definition normalize_webhook_status :: "stack_config_detail \<Rightarrow> webhook_status_view" where
  "normalize_webhook_status config =
     \<lparr> wsv_enabled = cd_webhook_enabled config,
       wsv_force_deploy = cd_webhook_force_deploy config,
       wsv_secret_source = webhook_secret_source (cd_webhook_secret config) \<rparr>"

record log_tail_view =
  ltv_command :: string
  ltv_stdout :: string
  ltv_stderr :: string
  ltv_success :: bool

record operation_logs_view =
  olv_logs :: "log_record list"
  olv_logs_page :: collection_page_rec

definition normalize_operation_logs ::
  "log_record list \<Rightarrow> collection_window \<Rightarrow> operation_logs_view" where
  "normalize_operation_logs logs window =
     (let (page, logs_page) = collection_page (Some logs) window
      in \<lparr> olv_logs = page, olv_logs_page = logs_page \<rparr>)"

subsection \<open>Deployments, builds, repositories\<close>

record deployment_status =
  ds_id :: string
  ds_name :: string
  ds_state :: string
  ds_health :: string
  ds_update_available :: bool
  ds_resource :: "deployment_info resource_list_item option"

definition normalize_deployment :: "deployment_info resource_list_item \<Rightarrow> deployment_status" where
  "normalize_deployment item =
     (let state = to_ascii_lowercase (dep_state (ri_info item))
      in \<lparr> ds_id = ri_id item, ds_name = ri_name item, ds_state = dep_state (ri_info item),
           ds_health = (if state = ''running'' then ''healthy''
             else if state = ''not_deployed'' then ''down'' else ''unhealthy''),
           ds_update_available = dep_update_available (ri_info item), ds_resource = Some item \<rparr>)"

record build_status =
  bs_id :: string
  bs_name :: string
  bs_state :: string
  bs_health :: string
  bs_last_built_at :: int
  bs_resource :: "build_info resource_list_item option"

definition normalize_build :: "build_info resource_list_item \<Rightarrow> build_status" where
  "normalize_build item =
     (let state = to_ascii_lowercase (bld_state (ri_info item))
      in \<lparr> bs_id = ri_id item, bs_name = ri_name item, bs_state = bld_state (ri_info item),
           bs_health = (if state = ''ok'' then ''healthy'' else if state = ''failed'' then ''failed''
             else if state = ''building'' then ''building'' else ''unknown''),
           bs_last_built_at = bld_last_built_at (ri_info item), bs_resource = Some item \<rparr>)"

record repo_status =
  rs_id :: string
  rs_name :: string
  rs_state :: string
  rs_health :: string
  rs_last_pulled_at :: int
  rs_last_built_at :: int
  rs_resource :: "repo_info resource_list_item option"

definition normalize_repo :: "repo_info resource_list_item \<Rightarrow> repo_status" where
  "normalize_repo item =
     (let state = to_ascii_lowercase (rep_state (ri_info item))
      in \<lparr> rs_id = ri_id item, rs_name = ri_name item, rs_state = rep_state (ri_info item),
           rs_health = (if state = ''ok'' then ''healthy'' else if state = ''failed'' then ''failed''
             else if state \<in> {''cloning'', ''pulling'', ''building''} then ''active''
             else ''unknown''),
           rs_last_pulled_at = rep_last_pulled_at (ri_info item),
           rs_last_built_at = rep_last_built_at (ri_info item), rs_resource = Some item \<rparr>)"

subsection \<open>Operations and receipts\<close>

definition operation_outcome :: "string \<Rightarrow> bool \<Rightarrow> outcome \<times> bool option" where
  "operation_outcome status success =
     (if status = ''Queued'' then (Accepted, None)
      else if status = ''InProgress'' then (Running, None)
      else if status = ''Complete'' \<and> success then (Succeeded, Some True)
      else if status = ''Complete'' then (Failed, Some False)
      else (UnknownOutcome, None))"

record mutation_output =
  mo_operation_id :: string
  mo_operation :: string
  mo_target :: string
  mo_start_ts :: int
  mo_success :: "bool option"
  mo_status :: string
  mo_outcome :: outcome

definition normalize_receipt :: "mutation_receipt \<Rightarrow> string \<Rightarrow> mutation_output" where
  "normalize_receipt receipt target =
     (let (outcome, success) = operation_outcome (mr_status receipt) (mr_success receipt)
      in \<lparr> mo_operation_id = mr_operation_id receipt, mo_operation = mr_operation receipt,
           mo_target = target, mo_start_ts = mr_start_ts receipt, mo_success = success,
           mo_status = mr_status receipt, mo_outcome = outcome \<rparr>)"

section \<open>Lemmas\<close>

lemma select_resource_Inr:
  assumes "select_resource resources selector = Inr item"
  shows "item \<in> set resources \<and> selector \<noteq> [] \<and>
    (ri_id item = selector \<or>
     (\<forall>r \<in> set resources. ri_id r \<noteq> selector) \<and>
     filter (\<lambda>r. eq_ignore_ascii_case (ri_name r) selector) resources = [item])"
proof (cases "find (\<lambda>item. ri_id item = selector) resources")
  case (Some r)
  with assms show ?thesis
    by (auto simp: select_resource_def rbind_Inr_iff find_Some_iff)
next
  case None
  with assms have f: "filter (\<lambda>r. eq_ignore_ascii_case (ri_name r) selector) resources = [item]"
    by (auto simp: select_resource_def rbind_Inr_iff split: list.splits)
  then have "item \<in> set resources" by (metis filter_is_subset list.set_intros(1) subsetD)
  with None f assms show ?thesis
    by (auto simp: select_resource_def rbind_Inr_iff find_None_iff)
qed

lemma validate_query_ok:
  assumes "validate_query query = Inr (Some q)"
  shows "q \<noteq> [] \<and> length q \<le> 128 \<and> to_ascii_lowercase q = q"
proof -
  obtain v where v: "query = Some v" "length v \<le> 128" "trim v \<noteq> []" "q = to_ascii_lowercase (trim v)"
    using assms by (auto simp: validate_query_def max_query_bytes_def split: option.splits if_splits)
  with length_trim_le [of v] show ?thesis by (auto simp: to_ascii_lowercase_def)
qed

lemma supported_offset_eq: "supported_offset n = (if n \<le> 10000 then Some n else None)"
  by (simp add: supported_offset_def u16_try_from_def u16_max_def max_offset_def)

text \<open>Concrete values for the examples.\<close>

definition sample_item :: "string \<Rightarrow> string \<Rightarrow> unit resource_list_item" where
  "sample_item i n = \<lparr> ri_id = i, ri_type = ''Repo'', ri_name = n, ri_template = None,
     ri_tags = None, ri_info = () \<rparr>"

definition sample_facts :: stack_configuration_facts where
  "sample_facts = \<lparr> scf_swarm_id = None, scf_server_id = None, scf_links = None,
     scf_project_name = None, scf_auto_pull = None, scf_run_build = None,
     scf_poll_for_updates = None, scf_auto_update = None, scf_auto_update_all_services = None,
     scf_auto_update_skip_services = None, scf_destroy_before_deploy = None,
     scf_skip_secret_interp = None, scf_linked_repo = None, scf_git_provider = None,
     scf_git_https = None, scf_git_account = None, scf_repo = None, scf_branch = None,
     scf_commit = None, scf_clone_path = None, scf_reclone = None,
     scf_additional_env_files = None, scf_config_files = None, scf_send_alerts = None,
     scf_registry_provider = None, scf_registry_account = None, scf_extra_args = None,
     scf_build_extra_args = None, scf_compose_cmd_wrapper = None,
     scf_compose_cmd_wrapper_include = None, scf_ignore_services = None \<rparr>"

definition sample_command :: system_command where
  "sample_command = \<lparr> sc_path = [], sc_command = [], sc_shell_mode = None \<rparr>"

definition sample_config :: stack_config_detail where
  "sample_config = \<lparr> cd_facts = sample_facts, cd_file_contents = [], cd_environment = [],
     cd_files_on_host = False, cd_run_directory = [], cd_file_paths = [], cd_env_file_path = [],
     cd_pre_deploy = sample_command, cd_post_deploy = sample_command,
     cd_webhook_enabled = False, cd_webhook_secret = ''token'', cd_webhook_force_deploy = False \<rparr>"

lemma option_eqI: "(\<And>x. a = Some x \<longleftrightarrow> b = Some x) \<Longrightarrow> a = b"
  by (cases a; cases b) auto

lemma find_unique_key:
  "distinct (map f xs) \<Longrightarrow> find (\<lambda>x. f x = k) xs = Some y \<longleftrightarrow> y \<in> set xs \<and> f y = k"
  by (induction xs) force+

lemma mset_one_or_many:
  assumes "mset xs = mset ys"
  shows "(case xs of [] \<Rightarrow> a | [x] \<Rightarrow> f x | x # y # zs \<Rightarrow> b) =
    (case ys of [] \<Rightarrow> a | [x] \<Rightarrow> f x | x # y # zs \<Rightarrow> b)"
proof -
  have "length xs = length ys" using assms by (rule mset_eq_length)
  with assms show ?thesis by (auto split: list.splits)
qed

section \<open>Properties\<close>

text \<open>
  C23: the pages of a collection partition it: a page holds the
  records from its offset on, at most \<open>limit\<close> of them; the records before the page, the
  page, and the records from the next offset on are the collection in order; without a next
  offset nothing follows; and the page is marked truncated exactly when some record is outside
  it.
\<close>

theorem collection_pages_partition:
  assumes "length xs \<le> u64_max" "cw_offset window \<le> length xs" "0 < cw_limit window"
    and "collection_page (Some xs) window = (page, info)"
  shows "length page \<le> cw_limit window \<and>
    (case pg_next_offset info of
       Some next \<Rightarrow> take (cw_offset window) xs @ page @ drop next xs = xs \<and>
         next = cw_offset window + length page \<and> cw_offset window < next \<and> next < length xs
     | None \<Rightarrow> take (cw_offset window) xs @ page = xs) \<and>
    (pg_truncated info \<longleftrightarrow> page \<noteq> xs) \<and> pg_returned info = length page \<and>
    pg_total_observed info = Some (length xs)"
proof -
  let ?o = "cw_offset window" and ?l = "cw_limit window"
  have page: "page = take ?l (drop ?o xs)"
    and info: "pg_truncated info = (length page < length xs)" "pg_returned info = length page"
      "pg_total_observed info = Some (length xs)"
      "pg_next_offset info = (let end = min (usize_saturating_add ?o ?l) (length xs)
         in if end < length xs then Some end else None)"
    using assms(4) by (auto simp: collection_page_def Let_def)
  have "min (usize_saturating_add ?o ?l) (length xs) = min (?o + ?l) (length xs)"
    using assms(1) by (auto simp: usize_saturating_add_def)
  with info(4) have next_offset: "pg_next_offset info =
      (if ?o + ?l < length xs then Some (?o + ?l) else None)"
    by (auto simp: Let_def min_def)
  have "take ?o xs @ page @ drop (?o + ?l) xs = xs"
    unfolding page by (metis append_take_drop_id drop_drop add.commute)
  moreover have "page \<noteq> xs \<longleftrightarrow> length page < length xs"
  proof (cases "length page < length xs")
    case True
    then show ?thesis by auto
  next
    case False
    then have "?o = 0 \<or> xs = []" "length xs \<le> ?l" using assms(2) by (auto simp: page)
    then show ?thesis by (auto simp: page)
  qed
  moreover have "length page = min ?l (length xs - ?o)"
    unfolding page by simp
  ultimately show ?thesis
    using assms(2,3) info(1-3) next_offset by (auto split: if_splits)
qed

theorem collection_pages_partition_witness:
  "take 1 ''abc'' @ ''b'' @ drop 2 ''abc'' = ''abc''"
proof -
  let ?w = "\<lparr> cw_offset = 1, cw_limit = 1 \<rparr>"
  have "collection_page (Some ''abc'') ?w = (''b'', \<lparr> pg_available = True, pg_returned = 1,
      pg_total_observed = Some 3, pg_truncated = True, pg_next_offset = Some 2 \<rparr>)"
    by code_simp
  from collection_pages_partition [OF _ _ _ this] show ?thesis by (simp add: u64_max_def)
qed

text \<open>
  C13: selection is exact. A resource is selected if it is the first with that id,
  or, when no resource has that id, if it is the only one with that name up to ASCII case; a
  selector that is no id and names no resource, or several, is refused.
\<close>

theorem select_exact:
  "select_resource resources selector = Inr item \<longleftrightarrow>
     selector \<noteq> [] \<and> length selector \<le> 128 \<and> \<not> has_control selector \<and>
     (find (\<lambda>r. ri_id r = selector) resources = Some item \<or>
      (\<forall>r \<in> set resources. ri_id r \<noteq> selector) \<and>
      filter (\<lambda>r. eq_ignore_ascii_case (ri_name r) selector) resources = [item])"
proof (cases "find (\<lambda>r. ri_id r = selector) resources")
  case None
  then have "\<forall>r \<in> set resources. ri_id r \<noteq> selector" by (simp add: find_None_iff)
  with None show ?thesis
    by (auto simp: select_resource_def rbind_Inr_iff split: list.splits)
next
  case (Some r)
  then have "\<not> (\<forall>r \<in> set resources. ri_id r \<noteq> selector)" by (auto simp: find_Some_iff)
  with Some show ?thesis by (auto simp: select_resource_def rbind_Inr_iff)
qed

theorem select_exact_witness:
  "select_resource
     [\<lparr> ri_id = ''a1'', ri_type = ''Repo'', ri_name = ''Site'', ri_template = None,
        ri_tags = None, ri_info = () \<rparr>] ''SITE'' =
   Inr \<lparr> ri_id = ''a1'', ri_type = ''Repo'', ri_name = ''Site'', ri_template = None,
        ri_tags = None, ri_info = () \<rparr>"
proof -
  have "eq_ignore_ascii_case ''Site'' ''SITE''" by code_simp
  then show ?thesis unfolding select_exact by simp
qed

text \<open>
  When ids are unique, what is selected (or refused) does not
  depend on the order in which Core lists the resources.
\<close>

theorem select_order_independent:
  assumes "distinct (map ri_id rs)" "mset rs = mset rs'"
  shows "select_resource rs selector = select_resource rs' selector"
proof -
  have ids: "distinct (map ri_id rs')"
    using assms by (metis mset_eq_imp_distinct_iff mset_map)
  have "find (\<lambda>r. ri_id r = selector) rs = find (\<lambda>r. ri_id r = selector) rs'"
    using assms(1) ids mset_eq_setD [OF assms(2)]
    by (intro option_eqI) (simp add: find_unique_key)
  moreover have same: "mset (filter (\<lambda>r. eq_ignore_ascii_case (ri_name r) selector) rs) =
      mset (filter (\<lambda>r. eq_ignore_ascii_case (ri_name r) selector) rs')"
    using assms(2) by simp
  ultimately show ?thesis
    by (simp only: select_resource_def mset_one_or_many [OF same])
qed

theorem select_order_independent_witness:
  "select_resource [sample_item ''1'' ''web'', sample_item ''2'' ''api''] ''api'' =
   select_resource [sample_item ''2'' ''api'', sample_item ''1'' ''web''] ''api''"
  by (rule select_order_independent) (simp_all add: sample_item_def)



text \<open>
  C16: the configuration and webhook views of a stack depend on its
  webhook token only through whether it is empty: two stacks that differ in nothing but the
  bytes of a custom token have the same configuration view, commands and webhook status, and
  the serialised configuration has no field for the token.
\<close>

theorem webhook_token_not_disclosed:
  assumes "(token = []) = (token' = [])"
  shows "normalize_stack_config name (config\<lparr>cd_webhook_secret := token\<rparr>) window =
      normalize_stack_config name (config\<lparr>cd_webhook_secret := token'\<rparr>) window \<and>
    normalize_webhook_status (config\<lparr>cd_webhook_secret := token\<rparr>) =
      normalize_webhook_status (config\<lparr>cd_webhook_secret := token'\<rparr>) \<and>
    normalize_commands (config\<lparr>cd_webhook_secret := token\<rparr>) =
      normalize_commands (config\<lparr>cd_webhook_secret := token'\<rparr>) \<and>
    ''webhook_secret'' \<notin> fst ` set (stack_config_json config)"
  using assms
  by (simp add: normalize_stack_config_def normalize_webhook_status_def normalize_commands_def
      stack_config_json_def facts_json_def webhook_secret_source_def)

theorem webhook_token_not_disclosed_witness:
  "normalize_stack_config ''web'' (sample_config\<lparr>cd_webhook_secret := ''t1''\<rparr>) default_window =
     normalize_stack_config ''web'' (sample_config\<lparr>cd_webhook_secret := ''other''\<rparr>) default_window"
  using webhook_token_not_disclosed [of "''t1''" "''other''"] by simp

text \<open>A caller that follows the next offset until there is none, for at most \<open>fuel\<close> pages.\<close>

fun search_walk ::
  "nat \<Rightarrow> 'i resource_list_item list \<Rightarrow> search_input \<Rightarrow> ('i resource_list_item \<Rightarrow> 'o)
    \<Rightarrow> ('o list \<times> bool) option" where
  "search_walk 0 resources input view = None"
| "search_walk (Suc fuel) resources input view =
     (case search_items resources input view of
        Inl _ \<Rightarrow> None
      | Inr page \<Rightarrow>
          (case sp_next_offset page of
             None \<Rightarrow> Some (sp_items page, sp_truncated page)
           | Some offset \<Rightarrow>
               map_option (\<lambda>(rest, truncated). (sp_items page @ rest, truncated))
                 (search_walk fuel resources (input\<lparr>si_offset := offset\<rparr>) view)))"

lemma search_page_step:
  assumes "validate_search input = Inr query" "length resources \<le> u64_max"
    and "si_offset input \<le> length listing"
    and "listing = sort_key search_key (filter (\<lambda>item. resource_matches item query) resources)"
  shows "search_items resources input view = Inr
    \<lparr> sp_items = map view (take (si_limit input) (drop (si_offset input) listing)),
      sp_next_offset = (if si_offset input + si_limit input < length listing
        then supported_offset (si_offset input + si_limit input) else None),
      sp_truncated = (si_offset input + si_limit input < length listing \<and>
        10000 < si_offset input + si_limit input) \<rparr>"
proof -
  have "length listing \<le> length resources" using assms(4) by simp
  then have consumed: "usize_saturating_add (si_offset input)
      (length (take (si_limit input) (drop (si_offset input) listing))) =
      min (si_offset input + si_limit input) (length listing)"
    using assms(2,3) by (auto simp: usize_saturating_add_def min_def)
  show ?thesis
    unfolding search_items_def assms(1) rbind_simps Let_def length_map assms(4) [symmetric] consumed
    by (auto simp: min_def supported_offset_eq)
qed

lemma slice_append:
  assumes "a \<le> b" "b \<le> k"
  shows "drop a (take b xs) @ drop b (take k xs) = drop a (take k xs)"
proof -
  have "drop a (take b xs) = take (b - a) (drop a (take k xs))"
    using assms by (simp add: drop_take min_def)
  moreover have "drop b (take k xs) = drop (b - a) (drop a (take k xs))"
    using assms by simp
  ultimately show ?thesis by (simp only: append_take_drop_id)
qed

lemma search_walk_from:
  assumes "validate_search input = Inr query" "length resources \<le> u64_max"
    and "listing = sort_key search_key (filter (\<lambda>item. resource_matches item query) resources)"
    and "si_offset input \<le> length listing" "length listing < si_offset input + fuel"
  shows "\<exists>k. search_walk fuel resources input view =
      Some (map view (drop (si_offset input) (take k listing)), k < length listing) \<and>
    si_offset input \<le> k \<and> (k < length listing \<longrightarrow> 10000 < k)"
  using assms
proof (induction fuel arbitrary: input)
  case 0
  then show ?case by simp
next
  case (Suc fuel)
  let ?o = "si_offset input" and ?l = "si_limit input"
  have limit: "0 < ?l" and off: "?o \<le> 10000"
    using Suc.prems(1) by (auto simp: validate_search_def validate_limit_def rbind_Inr_iff
        max_offset_def split: if_splits)
  note step = search_page_step [OF Suc.prems(1,2,4,3)]
  have piece: "take ?l (drop ?o listing) = drop ?o (take (?o + ?l) listing)"
    by (simp add: drop_take)
  show ?case
  proof (cases "?o + ?l < length listing \<and> ?o + ?l \<le> 10000")
    case False
    then show ?thesis
      using Suc.prems(4) by (intro exI [of _ "min (?o + ?l) (length listing)"])
        (auto simp: step piece min_def supported_offset_eq)
  next
    case True
    let ?next = "input\<lparr>si_offset := ?o + ?l\<rparr>"
    have "validate_search ?next = Inr query"
      using Suc.prems(1) True by (auto simp: validate_search_def max_offset_def split: if_splits)
    then have "\<exists>k. search_walk fuel resources ?next view =
        Some (map view (drop (si_offset ?next) (take k listing)), k < length listing) \<and>
      si_offset ?next \<le> k \<and> (k < length listing \<longrightarrow> 10000 < k)"
      using True limit Suc.prems(2,3,5) by (intro Suc.IH) auto
    then obtain k where k: "search_walk fuel resources ?next view =
        Some (map view (drop (?o + ?l) (take k listing)), k < length listing)"
      "?o + ?l \<le> k" "k < length listing \<longrightarrow> 10000 < k"
      by auto
    have "drop ?o (take (?o + ?l) listing) @ drop (?o + ?l) (take k listing) = drop ?o (take k listing)"
      using k(2) by (intro slice_append) simp_all
    with k True show ?thesis
      by (intro exI [of _ k]) (auto simp: step piece supported_offset_eq simp flip: map_append)
  qed
qed

text \<open>
  C14: following the next offset from zero ends, and yields the matching
  resources sorted by name (ignoring ASCII case) and id, every one of them exactly once, unless
  the answer says it is truncated; and it says so only after more than 10000 results.
\<close>

theorem search_walk_complete:
  assumes "validate_search input = Inr query" "si_offset input = 0"
    and "length resources \<le> u64_max" "length resources < fuel"
    and "listing = sort_key search_key (filter (\<lambda>item. resource_matches item query) resources)"
  shows "\<exists>k. search_walk fuel resources input view =
      Some (map view (take k listing), k < length listing) \<and>
    (k < length listing \<longrightarrow> 10000 < k)"
proof -
  have "length listing \<le> length resources" using assms(5) by simp
  with assms(4) have "length listing < si_offset input + fuel" by simp
  with search_walk_from [OF assms(1,3,5), of fuel view] assms(2) show ?thesis by auto
qed

theorem search_walk_complete_witness:
  "\<exists>k. search_walk 3 [sample_item ''1'' ''Web'', sample_item ''2'' ''api'']
      \<lparr> si_projection = Detail, si_page = 0, si_query = None, si_offset = 0, si_limit = 1 \<rparr> ri_name =
     Some (map ri_name (take k [sample_item ''2'' ''api'', sample_item ''1'' ''Web'']), k < 2) \<and>
    (k < 2 \<longrightarrow> 10000 < k)"
proof -
  have "to_ascii_lowercase ''api'' < to_ascii_lowercase ''Web''" by code_simp
  then have "\<not> to_ascii_lowercase ''Web'' < to_ascii_lowercase ''api''"
    "\<not> to_ascii_lowercase ''Web'' \<le> to_ascii_lowercase ''api''" by auto
  then have "sort_key search_key (filter (\<lambda>item. resource_matches item None)
      [sample_item ''1'' ''Web'', sample_item ''2'' ''api'']) =
    [sample_item ''2'' ''api'', sample_item ''1'' ''Web'']"
    by (simp add: sample_item_def resource_matches_def search_key_def less_prod_def')
  moreover have "validate_search \<lparr> si_projection = Detail, si_page = 0, si_query = None,
      si_offset = 0, si_limit = 1 \<rparr> = Inr None"
    by (simp add: validate_search_def validate_limit_def validate_query_def ensure_def max_offset_def)
  ultimately show ?thesis
    using search_walk_complete [where fuel = 3 and view = ri_name and query = None and
      resources = "[sample_item ''1'' ''Web'', sample_item ''2'' ''api'']" and
      input = "\<lparr> si_projection = Detail, si_page = 0, si_query = None, si_offset = 0, si_limit = 1 \<rparr>"]
    by (simp add: u64_max_def numeral_2_eq_2)
qed

end
