(* ===== verification/Mcp_History.thy ===== *)
theory Mcp_History
  imports Mcp_Normalize "HOL-Library.AList"
begin

text \<open>
  Configuration history (\<open>crates/komodo-mcp/src/history.rs\<close>): a TOML document of an
  operation is shown with its literal credentials replaced, and its original is kept for the
  native transfer. The TOML and URL parsers are the \<open>toml_edit\<close>, \<open>url\<close> and
  \<open>percent-encoding\<close> crates: parameters, collected in \<open>history_env\<close>. Publishing the
  original is in \<open>Mcp_Errors\<close>; what is replaced and recorded is stated in \<open>Mcp_Endpoints\<close> and
  \<open>Mcp_Documents\<close>.
\<close>

section \<open>Documents\<close>

text \<open>
  An item of a parsed document: a string or another scalar (with the decoration the parser
  keeps), an array of values, an inline table, a table, an array of tables.
\<close>

datatype toml_item =
    TStr string string
  | TScalar string
  | TArray "toml_item list"
  | TInline "(string \<times> toml_item) list"
  | TTable "(string \<times> toml_item) list"
  | TTables "(string \<times> toml_item) list list"

type_synonym table = "(string \<times> toml_item) list"

record history_env =
  parse_toml :: "string \<Rightarrow> (nat \<times> nat) option + table"
  render_toml :: "table \<Rightarrow> string"
  url_normal :: "string \<Rightarrow> string option"
  url_join_invalid :: "string \<Rightarrow> string option"
  url_normal_path :: "string \<Rightarrow> string"
  percent_decode :: "string \<Rightarrow> string option"
  form_first :: "string \<Rightarrow> (string \<times> string) option"

fun item_str :: "toml_item \<Rightarrow> string option" where
  "item_str (TStr v _) = Some v"
| "item_str _ = None"

fun as_table_like :: "toml_item \<Rightarrow> table option" where
  "as_table_like (TInline t) = Some t"
| "as_table_like (TTable t) = Some t"
| "as_table_like _ = None"

text \<open>The item with its table entries changed in place.\<close>

fun set_table :: "toml_item \<Rightarrow> table \<Rightarrow> toml_item" where
  "set_table (TInline _) t = TInline t"
| "set_table (TTable _) t = TTable t"
| "set_table item _ = item"

text \<open>\<open>get_mut(key).and_then(as_table_like_mut)\<close> and a change of the table found there.\<close>

definition in_table ::
  "string \<Rightarrow> (table \<Rightarrow> string list \<Rightarrow> table \<times> string list) \<Rightarrow> table \<Rightarrow> string list
    \<Rightarrow> table \<times> string list" where
  "in_table k f t found =
     (case map_of t k of None \<Rightarrow> (t, found) | Some item \<Rightarrow>
       (case as_table_like item of None \<Rightarrow> (t, found) | Some sub \<Rightarrow>
          (let (sub', found') = f sub found
           in (AList.update k (set_table item sub') t, found'))))"

section \<open>Endpoint URLs\<close>

definition url_credential :: string where
  "url_credential = ''credential-in-original-file''"

fun split_once :: "(char \<Rightarrow> bool) \<Rightarrow> string \<Rightarrow> (string \<times> string) option" where
  "split_once p [] = None"
| "split_once p (c # cs) =
     (if p c then Some ([], cs) else map_option (\<lambda>(a, b). (c # a, b)) (split_once p cs))"

definition rsplit_once :: "(char \<Rightarrow> bool) \<Rightarrow> string \<Rightarrow> (string \<times> string) option" where
  "rsplit_once p s = map_option (\<lambda>(b, a). (rev a, rev b)) (split_once p (rev s))"

definition split_at_find :: "(char \<Rightarrow> bool) \<Rightarrow> string \<Rightarrow> string \<times> string" where
  "split_at_find p s = (takeWhile (\<lambda>c. \<not> p c) s, dropWhile (\<lambda>c. \<not> p c) s)"

definition slashes :: "char \<Rightarrow> bool" where
  "slashes c \<longleftrightarrow> c = CHR ''/'' \<or> byte c = 92"

fun join_with :: "string \<Rightarrow> string list \<Rightarrow> string" where
  "join_with sep [] = []"
| "join_with sep [x] = x"
| "join_with sep (x # y # ys) = x @ sep @ join_with sep (y # ys)"

definition project_endpoint_path ::
  "history_env \<Rightarrow> string \<Rightarrow> string option \<Rightarrow> string option" where
  "project_endpoint_path he path kind =
     (case (if kind = Some ''Slack'' then Some (''services'', 3::nat)
            else if kind = Some ''Discord'' then Some (''webhooks'', 2) else None) of
        None \<Rightarrow> None
      | Some (marker, offset) \<Rightarrow>
          (let parts = split_on (CHR ''/'') (url_normal_path he path)
           in case find (\<lambda>i. percent_decode he (parts ! i) = Some marker) [0..<length parts] of
                None \<Rightarrow> None
              | Some i \<Rightarrow>
                  if i + offset < length parts \<and> parts ! (i + offset) \<noteq> []
                  then Some (join_with ''/'' (parts[i + offset := url_credential])) else None))"

definition project_query_pair :: "history_env \<Rightarrow> string \<Rightarrow> string \<times> bool" where
  "project_query_pair he pair =
     (case form_first he pair of
        Some (key, value) \<Rightarrow>
          if key \<in> {''token'', ''user''} \<and> value \<noteq> [] then
            ((case split_once (\<lambda>c. c = CHR ''='') pair of None \<Rightarrow> [] | Some (k, _) \<Rightarrow> k) @ ''='' @
               url_credential, True)
          else (pair, False)
      | None \<Rightarrow> (pair, False))"

definition project_endpoint_query ::
  "history_env \<Rightarrow> string \<Rightarrow> string option \<Rightarrow> string option" where
  "project_endpoint_query he query kind =
     (if kind \<noteq> Some ''Pushover'' then None
      else let parts = map (project_query_pair he) (split_on (CHR ''&'') query)
           in if list_ex snd parts then Some (join_with ''&'' (map fst parts)) else None)"

definition special_schemes :: "string set" where
  "special_schemes = {''ftp'', ''file'', ''http'', ''https'', ''ws'', ''wss''}"

text \<open>Scheme and the rest after it: \<open>(prefix, rest, special)\<close>.\<close>

definition uri_lead :: "string \<Rightarrow> (string \<times> string \<times> bool) option" where
  "uri_lead original =
     (if prefix ''//'' original then Some (''//'', dropWhile slashes original, True)
      else case split_once (\<lambda>c. c = CHR '':'') original of
        None \<Rightarrow> None
      | Some (scheme, rest) \<Rightarrow>
          if \<not> (case scheme of [] \<Rightarrow> False | c # _ \<Rightarrow> is_ascii_alphabetic c) \<or>
             \<not> list_all (\<lambda>c. is_ascii_alphanumeric c \<or> c \<in> {CHR ''+'', CHR ''-'', CHR ''.''}) scheme
          then None
          else if to_ascii_lowercase scheme \<in> special_schemes
          then Some (scheme @ ''://'', dropWhile slashes rest, True)
          else map_option (\<lambda>r. (scheme @ ''://'', r, False)) (strip_prefix ''//'' rest))"

definition project_authority :: "string \<Rightarrow> string option" where
  "project_authority authority =
     (case rsplit_once (\<lambda>c. c = CHR ''@'') authority of
        None \<Rightarrow> None
      | Some (userinfo, host) \<Rightarrow>
          (case split_once (\<lambda>c. c = CHR '':'') userinfo of
             None \<Rightarrow> None
           | Some (username, password) \<Rightarrow>
               if password \<noteq> [] then Some (username @ '':'' @ url_credential @ ''@'' @ host)
               else None))"

definition or_default :: "'a option \<Rightarrow> 'a \<Rightarrow> 'a" where
  "or_default x d = (case x of None \<Rightarrow> d | Some v \<Rightarrow> v)"

definition project_uri_components ::
  "history_env \<Rightarrow> string \<Rightarrow> string option \<Rightarrow> string option" where
  "project_uri_components he original kind =
     (case uri_lead original of None \<Rightarrow> None | Some (pre, rest, special) \<Rightarrow>
       (let (authority, tail) = split_at_find
              (\<lambda>c. c \<in> {CHR ''/'', CHR ''?'', CHR ''#''} \<or> special \<and> byte c = 92) rest;
            authority' = project_authority authority;
            (resource, fragment) = split_at_find (\<lambda>c. c = CHR ''#'') tail;
            (path, query) = (case split_once (\<lambda>c. c = CHR ''?'') resource of
               None \<Rightarrow> (resource, None) | Some (p, q) \<Rightarrow> (p, Some q));
            path' = project_endpoint_path he path kind;
            query' = (case query of None \<Rightarrow> None | Some q \<Rightarrow> project_endpoint_query he q kind)
        in if authority' = None \<and> path' = None \<and> query' = None then None
           else Some (pre @ or_default authority' authority @ or_default path' path @
             (case query of None \<Rightarrow> [] | Some q \<Rightarrow> ''?'' @ or_default query' q) @ fragment)))"

definition project_endpoint_url ::
  "history_env \<Rightarrow> string \<Rightarrow> string option \<Rightarrow> string option" where
  "project_endpoint_url he original kind =
     (let trimmed = rev (dropWhile (\<lambda>c. byte c \<le> 32) (rev (dropWhile (\<lambda>c. byte c \<le> 32) original)));
          input = filter (\<lambda>c. byte c \<notin> {9, 10, 13}) trimmed;
          relative = prefix ''//'' input
      in case (if relative then url_join_invalid he input else url_normal he input) of
           Some url \<Rightarrow>
             (case project_uri_components he url kind of
                None \<Rightarrow> None
              | Some projected \<Rightarrow>
                  if relative then strip_prefix ''https:'' projected else Some projected)
         | None \<Rightarrow> project_uri_components he input kind)"

section \<open>Replacing literal credentials\<close>

definition credential_marker :: string where
  "credential_marker = ''[credential in originalFile]''"

text \<open>\<open>replace_value\<close> on a string item: the new value keeps the old decoration.\<close>

fun replace_value :: "toml_item \<Rightarrow> string \<Rightarrow> toml_item" where
  "replace_value (TStr _ decor) value = TStr value decor"
| "replace_value item value = TStr value []"

definition replace_literal ::
  "string \<Rightarrow> string \<Rightarrow> table \<Rightarrow> string list \<Rightarrow> table \<times> string list" where
  "replace_literal key path t found =
     (case map_of t key of None \<Rightarrow> (t, found) | Some item \<Rightarrow>
        (case item_str item of None \<Rightarrow> (t, found) | Some v \<Rightarrow>
           if v \<noteq> [] then (AList.update key (replace_value item credential_marker) t,
                           found @ [path @ ''.'' @ key])
           else (t, found)))"

definition project_alerter ::
  "history_env \<Rightarrow> string \<Rightarrow> table \<Rightarrow> string list \<Rightarrow> table \<times> string list" where
  "project_alerter he path config found =
     in_table ''endpoint'' (\<lambda>endpoint found.
       let kind = Option.bind (map_of endpoint ''type'') item_str
       in in_table ''params'' (\<lambda>params found.
            case map_of params ''url'' of None \<Rightarrow> (params, found) | Some item \<Rightarrow>
              (case item_str item of None \<Rightarrow> (params, found) | Some original \<Rightarrow>
                 (case project_endpoint_url he original kind of None \<Rightarrow> (params, found)
                  | Some projected \<Rightarrow>
                      (AList.update ''url'' (replace_value item projected) params,
                       found @ [path @ ''.endpoint.params.url'']))))
          endpoint found) config found"

definition project_resource ::
  "history_env \<Rightarrow> string \<Rightarrow> string \<Rightarrow> table \<Rightarrow> string list \<Rightarrow> table \<times> string list" where
  "project_resource he kind path resource found =
     in_table ''config'' (\<lambda>config found.
       if kind \<in> {''server'', ''servers''} then replace_literal ''passkey'' path config found
       else if kind \<in> {''builder'', ''builders''} then
         (if Option.bind (map_of config ''type'') item_str = Some ''Url''
          then in_table ''params'' (replace_literal ''passkey'' (path @ ''.params'')) config found
          else (config, found))
       else if kind \<in> {''alerter'', ''alerters''} then project_alerter he path config found
       else replace_literal ''webhook_secret'' path config found) resource found"

fun project_tables ::
  "history_env \<Rightarrow> string \<Rightarrow> nat \<Rightarrow> table list \<Rightarrow> string list \<Rightarrow> table list \<times> string list" where
  "project_tables he kind i [] found = ([], found)"
| "project_tables he kind i (t # ts) found =
     (let (t', found') = project_resource he kind (kind @ ''['' @ show_nat i @ ''].config'') t found;
          (ts', found'') = project_tables he kind (Suc i) ts found'
      in (t' # ts', found''))"

fun project_values ::
  "history_env \<Rightarrow> string \<Rightarrow> nat \<Rightarrow> toml_item list \<Rightarrow> string list
    \<Rightarrow> toml_item list \<times> string list" where
  "project_values he kind i [] found = ([], found)"
| "project_values he kind i (v # vs) found =
     (let (v', found') = (case v of
            TInline t \<Rightarrow>
              (let (t', fs) = project_resource he kind
                     (kind @ ''['' @ show_nat i @ ''].config'') t found
               in (TInline t', fs))
          | _ \<Rightarrow> (v, found));
          (vs', found'') = project_values he kind (Suc i) vs found'
      in (v' # vs', found''))"

definition project_collection ::
  "history_env \<Rightarrow> string \<Rightarrow> toml_item \<Rightarrow> string list \<Rightarrow> toml_item \<times> string list" where
  "project_collection he kind collection found =
     (case collection of
        TTables ts \<Rightarrow>
          (let (ts', fs) = project_tables he kind 0 ts found in (TTables ts', fs))
      | TArray vs \<Rightarrow>
          (let (vs', fs) = project_values he kind 0 vs found in (TArray vs', fs))
      | _ \<Rightarrow>
          (case as_table_like collection of None \<Rightarrow> (collection, found) | Some t \<Rightarrow>
             (let (t', fs) = project_resource he kind (kind @ ''.config'') t found
              in (set_table collection t', fs))))"

definition history_kinds :: "string list" where
  "history_kinds = [''server'', ''servers'', ''builder'', ''builders'', ''stack'', ''stacks'',
     ''repo'', ''repos'', ''build'', ''builds'', ''resource_sync'', ''resource_syncs'',
     ''procedure'', ''procedures'', ''action'', ''actions'', ''alerter'', ''alerters'']"

fun project_document :: "history_env \<Rightarrow> table \<Rightarrow> string list \<Rightarrow> table \<times> string list" where
  "project_document he [] found = ([], found)"
| "project_document he ((kind, collection) # rest) found =
     (let (collection', found') =
            (if kind \<in> set history_kinds then project_collection he kind collection found
             else (collection, found));
          (rest', found'') = project_document he rest found'
      in ((kind, collection') # rest', found''))"

section \<open>Prepared documents\<close>

record history_format_error =
  hfe_message :: string
  hfe_byte_range :: "(nat \<times> nat) option"

record prepared_document =
  pd_toml :: string
  pd_credential_fields :: "string list"
  pd_original :: "string option"
  pd_format_error :: "history_format_error option"

definition prepare_document :: "history_env \<Rightarrow> string \<Rightarrow> prepared_document" where
  "prepare_document he original =
     (case parse_toml he original of
        Inl span \<Rightarrow>
          \<lparr> pd_toml = [], pd_credential_fields = [], pd_original = Some original,
            pd_format_error = Some \<lparr> hfe_message = ''Core history document is not valid TOML'',
              hfe_byte_range = span \<rparr> \<rparr>
      | Inr document \<Rightarrow>
          (let (document', found) = project_document he document []
           in if found = []
              then \<lparr> pd_toml = original, pd_credential_fields = [], pd_original = None,
                     pd_format_error = None \<rparr>
              else \<lparr> pd_toml = render_toml he document', pd_credential_fields = found,
                     pd_original = Some original, pd_format_error = None \<rparr>))"

section \<open>Lemmas\<close>

text \<open>The table of an entry.\<close>

definition sub_table :: "string \<Rightarrow> table \<Rightarrow> table option" where
  "sub_table k t = Option.bind (map_of t k) as_table_like"

lemma as_table_set_table [simp]:
  "as_table_like item = Some t \<Longrightarrow> as_table_like (set_table item t') = Some t'"
  by (cases item) auto

lemma split_once_Some: "split_once p s = Some (a, b) \<Longrightarrow> \<exists>c. p c \<and> s = a @ c # b"
  by (induction s arbitrary: a) (auto split: if_splits)

text \<open>A document with one stack and its webhook secret.\<close>

definition sample_history :: history_env where
  "sample_history = \<lparr>
     parse_toml = (\<lambda>_. Inr [(''stack'', TTables [[(''config'',
        TTable [(''webhook_secret'', TStr ''s3cret'' ''''), (''branch'', TStr ''main'' '''')])]])]),
     render_toml = (\<lambda>_. ''toml''), url_normal = (\<lambda>_. None), url_join_invalid = (\<lambda>_. None),
     url_normal_path = (\<lambda>p. p), percent_decode = Some, form_first = (\<lambda>_. None) \<rparr>"

end
