(* ===== verification/Mcp_Files.thy ===== *)
theory Mcp_Files
  imports Mcp_Inputs Io
begin

text \<open>
  The credential byte-transfer boundary (\<open>crates/komodo-mcp/src/files.rs\<close>): the two
  operations the tools call on the transport's file service, the laws the tools rely on
  (\<open>credential_files\<close>), and what follows for any client from these laws alone. The server's
  \<open>TransferFiles\<close> interprets the locale in \<open>Server_Files\<close>.
\<close>

text \<open>
  An implementation of the trait: operations on its state \<open>'f\<close>. Each takes the clock, as the
  sequence of the instants it reads, and answers with a value, an error, or a panic.
\<close>

record 'f file_ops =
  fo_publish :: "(nat \<Rightarrow> nat) \<Rightarrow> string \<Rightarrow> string \<Rightarrow> string \<Rightarrow> string \<Rightarrow> 'f
    \<Rightarrow> (mcp_error exn + file_value) \<times> 'f"
  fo_take :: "(nat \<Rightarrow> nat) \<Rightarrow> string \<Rightarrow> string \<Rightarrow> 'f \<Rightarrow> (mcp_error exn + string) \<times> 'f"

section \<open>File metadata as JSON\<close>

definition file_value_json :: "file_value \<Rightarrow> json" where
  "file_value_json f = JObj
     ([(''uri'', JStr (fv_uri f))] @
      (case fv_name f of None \<Rightarrow> [] | Some n \<Rightarrow> [(''name'', JStr n)]) @
      (case fv_mime_type f of None \<Rightarrow> [] | Some m \<Rightarrow> [(''mimeType'', JStr m)]) @
      (case fv_size f of None \<Rightarrow> [] | Some k \<Rightarrow> [(''size'', JInt (int k))]) @
      (case fv_digest f of None \<Rightarrow> [] | Some d \<Rightarrow>
         [(''digest'', JObj [(''algorithm'', JStr (fd_algorithm d)), (''value'', JStr (fd_value d))])]))"

definition de_file_digest :: "json \<Rightarrow> file_digest option" where
  "de_file_digest j =
     obind (as_struct [''algorithm'', ''value''] 2 j) (\<lambda>fs.
     obind (field_req de_str ''algorithm'' fs) (\<lambda>a.
     obind (field_req de_str ''value'' fs) (\<lambda>v.
       Some \<lparr> fd_algorithm = a, fd_value = v \<rparr>)))"

definition de_file_value :: "json \<Rightarrow> file_value option" where
  "de_file_value j =
     obind (as_struct [''uri'', ''name'', ''mimeType'', ''size'', ''digest''] 1 j) (\<lambda>fs.
     obind (field_req de_str ''uri'' fs) (\<lambda>u.
     obind (field_opt de_str ''name'' fs) (\<lambda>n.
     obind (field_opt de_str ''mimeType'' fs) (\<lambda>m.
     obind (field_opt (de_uint u64_max) ''size'' fs) (\<lambda>k.
     obind (field_opt de_file_digest ''digest'' fs) (\<lambda>d.
       Some \<lparr> fv_uri = u, fv_name = n, fv_mime_type = m, fv_size = k, fv_digest = d \<rparr>))))))"

lemma de_file_digest_roundtrip:
  "de_file_digest (JObj [(''algorithm'', JStr a), (''value'', JStr v)]) =
     Some \<lparr> fd_algorithm = a, fd_value = v \<rparr>"
  by (simp add: de_file_digest_def as_struct_def known_fields_def field_req_def de_str_def as_str_def)

text \<open>The metadata read back is the metadata written, when the size is a \<open>u64\<close>.\<close>

lemma de_file_value_roundtrip:
  assumes "case fv_size f of None \<Rightarrow> True | Some k \<Rightarrow> k \<le> u64_max"
  shows "de_file_value (file_value_json f) = Some f"
  using assms
  by (cases "fv_name f"; cases "fv_mime_type f"; cases "fv_size f"; cases "fv_digest f")
    (simp_all add: de_file_value_def file_value_json_def as_struct_def known_fields_def field_req_def
      field_opt_def field_def_def de_option_def de_str_def as_str_def de_uint_def de_file_digest_roundtrip)

section \<open>The contract\<close>

text \<open>What the service holds under a URI: the owner, the bytes, and whether it was uploaded.\<close>

record held_file =
  hf_owner :: string
  hf_bytes :: string
  hf_uploaded :: bool

locale credential_files =
  fixes publish :: "(nat \<Rightarrow> nat) \<Rightarrow> string \<Rightarrow> string \<Rightarrow> string \<Rightarrow> string \<Rightarrow> 'f
      \<Rightarrow> (mcp_error exn + file_value) \<times> 'f"
    and take :: "(nat \<Rightarrow> nat) \<Rightarrow> string \<Rightarrow> string \<Rightarrow> 'f \<Rightarrow> (mcp_error exn + string) \<times> 'f"
    and held :: "'f \<Rightarrow> string \<Rightarrow> held_file option"
    and invar :: "'f \<Rightarrow> bool"
  assumes publish_held: "invar s \<Longrightarrow> publish clk owner name mime bytes s = (Inr f, s') \<Longrightarrow>
      held s' (fv_uri f) = Some \<lparr> hf_owner = owner, hf_bytes = bytes, hf_uploaded = False \<rparr>"
    and publish_size: "invar s \<Longrightarrow> publish clk owner name mime bytes s = (Inr f, s') \<Longrightarrow>
      fv_size f = Some (length bytes) \<and> length bytes \<le> u64_max \<and> fv_digest f = None"
    and publish_answers: "invar s \<Longrightarrow> publish clk owner name mime bytes s = (Inl x, s') \<Longrightarrow>
      \<exists>e. x = Fail e \<and> err_data e = None"
    and publish_frame: "invar s \<Longrightarrow> publish clk owner name mime bytes s = (published, s') \<Longrightarrow>
      held s' u = Some h \<Longrightarrow> held s u = Some h \<or> (\<exists>f. published = Inr f \<and> u = fv_uri f)"
    and publish_invar: "invar s \<Longrightarrow> publish clk owner name mime bytes s = (published, s') \<Longrightarrow> invar s'"
    and take_answers: "invar s \<Longrightarrow> take clk owner u s = (Inl x, s') \<Longrightarrow> \<exists>e. x = Fail e \<and> err_data e = None"
    and take_held: "invar s \<Longrightarrow> take clk owner u s = (Inr bytes, s') \<Longrightarrow>
      held s u = Some \<lparr> hf_owner = owner, hf_bytes = bytes, hf_uploaded = True \<rparr> \<and>
      held s' u = None"
    and take_frame: "invar s \<Longrightarrow> take clk owner u s = (taken, s') \<Longrightarrow> held s' v = Some h \<Longrightarrow>
      held s v = Some h"
    and take_invar: "invar s \<Longrightarrow> take clk owner u s = (taken, s') \<Longrightarrow> invar s'"

text \<open>The calls a client makes on the service, and a run of them.\<close>

datatype file_call =
    Publish "nat \<Rightarrow> nat" string string string string
  | Take "nat \<Rightarrow> nat" string string

datatype file_answer =
    Published "mcp_error exn + file_value"
  | Taken string "mcp_error exn + string"

fun file_step :: "'f file_ops \<Rightarrow> file_call \<Rightarrow> 'f \<Rightarrow> file_answer \<times> 'f" where
  "file_step ops (Publish clk owner name mime bytes) s =
     (let (r, s') = fo_publish ops clk owner name mime bytes s in (Published r, s'))"
| "file_step ops (Take clk owner u) s =
     (let (r, s') = fo_take ops clk owner u s in (Taken u r, s'))"

fun file_run :: "'f file_ops \<Rightarrow> file_call list \<Rightarrow> 'f \<Rightarrow> file_answer list \<times> 'f" where
  "file_run ops [] s = ([], s)"
| "file_run ops (c # cs) s =
     (let (a, s') = file_step ops c s; (as, s'') = file_run ops cs s' in (a # as, s''))"

context credential_files begin

abbreviation ops :: "'f file_ops" where
  "ops \<equiv> \<lparr> fo_publish = publish, fo_take = take \<rparr>"

text \<open>Under \<open>u\<close> there is no upload to take.\<close>

definition no_upload :: "string \<Rightarrow> 'f \<Rightarrow> bool" where
  "no_upload u s \<longleftrightarrow> (\<forall>h. held s u = Some h \<longrightarrow> \<not> hf_uploaded h)"

lemma no_upload_refused: "invar s \<Longrightarrow> no_upload u s \<Longrightarrow> take clk owner u s = (r, s') \<Longrightarrow> \<exists>e. r = Inl e"
  using take_held [of s clk owner u] by (cases r) (auto simp: no_upload_def)

lemma take_no_upload: "invar s \<Longrightarrow> take clk owner u s = (Inr bytes, s') \<Longrightarrow> no_upload u s'"
  by (simp add: no_upload_def take_held)

lemma file_step_invar: "invar s \<Longrightarrow> file_step ops c s = (a, s') \<Longrightarrow> invar s'"
  by (cases c) (auto split: prod.splits intro: publish_invar take_invar)

lemma file_step_no_upload:
  assumes "invar s" "no_upload u s" "file_step ops c s = (a, s')"
  shows "no_upload u s' \<and> (\<forall>bytes. a \<noteq> Taken u (Inr bytes))"
proof (cases c)
  case (Publish clk owner name mime bytes)
  then obtain r where r: "publish clk owner name mime bytes s = (r, s')" "a = Published r"
    using assms(3) by (auto split: prod.splits)
  have "\<not> hf_uploaded h" if "held s' u = Some h" for h
  proof (cases "\<exists>f. r = Inr f \<and> u = fv_uri f")
    case True
    with publish_held [OF assms(1)] r(1) that show ?thesis by auto
  next
    case False
    with publish_frame [OF assms(1) r(1) that] assms(2) show ?thesis by (auto simp: no_upload_def)
  qed
  with r(2) show ?thesis by (simp add: no_upload_def)
next
  case (Take clk owner v)
  then obtain r where r: "take clk owner v s = (r, s')" "a = Taken v r"
    using assms(3) by (auto split: prod.splits)
  have "no_upload u s'"
    using take_frame [OF assms(1) r(1)] assms(2) by (auto simp: no_upload_def)
  with no_upload_refused [OF assms(1,2)] r show ?thesis by auto
qed

lemma file_run_no_upload:
  "invar s \<Longrightarrow> no_upload u s \<Longrightarrow> file_run ops cs s = (answers, s') \<Longrightarrow>
     invar s' \<and> no_upload u s' \<and> (\<forall>bytes. Taken u (Inr bytes) \<notin> set answers)"
proof (induction cs arbitrary: s answers)
  case Nil
  then show ?case by simp
next
  case (Cons c cs)
  obtain a s1 where a: "file_step ops c s = (a, s1)" by fastforce
  obtain as where as: "file_run ops cs s1 = (as, s')" "answers = a # as"
    using Cons.prems(3) a by (auto split: prod.splits)
  from file_step_no_upload [OF Cons.prems(1,2) a] file_step_invar [OF Cons.prems(1) a]
    Cons.IH [OF _ _ as(1)] as(2)
  show ?case by auto
qed

text \<open>An upload is taken at most once, by its owner, whatever clients do afterwards.\<close>

lemma taken_once:
  assumes "invar s" "take clk owner u s = (Inr bytes, s1)" "file_run ops cs s1 = (answers, s')"
  shows "held s u = Some \<lparr> hf_owner = owner, hf_bytes = bytes, hf_uploaded = True \<rparr> \<and>
    (\<forall>bytes'. Taken u (Inr bytes') \<notin> set answers)"
  using take_held [OF assms(1,2)]
    file_run_no_upload [OF take_invar [OF assms(1,2)] take_no_upload [OF assms(1,2)] assms(3)]
  by blast

end

end
