(* ===== verification/Mcp_Execution.thy ===== *)
theory Mcp_Execution
  imports Mcp_Inputs
begin

text \<open>
  The request budget of \<open>crates/komodo-mcp/src/execution.rs\<close>: a deadline and a
  cancellation token shared by the transport and the tool call. Whether the token is
  cancelled, like the clock, is an observation: \<open>eb_cancelled b k\<close> is the token's state at
  the observation numbered \<open>k\<close>, \<open>clk k\<close> the instant read there.
\<close>

record budget =
  eb_deadline :: nat
  eb_cancelled :: "nat \<Rightarrow> bool"

definition ended_error :: mcp_error where
  "ended_error = internal_error
     ''request cancelled or deadline exceeded; a submitted mutation may have taken effect; reconcile with its documented read before another write''
     (Some (JObj [(''outcome'', JStr ''unknown''), (''retrySafe'', JBool False),
        (''operatorVerificationRequired'', JBool True)]))"

definition budget_check :: "budget \<Rightarrow> (nat \<Rightarrow> nat) \<Rightarrow> nat \<Rightarrow> mcp_error + unit" where
  "budget_check b clk k =
     (if eb_cancelled b k \<or> eb_deadline b \<le> clk k then Inl ended_error else Inr ())"

text \<open>\<open>ended()\<close>: the first of the two awaited events that is there; the future is ready when one is.\<close>

definition budget_ended :: "budget \<Rightarrow> (nat \<Rightarrow> nat) \<Rightarrow> nat \<Rightarrow> bool" where
  "budget_ended b clk k \<longleftrightarrow> (if eb_cancelled b k then True else eb_deadline b \<le> clk k)"

lemma budget_check_Inr [simp]: "budget_check b clk k = Inr u \<longleftrightarrow> \<not> budget_ended b clk k"
  by (simp add: budget_check_def budget_ended_def)

lemma budget_check_Inl [simp]:
  "budget_check b clk k = Inl e \<longleftrightarrow> budget_ended b clk k \<and> e = ended_error"
  by (auto simp: budget_check_def budget_ended_def)

end
