(* ===== verification/Server_Files.thy ===== *)
theory Server_Files
  imports Mcp_Files Mcp_Execution "HOL-Library.AList"
begin

text \<open>
  The transfer store for literal credential bytes (\<open>crates/komodo-server/src/files.rs\<close>): what
  a principal may upload or download, under which one-time grant, for how long and within
  which capacity. The \<open>HashMap\<close> behind the mutex is an association list without duplicate
  keys (an invariant). An operation holds the mutex from its first access to its end, so it is
  one step; it takes the clock as the sequence \<open>clk 0, clk 1, \<dots>\<close> of the instants it reads.
  Only a panic inside a step could poison the mutex; there is none (\<open>stored_when_bounded\<close>).
\<close>

section \<open>State\<close>

definition uri_prefix :: string where "uri_prefix = ''mcp-file://komodo/''"
definition http_prefix :: string where "http_prefix = ''/file-transfers/''"
definition max_upload_bytes :: nat where "max_upload_bytes = 256 * 1024"
definition max_download_bytes :: nat where "max_download_bytes = 2 * 1024 * 1024"
definition max_entries :: nat where "max_entries = 64"
definition max_stored_bytes :: nat where "max_stored_bytes = 16 * 1024 * 1024"
definition file_ttl :: nat where "file_ttl = secs 300"
definition grant_ttl :: nat where "grant_ttl = secs 60"

datatype direction = Upload | Download

record grant =
  gr_hash :: string
  gr_expires :: nat
  gr_direction :: direction

text \<open>Bytes with the semaphore permits they own; dropping them returns the permits.\<close>

record stored_bytes =
  sb_bytes :: string
  sb_permits :: nat

record file_entry =
  fe_owner :: string
  fe_file :: file_value
  fe_bytes :: "stored_bytes option"
  fe_expected_digest :: "string option"
  fe_expected_size :: "nat option"
  fe_expires :: nat
  fe_grant :: "grant option"
  fe_uploaded :: bool

type_synonym entry_table = "(string \<times> file_entry) list"

text \<open>
  The store: entries, free permits of the capacity semaphore, and how many times the
  operating system's entropy has been asked for.
\<close>

record transfer_files =
  tf_entries :: entry_table
  tf_capacity :: nat
  tf_draws :: nat

definition default_transfer_files :: transfer_files where
  "default_transfer_files = \<lparr> tf_entries = [], tf_capacity = max_stored_bytes, tf_draws = 0 \<rparr>"

text \<open>
  What the module takes from \<open>getrandom\<close> (32 bytes per draw, or a failure), \<open>sha2\<close>,
  \<open>base64\<close> and \<open>url\<close> (\<open>join\<close> followed by \<open>as_str\<close>).
\<close>

record file_env =
  fx_entropy :: "nat \<Rightarrow> string option"
  fx_sha256 :: "string \<Rightarrow> string"
  fx_encode :: "string \<Rightarrow> string"
  fx_decode :: "string \<Rightarrow> string option"
  fx_join :: "string \<Rightarrow> string \<Rightarrow> string option"

section \<open>Helpers\<close>

definition random_id :: "file_env \<Rightarrow> transfer_files \<Rightarrow> (mcp_error + string) \<times> transfer_files" where
  "random_id fx s =
     (map_err (\<lambda>_. internal_error ''file authorization entropy unavailable'' None)
        (map_sum id (fx_encode fx) (ok_or () (fx_entropy fx (tf_draws s)))),
      s\<lparr>tf_draws := Suc (tf_draws s)\<rparr>)"

definition file_unavailable :: mcp_error where
  "file_unavailable = invalid_params ''credential file is unavailable for this request'' None"

definition capacity_unavailable :: mcp_error where
  "capacity_unavailable = internal_error ''credential transfer capacity unavailable'' None"

text \<open>Permits owned by the bytes of an entry, and of a table.\<close>

definition entry_permits :: "file_entry \<Rightarrow> nat" where
  "entry_permits e = (case fe_bytes e of None \<Rightarrow> 0 | Some b \<Rightarrow> sb_permits b)"

definition table_permits :: "entry_table \<Rightarrow> nat" where
  "table_permits es = sum_list (map (\<lambda>(_, e). entry_permits e) es)"

text \<open>\<open>retain\<close> drops the expired entries, and with them their permits.\<close>

definition prune :: "nat \<Rightarrow> transfer_files \<Rightarrow> transfer_files" where
  "prune t s = s\<lparr>
     tf_entries := filter (\<lambda>(_, e). t < fe_expires e) (tf_entries s),
     tf_capacity := tf_capacity s +
       table_permits (filter (\<lambda>(_, e). \<not> t < fe_expires e) (tf_entries s)) \<rparr>"

definition admit_entry :: "entry_table \<Rightarrow> mcp_error + unit" where
  "admit_entry es =
     (if max_entries \<le> length es then Inl capacity_unavailable else Inr ())"

definition is_id_byte :: "char \<Rightarrow> bool" where
  "is_id_byte c \<longleftrightarrow> is_ascii_alphanumeric c \<or> c = CHR ''-'' \<or> c = CHR ''_''"

definition file_id :: "string \<Rightarrow> mcp_error + string" where
  "file_id uri = rbind (ok_or file_unavailable (strip_prefix uri_prefix uri)) (\<lambda>fid.
     if length fid \<noteq> 43 \<or> \<not> list_all is_id_byte fid then Inl file_unavailable else Inr fid)"

definition descriptor :: "file_env \<Rightarrow> nat \<Rightarrow> string \<Rightarrow> string \<Rightarrow> direction \<Rightarrow> transfer_files
    \<Rightarrow> (mcp_error + grant \<times> json) \<times> transfer_files" where
  "descriptor fx t base fid dir s =
     (case random_id fx s of
        (Inl e, s') \<Rightarrow> (Inl e, s')
      | (Inr token, s') \<Rightarrow>
          (case fx_join fx base (http_prefix @ fid) of
             None \<Rightarrow> (Inl (internal_error ''file transfer URL unavailable'' None), s')
           | Some url \<Rightarrow>
               (Inr (\<lparr> gr_hash = fx_sha256 fx token, gr_expires = t + grant_ttl,
                       gr_direction = dir \<rparr>,
                     JObj [(''transport'', JStr ''http''),
                           (''method'', JStr (if dir = Upload then ''PUT'' else ''GET'')),
                           (''url'', JStr url),
                           (''headers'', JObj [(''Authorization'', JStr (''Bearer '' @ token))])]),
                s')))"

definition is_http :: "json \<Rightarrow> bool" where
  "is_http v \<longleftrightarrow> v = JStr ''http''"

definition supports_http :: "obj \<Rightarrow> string \<Rightarrow> bool" where
  "supports_http meta dir =
     (case Option.bind (map_of meta ''io.modelcontextprotocol/clientCapabilities'') (jget ''files'') of
        None \<Rightarrow> False
      | Some v \<Rightarrow>
          Option.bind (jget dir v) as_bool = Some True \<and>
          (case jget ''transports'' v of Some (JArr values) \<Rightarrow> list_ex is_http values | _ \<Rightarrow> False))"

section \<open>Authorisation parameters\<close>

record upload_params =
  up_name :: "string option"
  up_mime_type :: "string option"
  up_size :: "nat option"
  up_digest :: "file_digest option"

definition de_meta :: "json \<Rightarrow> obj option" where
  "de_meta j = (case j of JObj fs \<Rightarrow> Some fs | _ \<Rightarrow> None)"

definition de_transfer_digest :: "json \<Rightarrow> file_digest option" where
  "de_transfer_digest j =
     obind (as_struct [''algorithm'', ''value''] 2 j) (\<lambda>fs.
     obind (field_req de_str ''algorithm'' fs) (\<lambda>a.
     obind (field_req de_str ''value'' fs) (\<lambda>v.
       Some \<lparr> fd_algorithm = a, fd_value = v \<rparr>)))"

definition de_upload_params :: "json \<Rightarrow> upload_params option" where
  "de_upload_params j =
     obind (as_struct [''_meta'', ''name'', ''mimeType'', ''size'', ''digest''] 5 j) (\<lambda>fs.
     obind (field_def de_meta [] ''_meta'' fs) (\<lambda>_.
     obind (field_opt de_str ''name'' fs) (\<lambda>n.
     obind (field_opt de_str ''mimeType'' fs) (\<lambda>m.
     obind (field_opt (de_uint u64_max) ''size'' fs) (\<lambda>k.
     obind (field_opt de_transfer_digest ''digest'' fs) (\<lambda>d.
       Some \<lparr> up_name = n, up_mime_type = m, up_size = k, up_digest = d \<rparr>))))))"

record download_params =
  dp_uri :: string

definition de_download_params :: "json \<Rightarrow> download_params option" where
  "de_download_params j =
     obind (as_struct [''_meta'', ''uri''] 2 j) (\<lambda>fs.
     obind (field_def de_meta [] ''_meta'' fs) (\<lambda>_.
     obind (field_req de_str ''uri'' fs) (\<lambda>u. Some \<lparr> dp_uri = u \<rparr>)))"

section \<open>Operations\<close>

text \<open>\<open>store_bytes\<close>: the conversion of the length to \<open>u32\<close> is an \<open>expect\<close>.\<close>

definition store_bytes ::
  "string \<Rightarrow> transfer_files \<Rightarrow> (mcp_error exn + stored_bytes) \<times> transfer_files" where
  "store_bytes bytes s =
     (if u32_max < length bytes then (Inl Panic, s)
      else if tf_capacity s < length bytes then (Inl (Fail capacity_unavailable), s)
      else (Inr \<lparr> sb_bytes = bytes, sb_permits = length bytes \<rparr>,
            s\<lparr>tf_capacity := tf_capacity s - length bytes\<rparr>))"

definition valid_grant :: "file_env \<Rightarrow> nat \<Rightarrow> file_entry \<Rightarrow> string \<Rightarrow> direction \<Rightarrow> bool" where
  "valid_grant fx t e token dir =
     (case fe_grant e of None \<Rightarrow> False
      | Some g \<Rightarrow> gr_direction g = dir \<and> t < gr_expires g \<and> fx_sha256 fx token = gr_hash g)"

definition admits_grant :: "file_env \<Rightarrow> (nat \<Rightarrow> nat) \<Rightarrow> string \<Rightarrow> string \<Rightarrow> direction
    \<Rightarrow> transfer_files \<Rightarrow> bool \<times> transfer_files" where
  "admits_grant fx clk fid token dir s =
     (let s' = prune (clk 0) s in
      (case map_of (tf_entries s') fid of None \<Rightarrow> False
       | Some e \<Rightarrow> valid_grant fx (clk 1) e token dir \<and>
           (fe_bytes e \<noteq> None) = (dir = Download),
       s'))"

text \<open>Shutdown: the registry is cleared.\<close>

definition clear_entries :: "transfer_files \<Rightarrow> transfer_files" where
  "clear_entries s = s\<lparr>tf_entries := [],
     tf_capacity := tf_capacity s + table_permits (tf_entries s)\<rparr>"

definition too_long_name :: "string option \<Rightarrow> bool" where
  "too_long_name v = (case v of None \<Rightarrow> False | Some v \<Rightarrow> 255 < length v \<or> has_control v)"

definition parse_upload_digest :: "file_env \<Rightarrow> file_digest option \<Rightarrow> mcp_error + string option" where
  "parse_upload_digest fx d =
     (case d of None \<Rightarrow> Inr None
      | Some d \<Rightarrow>
          if fd_algorithm d \<noteq> ''sha-256''
          then Inl (invalid_params ''unsupported upload digest algorithm'' None)
          else (case fx_decode fx (fd_value d) of
              None \<Rightarrow> Inl (invalid_params ''invalid upload digest'' None)
            | Some v \<Rightarrow> if length v = 32 then Inr (Some v)
                else Inl (invalid_params ''invalid upload digest'' None)))"

definition collision :: mcp_error where
  "collision = internal_error ''file identifier collision'' None"

definition insert_entry :: "string \<Rightarrow> file_entry \<Rightarrow> transfer_files \<Rightarrow> transfer_files" where
  "insert_entry fid e s = s\<lparr>tf_entries := AList.update fid e (tf_entries s)\<rparr>"

definition authorize_upload :: "file_env \<Rightarrow> (nat \<Rightarrow> nat) \<Rightarrow> string \<Rightarrow> upload_params \<Rightarrow> string
    \<Rightarrow> transfer_files \<Rightarrow> (mcp_error + json) \<times> transfer_files" where
  "authorize_upload fx clk owner p base s =
     (if (case up_size p of None \<Rightarrow> False | Some k \<Rightarrow> max_upload_bytes < k) \<or>
         too_long_name (up_name p) \<or> too_long_name (up_mime_type p)
      then (Inl (invalid_params ''credential upload metadata exceeds its bounds'' None), s)
      else case parse_upload_digest fx (up_digest p) of Inl e \<Rightarrow> (Inl e, s)
      | Inr expected_digest \<Rightarrow>
      case random_id fx s of (Inl e, s1) \<Rightarrow> (Inl e, s1)
      | (Inr fid, s1) \<Rightarrow>
      case descriptor fx (clk 0) base fid Upload s1 of (Inl e, s2) \<Rightarrow> (Inl e, s2)
      | (Inr (g, upload), s2) \<Rightarrow>
      (let file = \<lparr> fv_uri = uri_prefix @ fid, fv_name = up_name p,
             fv_mime_type = up_mime_type p, fv_size = up_size p, fv_digest = None \<rparr>;
           s3 = prune (clk 1) s2 in
       case admit_entry (tf_entries s3) of Inl e \<Rightarrow> (Inl e, s3)
       | Inr _ \<Rightarrow>
         if map_of (tf_entries s3) fid \<noteq> None then (Inl collision, s3)
         else (Inr (JObj [(''file'', file_value_json file), (''upload'', upload)]),
           insert_entry fid
             \<lparr> fe_owner = owner, fe_file = file, fe_bytes = None,
               fe_expected_digest = expected_digest, fe_expected_size = up_size p,
               fe_expires = clk 2 + file_ttl, fe_grant = Some g, fe_uploaded = True \<rparr> s3)))"

definition authorize_download :: "file_env \<Rightarrow> (nat \<Rightarrow> nat) \<Rightarrow> string \<Rightarrow> download_params \<Rightarrow> string
    \<Rightarrow> transfer_files \<Rightarrow> (mcp_error + json) \<times> transfer_files" where
  "authorize_download fx clk owner p base s =
     (case file_id (dp_uri p) of Inl e \<Rightarrow> (Inl e, s)
      | Inr fid \<Rightarrow>
      case descriptor fx (clk 0) base fid Download s of (Inl e, s1) \<Rightarrow> (Inl e, s1)
      | (Inr (g, download), s1) \<Rightarrow>
      (let s2 = prune (clk 1) s1 in
       case map_of (tf_entries s2) fid of None \<Rightarrow> (Inl file_unavailable, s2)
       | Some e \<Rightarrow>
         if fe_owner e = owner \<and> fe_bytes e \<noteq> None
         then (Inr (JObj [(''file'', file_value_json (fe_file e)), (''download'', download),
                 (''sensitivity'', JStr ''secret'')]),
               insert_entry fid (e\<lparr>fe_grant := Some g\<rparr>) s2)
         else (Inl file_unavailable, s2)))"

definition upload_bytes :: "file_env \<Rightarrow> (nat \<Rightarrow> nat) \<Rightarrow> string \<Rightarrow> string \<Rightarrow> string
    \<Rightarrow> transfer_files \<Rightarrow> (mcp_error exn + unit) \<times> transfer_files" where
  "upload_bytes fx clk fid token bytes s =
     (let s1 = prune (clk 0) s in
      case map_of (tf_entries s1) fid of None \<Rightarrow> (Inl (Fail file_unavailable), s1)
      | Some e \<Rightarrow>
        if \<not> (fe_bytes e = None \<and> valid_grant fx (clk 1) e token Upload)
        then (Inl (Fail file_unavailable), s1)
        else if max_upload_bytes < length bytes
        then (Inl (Fail (invalid_params ''credential upload exceeds its byte capacity'' None)), s1)
        else if (case fe_expected_size e of None \<Rightarrow> False | Some k \<Rightarrow> k \<noteq> length bytes) \<or>
          (case fe_expected_digest e of None \<Rightarrow> False | Some d \<Rightarrow> fx_sha256 fx bytes \<noteq> d)
        then (Inl (Fail (invalid_params ''credential upload integrity mismatch'' None)), s1)
        else case store_bytes bytes s1 of (Inl x, s2) \<Rightarrow> (Inl x, s2)
        | (Inr b, s2) \<Rightarrow>
          (Inr (), insert_entry fid
             (e\<lparr> fe_file := (fe_file e)\<lparr>fv_size := Some (length bytes)\<rparr>,
                 fe_bytes := Some b, fe_grant := None \<rparr>) s2))"

text \<open>\<open>remove\<close>: the entry leaves the table with the bytes it owns.\<close>

definition remove_entry :: "string \<Rightarrow> transfer_files \<Rightarrow> transfer_files" where
  "remove_entry fid s = s\<lparr>tf_entries := AList.delete fid (tf_entries s)\<rparr>"

definition release :: "stored_bytes \<Rightarrow> transfer_files \<Rightarrow> transfer_files" where
  "release b s = s\<lparr>tf_capacity := tf_capacity s + sb_permits b\<rparr>"

definition download_bytes :: "file_env \<Rightarrow> (nat \<Rightarrow> nat) \<Rightarrow> string \<Rightarrow> string
    \<Rightarrow> transfer_files \<Rightarrow> (mcp_error + stored_bytes) \<times> transfer_files" where
  "download_bytes fx clk fid token s =
     (let s1 = prune (clk 0) s in
      case map_of (tf_entries s1) fid of None \<Rightarrow> (Inl file_unavailable, s1)
      | Some e \<Rightarrow>
        if fe_bytes e \<noteq> None \<and> valid_grant fx (clk 1) e token Download
        then (ok_or file_unavailable (fe_bytes e), remove_entry fid s1)
        else (Inl file_unavailable, s1))"

definition publish_bytes :: "file_env \<Rightarrow> (nat \<Rightarrow> nat) \<Rightarrow> string \<Rightarrow> string \<Rightarrow> string \<Rightarrow> string
    \<Rightarrow> transfer_files \<Rightarrow> (mcp_error exn + file_value) \<times> transfer_files" where
  "publish_bytes fx clk owner name mime bytes s =
     (if max_download_bytes < length bytes
      then (Inl (Fail (internal_error ''credential download exceeds its byte bound'' None)), s)
      else case random_id fx s of (Inl e, s1) \<Rightarrow> (Inl (Fail e), s1)
      | (Inr fid, s1) \<Rightarrow>
      (let file = \<lparr> fv_uri = uri_prefix @ fid, fv_name = Some name, fv_mime_type = Some mime,
             fv_size = Some (length bytes), fv_digest = None \<rparr>;
           s2 = prune (clk 0) s1 in
       case admit_entry (tf_entries s2) of Inl e \<Rightarrow> (Inl (Fail e), s2)
       | Inr _ \<Rightarrow>
       case store_bytes bytes s2 of (Inl x, s3) \<Rightarrow> (Inl x, s3)
       | (Inr b, s3) \<Rightarrow>
         if map_of (tf_entries s3) fid \<noteq> None then (Inl (Fail collision), release b s3)
         else (Inr file, insert_entry fid
           \<lparr> fe_owner = owner, fe_file = file, fe_bytes = Some b, fe_expected_digest = None,
             fe_expected_size = None, fe_expires = clk 1 + file_ttl, fe_grant = None,
             fe_uploaded = False \<rparr> s3)))"

text \<open>\<open>take\<close> moves the bytes out of their \<open>StoredBytes\<close>, whose permits are dropped.\<close>

definition take_bytes :: "(nat \<Rightarrow> nat) \<Rightarrow> string \<Rightarrow> string \<Rightarrow> transfer_files
    \<Rightarrow> (mcp_error exn + string) \<times> transfer_files" where
  "take_bytes clk owner uri s =
     (case file_id uri of Inl e \<Rightarrow> (Inl (Fail e), s)
      | Inr fid \<Rightarrow>
      (let s1 = prune (clk 0) s in
       case map_of (tf_entries s1) fid of None \<Rightarrow> (Inl (Fail file_unavailable), s1)
       | Some e \<Rightarrow>
         if fe_owner e = owner \<and> fe_uploaded e \<and> fe_bytes e \<noteq> None
         then (case fe_bytes e of None \<Rightarrow> (Inl (Fail file_unavailable), remove_entry fid s1)
               | Some b \<Rightarrow> (Inr (sb_bytes b), release b (remove_entry fid s1)))
         else (Inl (Fail file_unavailable), s1)))"

definition transfer_ops :: "file_env \<Rightarrow> transfer_files file_ops" where
  "transfer_ops fx = \<lparr> fo_publish = publish_bytes fx, fo_take = take_bytes \<rparr>"

section \<open>Tables\<close>

lemma map_of_filter_distinct:
  "distinct (map fst es) \<Longrightarrow>
     map_of (filter P es) k = (case map_of es k of None \<Rightarrow> None
       | Some v \<Rightarrow> if P (k, v) then Some v else None)"
proof (induction es)
  case Nil
  then show ?case by simp
next
  case (Cons a es)
  have "map_of (filter P es) k = None" if "fst a = k"
    using Cons.prems that by (auto simp: map_of_eq_None_iff)
  with Cons show ?case by (cases a) (auto split: option.splits)
qed

lemma distinct_map_fst_filter: "distinct (map fst es) \<Longrightarrow> distinct (map fst (filter P es))"
  by (induction es) auto

lemma table_permits_simps [simp]:
  "table_permits [] = 0"
  "table_permits ((k, e) # es) = entry_permits e + table_permits es"
  by (simp_all add: table_permits_def)

lemma table_permits_filter:
  "table_permits (filter P es) + table_permits (filter (\<lambda>x. \<not> P x) es) = table_permits es"
  by (induction es) (auto simp: table_permits_def)

lemma table_permits_insert:
  "map_of es k = None \<Longrightarrow> table_permits (AList.update k e es) = table_permits es + entry_permits e"
  by (induction es) (auto split: if_splits)

lemma table_permits_replace:
  "map_of es k = Some d \<Longrightarrow>
     table_permits (AList.update k e es) + entry_permits d = table_permits es + entry_permits e"
  by (induction es) (auto split: if_splits)

lemma table_permits_delete:
  "distinct (map fst es) \<Longrightarrow> map_of es k = Some d \<Longrightarrow>
     table_permits (AList.delete k es) + entry_permits d = table_permits es"
proof (induction es)
  case Nil
  then show ?case by simp
next
  case (Cons a es)
  obtain k' e where a: "a = (k', e)" by fastforce
  show ?case
  proof (cases "k' = k")
    case True
    then have "k \<notin> fst ` set es" using Cons.prems(1) a by auto
    with True Cons.prems(2) a show ?thesis by simp
  next
    case False
    with Cons a show ?thesis by simp
  qed
qed

lemma length_update_new: "length (AList.update k e es) \<le> Suc (length es)"
  by (induction es) auto

lemma length_update_old: "map_of es k = Some d \<Longrightarrow> length (AList.update k e es) = length es"
  by (induction es) (auto split: if_splits)

lemma set_update_cases: "(k', e') \<in> set (AList.update k e es) \<Longrightarrow>
    k' = k \<and> e' = e \<or> (k', e') \<in> set es"
  by (induction es) (auto split: if_splits)

lemma set_delete_subset: "set (AList.delete k es) \<subseteq> set es"
  by (auto simp: AList.delete_eq)

section \<open>The invariant\<close>

text \<open>
  An entry without bytes is an upload not yet received and can only have an upload grant; one
  with bytes owns as many permits as bytes, states their number, and can only have a download
  grant; the bytes of an upload have the size and digest it announced.
\<close>

definition entry_ok :: "file_env \<Rightarrow> string \<Rightarrow> file_entry \<Rightarrow> bool" where
  "entry_ok fx fid e \<longleftrightarrow> fv_uri (fe_file e) = uri_prefix @ fid \<and> fv_digest (fe_file e) = None \<and>
     (case fe_bytes e of
        None \<Rightarrow> fe_uploaded e \<and> (\<forall>g. fe_grant e = Some g \<longrightarrow> gr_direction g = Upload)
      | Some b \<Rightarrow> sb_permits b = length (sb_bytes b) \<and>
          fv_size (fe_file e) = Some (length (sb_bytes b)) \<and>
          length (sb_bytes b) \<le> max_download_bytes \<and>
          (\<forall>g. fe_grant e = Some g \<longrightarrow> gr_direction g = Download) \<and>
          (fe_uploaded e \<longrightarrow> length (sb_bytes b) \<le> max_upload_bytes \<and>
             fe_expected_size e \<in> {None, Some (length (sb_bytes b))} \<and>
             fe_expected_digest e \<in> {None, Some (fx_sha256 fx (sb_bytes b))}))"

text \<open>The permits the store accounts for: the free ones and those its entries own.\<close>

definition accounted :: "transfer_files \<Rightarrow> nat" where
  "accounted s = tf_capacity s + table_permits (tf_entries s)"

definition files_ok :: "file_env \<Rightarrow> transfer_files \<Rightarrow> bool" where
  "files_ok fx s \<longleftrightarrow> distinct (map fst (tf_entries s)) \<and>
     length (tf_entries s) \<le> max_entries \<and> accounted s \<le> max_stored_bytes \<and>
     (\<forall>(fid, e) \<in> set (tf_entries s). entry_ok fx fid e)"

named_theorems files_intros \<open>what the primitives of the store keep\<close>

lemma files_ok_distinct: "files_ok fx s \<Longrightarrow> distinct (map fst (tf_entries s))"
  by (simp add: files_ok_def)

lemma files_ok_entry: "files_ok fx s \<Longrightarrow> map_of (tf_entries s) fid = Some e \<Longrightarrow> entry_ok fx fid e"
  unfolding files_ok_def by (auto dest!: map_of_SomeD)

lemma default_files_ok: "files_ok fx default_transfer_files" "accounted default_transfer_files = max_stored_bytes"
  by (simp_all add: files_ok_def default_transfer_files_def accounted_def)

lemma prune_accounted [simp]: "accounted (prune t s) = accounted s"
  using table_permits_filter [of "\<lambda>(_, e). t < fe_expires e" "tf_entries s"]
  by (simp add: accounted_def prune_def case_prod_unfold)

lemma prune_ok [files_intros]: "files_ok fx s \<Longrightarrow> files_ok fx (prune t s)"
  unfolding files_ok_def
  by (auto simp: prune_def distinct_map_fst_filter intro: le_trans [OF length_filter_le]
      simp flip: prune_accounted [of t s] split: prod.splits)

lemma prune_lookup:
  assumes "files_ok fx s"
  shows "map_of (tf_entries (prune t s)) fid = Some e \<longleftrightarrow>
    map_of (tf_entries s) fid = Some e \<and> t < fe_expires e"
  using map_of_filter_distinct [OF files_ok_distinct [OF assms]]
  by (cases "map_of (tf_entries s) fid") (auto simp: prune_def)

lemma random_id_frame:
  assumes "random_id fx s = (r, s')"
  shows "tf_entries s' = tf_entries s" "accounted s' = accounted s" "tf_capacity s' = tf_capacity s"
  using assms by (auto simp: random_id_def accounted_def)

lemma random_id_ok [files_intros]:
  "random_id fx s = (r, s') \<Longrightarrow> files_ok fx s \<Longrightarrow> files_ok fx s'"
  by (frule random_id_frame) (simp add: files_ok_def random_id_frame)

lemma descriptor_frame:
  assumes "descriptor fx t base fid dir s = (r, s')"
  shows "tf_entries s' = tf_entries s" "accounted s' = accounted s"
  using assms random_id_frame [of fx s]
  by (auto simp: descriptor_def split: prod.splits sum.splits option.splits)

lemma descriptor_ok [files_intros]:
  "descriptor fx t base fid dir s = (r, s') \<Longrightarrow> files_ok fx s \<Longrightarrow> files_ok fx s'"
  by (frule descriptor_frame) (simp add: files_ok_def descriptor_frame)

lemma store_bytes_frame:
  assumes "store_bytes bytes s = (r, s')"
  shows "tf_entries s' = tf_entries s"
  using assms by (auto simp: store_bytes_def split: if_splits)

text \<open>Within the bounds of the operations the conversion to \<open>u32\<close> does not panic.\<close>

lemma stored_when_bounded:
  assumes "length bytes \<le> max_download_bytes" "store_bytes bytes s = (Inl x, s')"
  shows "x = Fail capacity_unavailable \<and> s' = s"
  using assms by (auto simp: store_bytes_def max_download_bytes_def u32_max_def split: if_splits)

lemma store_bytes_Inr:
  assumes "store_bytes bytes s = (Inr b, s')"
  shows "b = \<lparr> sb_bytes = bytes, sb_permits = length bytes \<rparr>"
    "accounted s' + length bytes = accounted s" "tf_entries s' = tf_entries s"
  using assms by (auto simp: store_bytes_def accounted_def split: if_splits)

lemma store_bytes_ok [files_intros]:
  assumes "store_bytes bytes s = (r, s')" "files_ok fx s"
  shows "files_ok fx s'"
  using assms by (auto simp: store_bytes_def files_ok_def accounted_def split: if_splits)

lemma insert_new_accounted:
  "map_of (tf_entries s) fid = None \<Longrightarrow>
     accounted (insert_entry fid e s) = accounted s + entry_permits e"
  by (simp add: insert_entry_def accounted_def table_permits_insert)

lemma insert_old_accounted:
  "map_of (tf_entries s) fid = Some d \<Longrightarrow>
     accounted (insert_entry fid e s) + entry_permits d = accounted s + entry_permits e"
  using table_permits_replace [of "tf_entries s" fid d e]
  by (simp add: insert_entry_def accounted_def)

lemma insert_entry_lookup:
  "map_of (tf_entries (insert_entry fid e s)) = (map_of (tf_entries s))(fid \<mapsto> e)"
  by (simp add: insert_entry_def AList.update_conv')

lemma insert_entries_ok:
  assumes "files_ok fx s" "entry_ok fx fid e"
  shows "distinct (map fst (tf_entries (insert_entry fid e s)))"
    "\<forall>(k, d) \<in> set (tf_entries (insert_entry fid e s)). entry_ok fx k d"
proof -
  show "distinct (map fst (tf_entries (insert_entry fid e s)))"
    using assms(1) by (simp add: insert_entry_def files_ok_def AList.distinct_update)
  show "\<forall>(k, d) \<in> set (tf_entries (insert_entry fid e s)). entry_ok fx k d"
    using assms by (auto simp: insert_entry_def files_ok_def dest!: set_update_cases)
qed

lemma insert_new_ok:
  assumes "files_ok fx s" "map_of (tf_entries s) fid = None" "entry_ok fx fid e"
    "length (tf_entries s) < max_entries" "accounted s + entry_permits e \<le> max_stored_bytes"
  shows "files_ok fx (insert_entry fid e s)"
  unfolding files_ok_def insert_new_accounted [OF assms(2)]
  using insert_entries_ok [OF assms(1,3)] assms(4,5) length_update_new [of fid e "tf_entries s"]
  by (simp add: insert_entry_def)

lemma insert_old_ok:
  assumes "files_ok fx s" "map_of (tf_entries s) fid = Some d" "entry_ok fx fid e"
    "accounted s + entry_permits e \<le> max_stored_bytes + entry_permits d"
  shows "files_ok fx (insert_entry fid e s)"
proof -
  have "accounted (insert_entry fid e s) \<le> max_stored_bytes"
    using insert_old_accounted [OF assms(2), of e] assms(4) by linarith
  moreover have "length (tf_entries (insert_entry fid e s)) \<le> max_entries"
    using assms(1) length_update_old [OF assms(2)] by (simp add: insert_entry_def files_ok_def)
  ultimately show ?thesis
    using insert_entries_ok [OF assms(1,3)] by (simp add: files_ok_def)
qed

lemma remove_entry_lookup: "map_of (tf_entries (remove_entry fid s)) = (map_of (tf_entries s))(fid := None)"
  by (simp add: remove_entry_def AList.delete_conv')

lemma remove_accounted:
  "files_ok fx s \<Longrightarrow> map_of (tf_entries s) fid = Some d \<Longrightarrow>
     accounted (remove_entry fid s) + entry_permits d = accounted s"
  using table_permits_delete [of "tf_entries s" fid d]
  by (simp add: remove_entry_def accounted_def files_ok_def)

lemma remove_ok [files_intros]:
  assumes "files_ok fx s" "map_of (tf_entries s) fid = Some d"
  shows "files_ok fx (remove_entry fid s)"
  using assms remove_accounted [OF assms] set_delete_subset [of fid "tf_entries s"]
    AList.length_delete_le [of fid "tf_entries s"]
  by (auto simp: files_ok_def remove_entry_def AList.distinct_delete)

lemma release_accounted [simp]: "accounted (release b s) = accounted s + sb_permits b"
  by (simp add: release_def accounted_def)

lemma release_entries [simp]: "tf_entries (release b s) = tf_entries s"
  by (simp add: release_def)

lemma release_ok:
  "files_ok fx s \<Longrightarrow> accounted s + sb_permits b \<le> max_stored_bytes \<Longrightarrow> files_ok fx (release b s)"
  by (simp add: files_ok_def)

section \<open>What the operations do\<close>

text \<open>A successful publication.\<close>

lemma publish_Inr:
  assumes ok: "files_ok fx s" and pub: "publish_bytes fx clk owner name mime bytes s = (Inr file, s')"
  obtains fid s1 where
    "fv_uri file = uri_prefix @ fid" "fv_size file = Some (length bytes)" "fv_digest file = None"
    "length bytes \<le> max_download_bytes"
    "files_ok fx s1" "map_of (tf_entries s1) fid = None" "length (tf_entries s1) < max_entries"
    "tf_entries s1 = tf_entries (prune (clk 0) s)" "accounted s1 + length bytes = accounted s"
    "s' = insert_entry fid \<lparr> fe_owner = owner, fe_file = file,
       fe_bytes = Some \<lparr> sb_bytes = bytes, sb_permits = length bytes \<rparr>,
       fe_expected_digest = None, fe_expected_size = None, fe_expires = clk 1 + file_ttl,
       fe_grant = None, fe_uploaded = False \<rparr> s1"
proof -
  have len: "length bytes \<le> max_download_bytes"
    using pub by (auto simp: publish_bytes_def split: if_splits)
  obtain fid s1 where r: "random_id fx s = (Inr fid, s1)"
    using pub len by (auto simp: publish_bytes_def split: prod.splits sum.splits)
  obtain b s3 where b: "store_bytes bytes (prune (clk 0) s1) = (Inr b, s3)"
    using pub len r by (auto simp: publish_bytes_def Let_def split: prod.splits sum.splits)
  note store = store_bytes_Inr [OF b]
  have new: "map_of (tf_entries s3) fid = None" and adm: "length (tf_entries (prune (clk 0) s1)) < max_entries"
    using pub len r b store(3)
    by (auto simp: publish_bytes_def admit_entry_def Let_def split: prod.splits sum.splits if_splits)
  show thesis
  proof (rule that [of fid s3])
    show "files_ok fx s3"
      using store_bytes_ok [OF b prune_ok [OF random_id_ok [OF r ok]]] .
    show "tf_entries s3 = tf_entries (prune (clk 0) s)"
      using store(3) random_id_frame(1) [OF r] by (simp add: prune_def)
    show "accounted s3 + length bytes = accounted s"
      using store(2) random_id_frame(2) [OF r] by simp
    show "map_of (tf_entries s3) fid = None" "length (tf_entries s3) < max_entries"
      using new adm store(3) by simp_all
  qed (use pub len r b new adm store in
    \<open>auto simp: publish_bytes_def admit_entry_def Let_def split: prod.splits sum.splits if_splits\<close>)
qed

text \<open>What a refused operation leaves: some entries may have expired, nothing else changed.\<close>

definition shrinks :: "file_env \<Rightarrow> transfer_files \<Rightarrow> transfer_files \<Rightarrow> bool" where
  "shrinks fx s s' \<longleftrightarrow> files_ok fx s' \<and> accounted s' = accounted s \<and>
     (\<forall>fid e. map_of (tf_entries s') fid = Some e \<longrightarrow> map_of (tf_entries s) fid = Some e)"

lemma shrinksD:
  "shrinks fx s s' \<Longrightarrow> files_ok fx s'"
  "shrinks fx s s' \<Longrightarrow> accounted s' = accounted s"
  "shrinks fx s s' \<Longrightarrow> map_of (tf_entries s') fid = Some e \<Longrightarrow> map_of (tf_entries s) fid = Some e"
  by (simp_all add: shrinks_def)

lemma shrinks_refl: "files_ok fx s \<Longrightarrow> shrinks fx s s"
  by (simp add: shrinks_def)

lemma shrinks_trans: "shrinks fx s s' \<Longrightarrow> shrinks fx s' s'' \<Longrightarrow> shrinks fx s s''"
  by (simp add: shrinks_def)

lemma shrinks_prune: "files_ok fx s \<Longrightarrow> shrinks fx s (prune t s)"
  by (simp add: shrinks_def prune_ok prune_lookup)

lemma shrinks_random: "files_ok fx s \<Longrightarrow> random_id fx s = (r, s') \<Longrightarrow> shrinks fx s s'"
  using random_id_frame [of fx s r s'] random_id_ok [of fx s r s'] by (simp add: shrinks_def)

lemma shrinks_descriptor: "files_ok fx s \<Longrightarrow> descriptor fx t base fid dir s = (r, s') \<Longrightarrow> shrinks fx s s'"
  using descriptor_frame [of fx t base fid dir s r s'] descriptor_ok [of fx t base fid dir s r s']
  by (simp add: shrinks_def)

lemma shrinks_random_prune:
  "files_ok fx s \<Longrightarrow> random_id fx s = (r, s') \<Longrightarrow> shrinks fx s (prune t s')"
  by (blast intro: shrinks_trans shrinks_random shrinks_prune shrinksD(1))

lemma shrinks_descriptor_prune:
  "files_ok fx s \<Longrightarrow> descriptor fx t base fid dir s = (r, s') \<Longrightarrow> shrinks fx s (prune t' s')"
  by (blast intro: shrinks_trans shrinks_descriptor shrinks_prune shrinksD(1))

lemma shrinks_store_release:
  assumes "files_ok fx s" "store_bytes bytes s = (Inr b, s')"
  shows "shrinks fx s (release b s')"
proof -
  have a: "accounted s' + sb_permits b = accounted s" "tf_entries s' = tf_entries s"
    using store_bytes_Inr [OF assms(2)] by simp_all
  moreover have "accounted s \<le> max_stored_bytes" using assms(1) by (simp add: files_ok_def)
  ultimately show ?thesis
    using release_ok [OF store_bytes_ok [OF assms(2,1)], of b] by (simp add: shrinks_def)
qed

text \<open>No error of the store carries data.\<close>

lemma err_data_simps [simp]:
  "err_data (invalid_params m d) = d" "err_data (internal_error m d) = d"
  "err_data file_unavailable = None" "err_data capacity_unavailable = None"
  "err_data collision = None"
  by (simp_all add: invalid_params_def internal_error_def file_unavailable_def
      capacity_unavailable_def collision_def)

lemma random_id_Inl: "random_id fx s = (Inl e, s') \<Longrightarrow> err_data e = None"
  by (auto simp: random_id_def map_err_def ok_or_def split: option.splits)

lemma file_id_Inl: "file_id u = Inl e \<Longrightarrow> e = file_unavailable"
  by (auto simp: file_id_def rbind_def ok_or_def split: option.splits sum.splits if_splits)

lemma publish_Inl:
  assumes ok: "files_ok fx s" and pub: "publish_bytes fx clk owner name mime bytes s = (Inl x, s')"
  shows "(\<exists>e. x = Fail e \<and> err_data e = None) \<and> shrinks fx s s'"
proof (cases "max_download_bytes < length bytes")
  case True
  with pub ok show ?thesis by (auto simp: publish_bytes_def shrinks_refl)
next
  case False
  obtain r s1 where r: "random_id fx s = (r, s1)" by fastforce
  obtain q s3 where q: "store_bytes bytes (prune (clk 0) s1) = (q, s3)" by fastforce
  have sh: "shrinks fx s s1" "shrinks fx s (prune (clk 0) s1)"
    using r ok by (auto intro: shrinks_random shrinks_random_prune)
  have refused: "q = Inl y \<Longrightarrow> y = Fail capacity_unavailable \<and> s3 = prune (clk 0) s1" for y
    using stored_when_bounded [of bytes "prune (clk 0) s1" y s3] q False by simp
  have rel: "q = Inr b \<Longrightarrow> shrinks fx s (release b s3)" for b
    using shrinks_store_release [OF shrinksD(1) [OF sh(2)], of bytes b s3] q sh(2)
    by (blast intro: shrinks_trans)
  show ?thesis
    using pub False r q sh refused rel
    by (auto simp: publish_bytes_def admit_entry_def Let_def
        split: prod.splits sum.splits if_splits dest: random_id_Inl)
qed

lemma publish_ok:
  assumes ok: "files_ok fx s" and pub: "publish_bytes fx clk owner name mime bytes s = (r, s')"
  shows "files_ok fx s' \<and> accounted s' = accounted s"
proof (cases r)
  case (Inl x)
  with publish_Inl [OF ok] pub show ?thesis by (simp add: shrinks_def)
next
  case (Inr f)
  from publish_Inr [OF ok pub [unfolded Inr]] obtain fid s1 where
    s1: "fv_uri f = uri_prefix @ fid" "fv_size f = Some (length bytes)" "fv_digest f = None"
    "length bytes \<le> max_download_bytes"
    "files_ok fx s1" "map_of (tf_entries s1) fid = None" "length (tf_entries s1) < max_entries"
    "tf_entries s1 = tf_entries (prune (clk 0) s)" "accounted s1 + length bytes = accounted s"
    "s' = insert_entry fid \<lparr> fe_owner = owner, fe_file = f,
       fe_bytes = Some \<lparr> sb_bytes = bytes, sb_permits = length bytes \<rparr>,
       fe_expected_digest = None, fe_expected_size = None, fe_expires = clk 1 + file_ttl,
       fe_grant = None, fe_uploaded = False \<rparr> s1" .
  have "accounted s \<le> max_stored_bytes" using ok by (simp add: files_ok_def)
  with s1 show ?thesis
    by (auto simp: insert_new_accounted entry_permits_def entry_ok_def intro!: insert_new_ok)
qed

lemma take_Inl:
  assumes ok: "files_ok fx s" and take: "take_bytes clk owner u s = (Inl x, s')"
  shows "(\<exists>e. x = Fail e \<and> err_data e = None) \<and> shrinks fx s s'"
  using take shrinks_refl [OF ok] shrinks_prune [OF ok]
  by (auto simp: take_bytes_def Let_def split: sum.splits option.splits if_splits dest: file_id_Inl)

lemma take_Inr:
  assumes ok: "files_ok fx s" and take: "take_bytes clk owner u s = (Inr bytes, s')"
  obtains fid e b where "u = uri_prefix @ fid" "file_id u = Inr fid"
    "map_of (tf_entries s) fid = Some e" "clk 0 < fe_expires e" "fe_owner e = owner" "fe_uploaded e"
    "fe_bytes e = Some b" "sb_bytes b = bytes" "s' = release b (remove_entry fid (prune (clk 0) s))"
proof -
  obtain fid where fid: "file_id u = Inr fid"
    using take by (auto simp: take_bytes_def split: sum.splits)
  then have u: "u = uri_prefix @ fid"
    by (auto simp: file_id_def strip_prefix_Some_iff rbind_Inr_iff split: if_splits)
  show thesis
    using take fid u prune_lookup [OF ok] that
    by (auto simp: take_bytes_def Let_def split: option.splits if_splits)
qed

lemma take_ok:
  assumes ok: "files_ok fx s" and take: "take_bytes clk owner u s = (r, s')"
  shows "files_ok fx s' \<and> accounted s' = accounted s"
proof (cases r)
  case (Inl x)
  with take_Inl [OF ok] take show ?thesis by (simp add: shrinks_def)
next
  case (Inr bytes)
  from take_Inr [OF ok take [unfolded Inr]] obtain fid e b where
    e: "map_of (tf_entries s) fid = Some e" "clk 0 < fe_expires e" "fe_bytes e = Some b"
    "s' = release b (remove_entry fid (prune (clk 0) s))" .
  have p: "files_ok fx (prune (clk 0) s)" "map_of (tf_entries (prune (clk 0) s)) fid = Some e"
    using ok e by (simp_all add: prune_ok prune_lookup)
  from remove_accounted [OF p] e have "accounted s' = accounted s"
    by (simp add: entry_permits_def)
  moreover have "accounted s \<le> max_stored_bytes" using ok by (simp add: files_ok_def)
  ultimately show ?thesis
    using e remove_ok [OF p] by (auto intro: release_ok)
qed

section \<open>The trait\<close>

definition held_file_of :: "transfer_files \<Rightarrow> string \<Rightarrow> held_file option" where
  "held_file_of s u =
     (case strip_prefix uri_prefix u of None \<Rightarrow> None
      | Some fid \<Rightarrow> (case map_of (tf_entries s) fid of None \<Rightarrow> None
        | Some e \<Rightarrow> (case fe_bytes e of None \<Rightarrow> None
          | Some b \<Rightarrow> Some \<lparr> hf_owner = fe_owner e, hf_bytes = sb_bytes b,
              hf_uploaded = fe_uploaded e \<rparr>)))"

lemma held_prefix: "held_file_of s (uri_prefix @ fid) =
    (case map_of (tf_entries s) fid of None \<Rightarrow> None
     | Some e \<Rightarrow> (case fe_bytes e of None \<Rightarrow> None
       | Some b \<Rightarrow> Some \<lparr> hf_owner = fe_owner e, hf_bytes = sb_bytes b, hf_uploaded = fe_uploaded e \<rparr>))"
proof -
  have "strip_prefix uri_prefix (uri_prefix @ fid) = Some fid" by (simp add: strip_prefix_Some_iff)
  then show ?thesis by (simp add: held_file_of_def)
qed

lemma held_SomeE:
  assumes "held_file_of s u = Some h"
  obtains fid e b where "u = uri_prefix @ fid" "map_of (tf_entries s) fid = Some e" "fe_bytes e = Some b"
    "h = \<lparr> hf_owner = fe_owner e, hf_bytes = sb_bytes b, hf_uploaded = fe_uploaded e \<rparr>"
  using assms by (auto simp: held_file_of_def strip_prefix_Some_iff split: option.splits)

lemma held_mono:
  assumes "\<And>fid e. map_of (tf_entries s') fid = Some e \<Longrightarrow> map_of (tf_entries s) fid = Some e"
    "held_file_of s' u = Some h"
  shows "held_file_of s u = Some h"
  using assms(2)
proof (rule held_SomeE)
  fix fid e b
  assume "u = uri_prefix @ fid" "map_of (tf_entries s') fid = Some e" "fe_bytes e = Some b"
    "h = \<lparr> hf_owner = fe_owner e, hf_bytes = sb_bytes b, hf_uploaded = fe_uploaded e \<rparr>"
  with assms(1) show ?thesis by (simp add: held_prefix)
qed

text \<open>A publication adds at most its own file, and taking a file adds none.\<close>

lemma publish_held:
  assumes ok: "files_ok fx s" and pub: "publish_bytes fx clk owner name mime bytes s = (r, s')"
    and h: "held_file_of s' u = Some h"
  shows "held_file_of s u = Some h \<or> (\<exists>f. r = Inr f \<and> u = fv_uri f)"
proof (cases r)
  case (Inl x)
  with publish_Inl [OF ok] pub have "shrinks fx s s'" by blast
  from held_mono [OF shrinksD(3) [OF this] h] show ?thesis by simp
next
  case (Inr f)
  from h obtain fid e b where u: "u = uri_prefix @ fid"
    "map_of (tf_entries s') fid = Some e" "fe_bytes e = Some b"
    "h = \<lparr> hf_owner = fe_owner e, hf_bytes = sb_bytes b, hf_uploaded = fe_uploaded e \<rparr>"
    by (rule held_SomeE)
  from publish_Inr [OF ok pub [unfolded Inr]] obtain fid' s1 d where
    new: "fv_uri f = uri_prefix @ fid'" "tf_entries s1 = tf_entries (prune (clk 0) s)"
    "s' = insert_entry fid' d s1" .
  show ?thesis
  proof (cases "fid = fid'")
    case True
    with new u Inr show ?thesis by simp
  next
    case False
    with new(2,3) u(2) prune_lookup [OF ok] have "map_of (tf_entries s) fid = Some e"
      by (simp add: insert_entry_lookup)
    with u show ?thesis by (simp add: held_prefix)
  qed
qed

lemma take_held:
  assumes ok: "files_ok fx s" and take: "take_bytes clk owner u s = (r, s')"
    and h: "held_file_of s' v = Some h"
  shows "held_file_of s v = Some h"
proof -
  have "map_of (tf_entries s) fid = Some e" if e: "map_of (tf_entries s') fid = Some e" for fid e
  proof (cases r)
    case (Inl x)
    with take_Inl [OF ok] take e show ?thesis by (blast dest: shrinksD(3))
  next
    case (Inr bytes)
    from take_Inr [OF ok take [unfolded Inr]] obtain k b where
      "s' = release b (remove_entry k (prune (clk 0) s))" .
    with e prune_lookup [OF ok] show ?thesis by (simp add: remove_entry_lookup split: if_splits)
  qed
  with h show ?thesis by (rule held_mono [rotated])
qed

interpretation server_files: credential_files "publish_bytes fx" take_bytes held_file_of "files_ok fx"
  for fx
proof unfold_locales
  fix s clk owner name mime bytes f s'
  assume ok: "files_ok fx s" and pub: "publish_bytes fx clk owner name mime bytes s = (Inr f, s')"
  show "held_file_of s' (fv_uri f) = Some \<lparr> hf_owner = owner, hf_bytes = bytes, hf_uploaded = False \<rparr>"
    by (rule publish_Inr [OF ok pub]) (simp add: held_prefix insert_entry_lookup)
  show "fv_size f = Some (length bytes) \<and> length bytes \<le> u64_max \<and> fv_digest f = None"
    by (rule publish_Inr [OF ok pub]) (simp add: max_download_bytes_def u64_max_def)
next
  fix s clk owner name mime bytes x s'
  assume "files_ok fx s" and "publish_bytes fx clk owner name mime bytes s = (Inl x, s')"
  then show "\<exists>e. x = Fail e \<and> err_data e = None" using publish_Inl by blast
next
  fix s clk owner name mime bytes r s' u h
  assume ok: "files_ok fx s" and pub: "publish_bytes fx clk owner name mime bytes s = (r, s')"
    and h: "held_file_of s' u = Some h"
  show "held_file_of s u = Some h \<or> (\<exists>f. r = Inr f \<and> u = fv_uri f)"
    by (rule publish_held [OF ok pub h])
next
  fix s clk owner name mime bytes r s'
  assume "files_ok fx s" and "publish_bytes fx clk owner name mime bytes s = (r, s')"
  then show "files_ok fx s'" using publish_ok by blast
next
  fix s clk owner u x s'
  assume "files_ok fx s" and "take_bytes clk owner u s = (Inl x, s')"
  then show "\<exists>e. x = Fail e \<and> err_data e = None" using take_Inl by blast
next
  fix s clk owner u bytes s'
  assume ok: "files_ok fx s" and take: "take_bytes clk owner u s = (Inr bytes, s')"
  show "held_file_of s u = Some \<lparr> hf_owner = owner, hf_bytes = bytes, hf_uploaded = True \<rparr> \<and>
      held_file_of s' u = None"
    by (rule take_Inr [OF ok take]) (simp add: held_prefix remove_entry_lookup)
next
  fix s clk owner u r s' v h
  assume ok: "files_ok fx s" and take: "take_bytes clk owner u s = (r, s')"
    and h: "held_file_of s' v = Some h"
  show "held_file_of s v = Some h" by (rule take_held [OF ok take h])
next
  fix s clk owner u r s'
  assume "files_ok fx s" and "take_bytes clk owner u s = (r, s')"
  then show "files_ok fx s'" using take_ok by blast
qed

section \<open>The other operations\<close>

lemma authorize_upload_Inl:
  assumes ok: "files_ok fx s" and auth: "authorize_upload fx clk owner p base s = (Inl x, s')"
  shows "shrinks fx s s'"
proof -
  have 1: "random_id fx s = (r, s1) \<Longrightarrow> shrinks fx s s1" for r s1
    using ok by (rule shrinks_random)
  moreover have 2: "shrinks fx s s1 \<Longrightarrow> descriptor fx t b i d s1 = (r, s2) \<Longrightarrow> shrinks fx s s2" for t b i d r s1 s2
    by (blast intro: shrinks_trans shrinks_descriptor shrinksD(1))
  moreover have 3: "shrinks fx s s2 \<Longrightarrow> shrinks fx s (prune t s2)" for t s2
    by (blast intro: shrinks_trans shrinks_prune shrinksD(1))
  ultimately show ?thesis
    using auth shrinks_refl [OF ok]
    by (auto simp: authorize_upload_def Let_def split: if_splits sum.splits prod.splits)
qed

lemma authorize_upload_Inr:
  assumes ok: "files_ok fx s" and auth: "authorize_upload fx clk owner p base s = (Inr j, s')"
  obtains fid s1 s2 s3 expected g up where
    "parse_upload_digest fx (up_digest p) = Inr expected"
    "random_id fx s = (Inr fid, s1)" "descriptor fx (clk 0) base fid Upload s1 = (Inr (g, up), s2)"
    "s3 = prune (clk 1) s2" "shrinks fx s s3" "map_of (tf_entries s3) fid = None"
    "length (tf_entries s3) < max_entries"
    "j = JObj [(''file'', file_value_json \<lparr> fv_uri = uri_prefix @ fid, fv_name = up_name p,
             fv_mime_type = up_mime_type p, fv_size = up_size p, fv_digest = None \<rparr>), (''upload'', up)]"
    "s' = insert_entry fid \<lparr> fe_owner = owner,
         fe_file = \<lparr> fv_uri = uri_prefix @ fid, fv_name = up_name p,
             fv_mime_type = up_mime_type p, fv_size = up_size p, fv_digest = None \<rparr>,
         fe_bytes = None, fe_expected_digest = expected, fe_expected_size = up_size p,
         fe_expires = clk 2 + file_ttl, fe_grant = Some g, fe_uploaded = True \<rparr> s3"
proof -
  obtain expected where ex: "parse_upload_digest fx (up_digest p) = Inr expected"
    using auth by (auto simp: authorize_upload_def split: if_splits sum.splits)
  obtain fid s1 where r: "random_id fx s = (Inr fid, s1)"
    using auth ex by (auto simp: authorize_upload_def split: if_splits sum.splits prod.splits)
  obtain g up s2 where d: "descriptor fx (clk 0) base fid Upload s1 = (Inr (g, up), s2)"
    using auth ex r by (auto simp: authorize_upload_def split: if_splits sum.splits prod.splits)
  have "shrinks fx s (prune (clk 1) s2)"
    using shrinks_random [OF ok r] shrinks_descriptor_prune [OF _ d] shrinksD(1) shrinks_trans by blast
  then show thesis
    using that [OF ex r d refl] auth ex r d
    by (auto simp: authorize_upload_def admit_entry_def Let_def split: if_splits)
qed

lemma descriptor_direction:
  "descriptor fx t base fid dir s = (Inr (g, up), s') \<Longrightarrow>
     gr_direction g = dir \<and> gr_expires g = t + grant_ttl"
  by (auto simp: descriptor_def split: prod.splits sum.splits option.splits)

lemma authorize_upload_ok:
  assumes ok: "files_ok fx s" and auth: "authorize_upload fx clk owner p base s = (r, s')"
  shows "files_ok fx s' \<and> accounted s' = accounted s"
proof (cases r)
  case (Inl x)
  with authorize_upload_Inl [OF ok] auth have "shrinks fx s s'" by blast
  with Inl show ?thesis by (simp add: shrinks_def)
next
  case (Inr j)
  show ?thesis
  proof (rule authorize_upload_Inr [OF ok auth [unfolded Inr]])
    fix fid s1 s2 s3 expected g up
    assume d: "descriptor fx (clk 0) base fid Upload s1 = (Inr (g, up), s2)" and s3: "s3 = prune (clk 1) s2"
      and sh: "shrinks fx s s3" "map_of (tf_entries s3) fid = None"
      "length (tf_entries s3) < max_entries"
      and s': "s' = insert_entry fid \<lparr> fe_owner = owner,
         fe_file = \<lparr> fv_uri = uri_prefix @ fid, fv_name = up_name p,
             fv_mime_type = up_mime_type p, fv_size = up_size p, fv_digest = None \<rparr>,
         fe_bytes = None, fe_expected_digest = expected, fe_expected_size = up_size p,
         fe_expires = clk 2 + file_ttl, fe_grant = Some g, fe_uploaded = True \<rparr> s3"
    have "accounted s \<le> max_stored_bytes" using ok by (simp add: files_ok_def)
    with sh d s' show ?thesis
      by (auto simp: insert_new_accounted entry_permits_def entry_ok_def shrinks_def
          dest!: descriptor_direction intro!: insert_new_ok)
  qed
qed

lemma authorize_download_Inl:
  assumes ok: "files_ok fx s" and auth: "authorize_download fx clk owner p base s = (Inl x, s')"
  shows "shrinks fx s s'"
  using auth shrinks_refl [OF ok] shrinks_descriptor [OF ok] shrinks_descriptor_prune [OF ok]
  by (auto simp: authorize_download_def Let_def split: if_splits sum.splits prod.splits option.splits)

lemma authorize_download_Inr:
  assumes ok: "files_ok fx s" and auth: "authorize_download fx clk owner p base s = (Inr j, s')"
  obtains fid s1 e g down where
    "file_id (dp_uri p) = Inr fid" "descriptor fx (clk 0) base fid Download s = (Inr (g, down), s1)"
    "shrinks fx s (prune (clk 1) s1)" "map_of (tf_entries (prune (clk 1) s1)) fid = Some e"
    "fe_owner e = owner" "fe_bytes e \<noteq> None"
    "j = JObj [(''file'', file_value_json (fe_file e)), (''download'', down),
                 (''sensitivity'', JStr ''secret'')]"
    "s' = insert_entry fid (e\<lparr>fe_grant := Some g\<rparr>) (prune (clk 1) s1)"
proof -
  obtain fid where fid: "file_id (dp_uri p) = Inr fid"
    using auth by (auto simp: authorize_download_def split: sum.splits)
  obtain g down s1 where d: "descriptor fx (clk 0) base fid Download s = (Inr (g, down), s1)"
    using auth fid by (auto simp: authorize_download_def split: sum.splits prod.splits)
  show thesis
    using that [OF fid d shrinks_descriptor_prune [OF ok d]] auth fid d
    by (auto simp: authorize_download_def Let_def split: option.splits if_splits)
qed

lemma authorize_download_ok:
  assumes ok: "files_ok fx s" and auth: "authorize_download fx clk owner p base s = (r, s')"
  shows "files_ok fx s' \<and> accounted s' = accounted s"
proof (cases r)
  case (Inl x)
  with authorize_download_Inl [OF ok] auth have "shrinks fx s s'" by blast
  with Inl show ?thesis by (simp add: shrinks_def)
next
  case (Inr j)
  show ?thesis
  proof (rule authorize_download_Inr [OF ok auth [unfolded Inr]])
    fix fid s1 e g down
    assume d: "descriptor fx (clk 0) base fid Download s = (Inr (g, down), s1)"
      and sh: "shrinks fx s (prune (clk 1) s1)"
      and e: "map_of (tf_entries (prune (clk 1) s1)) fid = Some e" "fe_bytes e \<noteq> None"
      and s': "s' = insert_entry fid (e\<lparr>fe_grant := Some g\<rparr>) (prune (clk 1) s1)"
    let ?s = "prune (clk 1) s1" and ?e = "e\<lparr>fe_grant := Some g\<rparr>"
    have "entry_ok fx fid ?e"
      using files_ok_entry [OF shrinksD(1) [OF sh] e(1)] e(2) descriptor_direction [OF d]
      by (auto simp: entry_ok_def)
    moreover have perm: "entry_permits ?e = entry_permits e" by (simp add: entry_permits_def)
    moreover have acc: "accounted ?s = accounted s" "accounted ?s \<le> max_stored_bytes"
      using shrinksD(1,2) [OF sh] by (auto simp: files_ok_def)
    ultimately show ?thesis
      using insert_old_ok [OF shrinksD(1) [OF sh] e(1), of ?e] insert_old_accounted [OF e(1), of ?e] s'
      by simp
  qed
qed

lemma upload_Inl:
  assumes ok: "files_ok fx s" and up: "upload_bytes fx clk fid token bytes s = (Inl x, s')"
  shows "(\<exists>e. x = Fail e) \<and> shrinks fx s s'"
proof -
  obtain q s2 where q: "store_bytes bytes (prune (clk 0) s) = (q, s2)" by fastforce
  have "length bytes \<le> max_upload_bytes \<Longrightarrow> q = Inl y \<Longrightarrow>
      y = Fail capacity_unavailable \<and> s2 = prune (clk 0) s" for y
    using stored_when_bounded [of bytes "prune (clk 0) s" y s2] q
    by (simp add: max_upload_bytes_def max_download_bytes_def)
  with q up shrinks_prune [OF ok, of "clk 0"] show ?thesis
    by (auto simp: upload_bytes_def Let_def split: option.splits if_splits sum.splits)
qed

lemma upload_Inr:
  assumes ok: "files_ok fx s" and up: "upload_bytes fx clk fid token bytes s = (Inr v, s')"
  obtains e s2 where
    "map_of (tf_entries s) fid = Some e" "clk 0 < fe_expires e" "fe_bytes e = None"
    "valid_grant fx (clk 1) e token Upload" "length bytes \<le> max_upload_bytes"
    "fe_expected_size e \<in> {None, Some (length bytes)}"
    "fe_expected_digest e \<in> {None, Some (fx_sha256 fx bytes)}"
    "files_ok fx s2" "tf_entries s2 = tf_entries (prune (clk 0) s)"
    "accounted s2 + length bytes = accounted s"
    "s' = insert_entry fid (e\<lparr> fe_file := (fe_file e)\<lparr>fv_size := Some (length bytes)\<rparr>,
       fe_bytes := Some \<lparr> sb_bytes = bytes, sb_permits = length bytes \<rparr>, fe_grant := None \<rparr>) s2"
proof -
  obtain q s2 where q: "store_bytes bytes (prune (clk 0) s) = (q, s2)" by fastforce
  obtain e where e: "map_of (tf_entries (prune (clk 0) s)) fid = Some e"
    using up by (auto simp: upload_bytes_def Let_def split: option.splits)
  obtain b where b: "q = Inr b"
    using up e q by (auto simp: upload_bytes_def Let_def split: if_splits sum.splits)
  note store = store_bytes_Inr [OF q [unfolded b]]
  show thesis
    using that [of e s2] up e q b store store_bytes_ok [OF q prune_ok [OF ok]] prune_lookup [OF ok]
    by (auto simp: upload_bytes_def Let_def split: option.splits if_splits)
qed

lemma upload_ok:
  assumes ok: "files_ok fx s" and up: "upload_bytes fx clk fid token bytes s = (r, s')"
  shows "files_ok fx s' \<and> accounted s' = accounted s"
proof (cases r)
  case (Inl x)
  with upload_Inl [OF ok] up have "shrinks fx s s'" by blast
  with Inl show ?thesis by (simp add: shrinks_def)
next
  case (Inr v)
  show ?thesis
  proof (rule upload_Inr [OF ok up [unfolded Inr]])
    fix e :: file_entry and s2
    let ?e = "e\<lparr> fe_file := (fe_file e)\<lparr>fv_size := Some (length bytes)\<rparr>,
       fe_bytes := Some \<lparr> sb_bytes = bytes, sb_permits = length bytes \<rparr>, fe_grant := None \<rparr>"
    assume e: "map_of (tf_entries s) fid = Some e" "clk 0 < fe_expires e" "fe_bytes e = None"
      and fits: "length bytes \<le> max_upload_bytes"
        "fe_expected_size e \<in> {None, Some (length bytes)}"
        "fe_expected_digest e \<in> {None, Some (fx_sha256 fx bytes)}"
      and s2: "files_ok fx s2" "tf_entries s2 = tf_entries (prune (clk 0) s)"
        "accounted s2 + length bytes = accounted s"
      and s': "s' = insert_entry fid ?e s2"
    have e2: "map_of (tf_entries s2) fid = Some e" using e s2(2) prune_lookup [OF ok] by simp
    have perms: "entry_permits e = 0" "entry_permits ?e = length bytes"
      using e by (simp_all add: entry_permits_def)
    have bound: "length bytes \<le> max_download_bytes"
      using fits(1) by (simp add: max_upload_bytes_def max_download_bytes_def)
    have "entry_ok fx fid ?e"
      using files_ok_entry [OF ok e(1)] e(3) fits bound by (auto simp: entry_ok_def)
    moreover have "accounted s \<le> max_stored_bytes" using ok by (simp add: files_ok_def)
    ultimately show ?thesis
      using insert_old_ok [OF s2(1) e2, of ?e] insert_old_accounted [OF e2, of ?e] s' s2(3) perms
      by simp
  qed
qed

lemma download_Inl:
  assumes ok: "files_ok fx s" and down: "download_bytes fx clk fid token s = (Inl x, s')"
  shows "shrinks fx s s'"
  using down shrinks_prune [OF ok]
  by (auto simp: download_bytes_def Let_def ok_or_def split: option.splits if_splits)

lemma download_Inr:
  assumes ok: "files_ok fx s" and down: "download_bytes fx clk fid token s = (Inr b, s')"
  shows "\<exists>e. map_of (tf_entries s) fid = Some e \<and> clk 0 < fe_expires e \<and> fe_bytes e = Some b \<and>
    valid_grant fx (clk 1) e token Download \<and> s' = remove_entry fid (prune (clk 0) s)"
  using down prune_lookup [OF ok]
  by (auto simp: download_bytes_def Let_def split: option.splits if_splits)

lemma download_ok:
  assumes ok: "files_ok fx s" and down: "download_bytes fx clk fid token s = (r, s')"
  shows "files_ok fx s' \<and>
    accounted s' + (case r of Inl _ \<Rightarrow> 0 | Inr b \<Rightarrow> sb_permits b) = accounted s"
proof (cases r)
  case (Inl x)
  with download_Inl [OF ok] down have "shrinks fx s s'" by blast
  with Inl show ?thesis by (simp add: shrinks_def)
next
  case (Inr b)
  with download_Inr [OF ok] down obtain e where e: "map_of (tf_entries s) fid = Some e"
    "clk 0 < fe_expires e" "fe_bytes e = Some b" "s' = remove_entry fid (prune (clk 0) s)"
    by blast
  have p: "files_ok fx (prune (clk 0) s)" "map_of (tf_entries (prune (clk 0) s)) fid = Some e"
    using ok e by (simp_all add: prune_ok prune_lookup)
  from remove_accounted [OF p] remove_ok [OF p] e Inr show ?thesis
    by (simp add: entry_permits_def)
qed

lemma admits_grant_shrinks:
  "files_ok fx s \<Longrightarrow> admits_grant fx clk fid token dir s = (r, s') \<Longrightarrow> shrinks fx s s'"
  by (auto simp: admits_grant_def Let_def intro: shrinks_prune)

lemma clear_ok: "files_ok fx s \<Longrightarrow> files_ok fx (clear_entries s) \<and> accounted (clear_entries s) = accounted s"
  by (simp add: files_ok_def clear_entries_def accounted_def)

end
