(* ===== verification/Server_Transfers.thy ===== *)
theory Server_Transfers
  imports Server_Files
begin

text \<open>
  The HTTP side of the transfer store (\<open>files.rs\<close>): the bearer that admits a transfer, the
  upload and download handlers, the streamed body, and the system they form with the store:
  its steps, its reachable states, and who can obtain which bytes.
\<close>

section \<open>The streamed body\<close>

record download_body =
  db_stored :: stored_bytes
  db_offset :: nat

definition chunk_bytes :: nat where "chunk_bytes = 16 * 1024"

text \<open>The slice from \<open>offset\<close> on; \<open>offset\<close> stays within the bytes.\<close>

definition remaining_bytes :: "download_body \<Rightarrow> string" where
  "remaining_bytes b = drop (db_offset b) (sb_bytes (db_stored b))"

definition poll_frame :: "download_body \<Rightarrow> string option \<times> download_body" where
  "poll_frame b =
     (let remaining = remaining_bytes b in
      if remaining = [] then (None, b)
      else let count = min (length remaining) chunk_bytes in
        (Some (take count remaining), b\<lparr>db_offset := db_offset b + count\<rparr>))"

definition is_end_stream :: "download_body \<Rightarrow> bool" where
  "is_end_stream b \<longleftrightarrow> db_offset b = length (sb_bytes (db_stored b))"

definition size_hint :: "download_body \<Rightarrow> nat" where
  "size_hint b = length (sb_bytes (db_stored b)) - db_offset b"

text \<open>All the frames of a body, as its consumer polls them.\<close>

function body_frames :: "download_body \<Rightarrow> string list" where
  "body_frames b = (case poll_frame b of (None, _) \<Rightarrow> [] | (Some f, b') \<Rightarrow> f # body_frames b')"
  by pat_completeness auto

lemma poll_frame_Some:
  assumes "poll_frame b = (Some f, b')"
  shows "f \<noteq> []" "length f \<le> chunk_bytes" "remaining_bytes b = f @ remaining_bytes b'"
    "size_hint b = length f + size_hint b'" "db_stored b' = db_stored b"
    "db_offset b \<le> length (sb_bytes (db_stored b)) \<Longrightarrow>
       db_offset b' \<le> length (sb_bytes (db_stored b'))"
proof -
  have f: "f = take (min (length (remaining_bytes b)) chunk_bytes) (remaining_bytes b)"
    "remaining_bytes b \<noteq> []"
    "b' = b\<lparr>db_offset := db_offset b + min (length (remaining_bytes b)) chunk_bytes\<rparr>"
    using assms by (auto simp: poll_frame_def Let_def split: if_splits)
  have len: "length (remaining_bytes b) = size_hint b" "length (remaining_bytes b') = size_hint b'"
    by (simp_all add: remaining_bytes_def size_hint_def)
  show split: "remaining_bytes b = f @ remaining_bytes b'"
  proof -
    have "remaining_bytes b' = drop (min (length (remaining_bytes b)) chunk_bytes) (remaining_bytes b)"
      unfolding f(3) by (simp add: remaining_bytes_def add.commute)
    then show ?thesis unfolding f(1) by (simp only: append_take_drop_id)
  qed
  show "f \<noteq> []" "length f \<le> chunk_bytes" "db_stored b' = db_stored b"
    using f by (auto simp: chunk_bytes_def)
  show "size_hint b = length f + size_hint b'"
    using arg_cong [OF split, of length] len by simp
  show "db_offset b' \<le> length (sb_bytes (db_stored b'))"
    if "db_offset b \<le> length (sb_bytes (db_stored b))"
    using that f by (auto simp: remaining_bytes_def min_def)
qed

termination body_frames
proof (relation "measure size_hint", goal_cases)
  case 1
  then show ?case by simp
next
  case (2 b p b' f)
  then have "poll_frame b = (Some f, b')" by simp
  from poll_frame_Some(1,4) [OF this] show ?case by (cases f) simp_all
qed

declare body_frames.simps [simp del]

section \<open>Handlers\<close>

text \<open>
  A transfer request: method, path, \<open>Authorization\<close> values, what \<open>to_bytes\<close> yields for the
  body within \<open>MAX_UPLOAD_BYTES\<close> (\<open>None\<close>: too large or broken off), and the budget of the
  lease it was admitted under.
\<close>

record transfer_request =
  tq_method :: string
  tq_path :: string
  tq_authorization :: "string list"
  tq_body :: "string option"
  tq_budget :: "budget option"

text \<open>\<open>HeaderValue::to_str\<close>: visible ASCII and tabs.\<close>

definition header_str :: "string \<Rightarrow> string option" where
  "header_str v = (if list_all (\<lambda>c. 32 \<le> byte c \<and> byte c < 127 \<or> byte c = 9) v then Some v else None)"

definition bearer :: "string list \<Rightarrow> string option" where
  "bearer values = (case values of [] \<Rightarrow> None
     | v # rest \<Rightarrow>
         obind (header_str v) (\<lambda>v. obind (strip_prefix ''Bearer '' v) (\<lambda>token.
           if rest = [] \<and> length token = 43 then Some token else None)))"

definition direction_of :: "string \<Rightarrow> direction option" where
  "direction_of m = (if m = ''PUT'' then Some Upload else if m = ''GET'' then Some Download else None)"

text \<open>The middleware: \<open>Inl\<close> is the status it answers itself.\<close>

definition authenticate_transfer :: "file_env \<Rightarrow> (nat \<Rightarrow> nat) \<Rightarrow> transfer_request \<Rightarrow> transfer_files
    \<Rightarrow> (nat + direction \<times> string) \<times> transfer_files" where
  "authenticate_transfer fx clk rq s =
     (case direction_of (tq_method rq) of None \<Rightarrow> (Inl 405, s)
      | Some dir \<Rightarrow>
      (case (strip_prefix http_prefix (tq_path rq), bearer (tq_authorization rq)) of
        (Some fid, Some token) \<Rightarrow>
          if length fid = 43 \<and> list_all is_id_byte fid
          then (case admits_grant fx clk fid token dir s of
              (True, s') \<Rightarrow> (Inr (dir, fid), s') | (False, s') \<Rightarrow> (Inl 401, s'))
          else (Inl 401, s)
      | _ \<Rightarrow> (Inl 401, s)))"

datatype transfer_response = Status nat | Body download_body

definition upload_http :: "file_env \<Rightarrow> (nat \<Rightarrow> nat) \<Rightarrow> string \<Rightarrow> transfer_request \<Rightarrow> transfer_files
    \<Rightarrow> (unit exn + transfer_response) \<times> transfer_files" where
  "upload_http fx clk fid rq s =
     (case tq_budget rq of None \<Rightarrow> (Inr (Status 503), s)
      | Some b \<Rightarrow>
      case bearer (tq_authorization rq) of None \<Rightarrow> (Inr (Status 401), s)
      | Some token \<Rightarrow>
      case tq_body rq of None \<Rightarrow> (Inr (Status 413), s)
      | Some bytes \<Rightarrow>
      if \<not> is_ok (budget_check b clk 0) then (Inr (Status 503), s)
      else case upload_bytes fx (\<lambda>i. clk (Suc i)) fid token bytes s of
          (Inr _, s') \<Rightarrow> (Inr (Status 204), s')
        | (Inl (Fail _), s') \<Rightarrow> (Inr (Status 400), s')
        | (Inl _, s') \<Rightarrow> (Inl Panic, s'))"

definition download_http :: "file_env \<Rightarrow> (nat \<Rightarrow> nat) \<Rightarrow> string \<Rightarrow> transfer_request \<Rightarrow> transfer_files
    \<Rightarrow> transfer_response \<times> transfer_files" where
  "download_http fx clk fid rq s =
     (if (case tq_budget rq of None \<Rightarrow> True | Some b \<Rightarrow> \<not> is_ok (budget_check b clk 0))
      then (Status 503, s)
      else case bearer (tq_authorization rq) of None \<Rightarrow> (Status 401, s)
      | Some token \<Rightarrow>
      case download_bytes fx (\<lambda>i. clk (Suc i)) fid token s of
        (Inr b, s') \<Rightarrow> (Body \<lparr> db_stored = b, db_offset = 0 \<rparr>, s')
      | (Inl _, s') \<Rightarrow> (Status 400, s'))"

text \<open>
  The route \<open>/file-transfers/{id}\<close> behind the middleware. The identifier of the path is the
  authenticated one: it has no percent escapes.
\<close>

definition transfer_route :: "file_env \<Rightarrow> (nat \<Rightarrow> nat) \<Rightarrow> transfer_request \<Rightarrow> transfer_files
    \<Rightarrow> (unit exn + transfer_response) \<times> transfer_files" where
  "transfer_route fx clk rq s =
     (case authenticate_transfer fx clk rq s of
        (Inl status, s') \<Rightarrow> (Inr (Status status), s')
      | (Inr (Upload, fid), s') \<Rightarrow> upload_http fx (\<lambda>i. clk (2 + i)) fid rq s'
      | (Inr (Download, fid), s') \<Rightarrow>
          (case download_http fx (\<lambda>i. clk (2 + i)) fid rq s' of (r, s'') \<Rightarrow> (Inr r, s'')))"

section \<open>Routes\<close>

lemma authenticate_shrinks:
  "files_ok fx s \<Longrightarrow> authenticate_transfer fx clk rq s = (r, s') \<Longrightarrow> shrinks fx s s'"
  by (auto simp: authenticate_transfer_def shrinks_refl dest: admits_grant_shrinks
      split: option.splits if_splits prod.splits bool.splits)

lemma authenticate_Inr:
  assumes "authenticate_transfer fx clk rq s = (Inr (dir, fid), s')"
  shows "direction_of (tq_method rq) = Some dir \<and> tq_path rq = http_prefix @ fid \<and>
    length fid = 43 \<and> list_all is_id_byte fid \<and> (\<exists>token. bearer (tq_authorization rq) = Some token)"
  using assms by (auto simp: authenticate_transfer_def strip_prefix_Some_iff
      split: option.splits if_splits prod.splits bool.splits)

lemma upload_http_204:
  assumes "upload_http fx clk fid rq s = (Inr (Status 204), s')"
  obtains token bytes v where "bearer (tq_authorization rq) = Some token" "tq_body rq = Some bytes"
    "upload_bytes fx (\<lambda>i. clk (Suc i)) fid token bytes s = (Inr v, s')"
  using assms by (auto simp: upload_http_def split: option.splits if_splits prod.splits sum.splits exn.splits)

lemma upload_http_other:
  assumes "files_ok fx s" "upload_http fx clk fid rq s = (r, s')" "r \<noteq> Inr (Status 204)"
  shows "shrinks fx s s' \<and> (\<exists>n. r = Inr (Status n))"
proof -
  have "upload_bytes fx clk' fid token bytes s = (Inl x, s') \<Longrightarrow>
      (\<exists>e. x = Fail e) \<and> shrinks fx s s'" for clk' token bytes x
    using assms(1) by (rule upload_Inl)
  with assms show ?thesis
    by (fastforce simp: upload_http_def shrinks_refl
        split: option.splits if_splits prod.splits sum.splits exn.splits)
qed

lemma download_http_Body:
  assumes "download_http fx clk fid rq s = (Body b, s')"
  obtains token where "bearer (tq_authorization rq) = Some token" "db_offset b = 0"
    "download_bytes fx (\<lambda>i. clk (Suc i)) fid token s = (Inr (db_stored b), s')"
  using assms by (auto simp: download_http_def split: option.splits if_splits prod.splits sum.splits)

lemma download_http_Status:
  assumes "files_ok fx s" "download_http fx clk fid rq s = (Status n, s')"
  shows "shrinks fx s s'"
proof -
  have "download_bytes fx clk' fid token s = (Inl x, s') \<Longrightarrow> shrinks fx s s'" for clk' token x
    using assms(1) by (rule download_Inl)
  with assms show ?thesis
    by (auto simp: download_http_def shrinks_refl split: option.splits if_splits prod.splits sum.splits)
qed

text \<open>A request is refused with a status, stores an upload, or takes a file out of the store.\<close>

lemma transfer_route_cases:
  assumes ok: "files_ok fx s" and route: "transfer_route fx clk rq s = (r, s')"
  obtains (refused) n where "r = Inr (Status n)" "shrinks fx s s'"
  | (received) fid token bytes s1 v where "tq_path rq = http_prefix @ fid" "tq_method rq = ''PUT''"
      "bearer (tq_authorization rq) = Some token" "tq_body rq = Some bytes"
      "r = Inr (Status 204)" "shrinks fx s s1"
      "upload_bytes fx (\<lambda>i. clk (2 + Suc i)) fid token bytes s1 = (Inr v, s')"
  | (delivered) fid token b s1 where "tq_path rq = http_prefix @ fid" "tq_method rq = ''GET''"
      "bearer (tq_authorization rq) = Some token"
      "r = Inr (Body b)" "db_offset b = 0" "shrinks fx s s1"
      "download_bytes fx (\<lambda>i. clk (2 + Suc i)) fid token s1 = (Inr (db_stored b), s')"
proof -
  obtain a s1 where a: "authenticate_transfer fx clk rq s = (a, s1)" by fastforce
  note sh = authenticate_shrinks [OF ok a]
  show thesis
  proof (cases a)
    case (Inl status)
    with route a have "r = Inr (Status status)" "s' = s1" by (simp_all add: transfer_route_def)
    with sh refused show thesis by simp
  next
    case (Inr p)
    obtain dir fid where p: "p = (dir, fid)" by fastforce
    from authenticate_Inr [OF a [unfolded Inr p]]
    have path: "tq_path rq = http_prefix @ fid" and m: "direction_of (tq_method rq) = Some dir" by auto
    show thesis
    proof (cases dir)
      case Upload
      then have put: "tq_method rq = ''PUT''"
        using m by (auto simp: direction_of_def split: if_splits)
      have up: "upload_http fx (\<lambda>i. clk (2 + i)) fid rq s1 = (r, s')"
        using route a Inr p Upload by (simp add: transfer_route_def)
      show thesis
      proof (cases "r = Inr (Status 204)")
        case True
        show thesis
          by (rule upload_http_204 [OF up [unfolded True]]) (rule received [OF path put _ _ True sh])
      next
        case False
        from upload_http_other [OF shrinksD(1) [OF sh] up False] sh refused show thesis
          by (blast intro: shrinks_trans)
      qed
    next
      case Download
      then have get: "tq_method rq = ''GET''"
        using m by (auto simp: direction_of_def split: if_splits)
      obtain q where down: "download_http fx (\<lambda>i. clk (2 + i)) fid rq s1 = (q, s')" and q: "r = Inr q"
        using route a Inr p Download by (auto simp: transfer_route_def split: prod.splits)
      show thesis
      proof (cases q)
        case (Status n)
        from shrinks_trans [OF sh download_http_Status [OF shrinksD(1) [OF sh] down [unfolded Status]]]
        show thesis by (rule refused [OF q [unfolded Status]])
      next
        case (Body b)
        show thesis
          by (rule download_http_Body [OF down [unfolded Body]])
            (rule delivered [OF path get _ q [unfolded Body] _ sh])
      qed
    qed
  qed
qed

section \<open>The system\<close>

text \<open>The store and the bodies still being streamed.\<close>

record transfer_system =
  sy_files :: transfer_files
  sy_bodies :: "download_body list"

definition initial_system :: transfer_system where
  "initial_system = \<lparr> sy_files = default_transfer_files, sy_bodies = [] \<rparr>"

datatype transfer_event =
    PublishCall string string "mcp_error exn + file_value"
  | TakeCall string string "mcp_error exn + string"
  | UploadAuthorization string "mcp_error + json"
  | DownloadAuthorization string string "mcp_error + json"
  | Transferred transfer_request "unit exn + transfer_response"
  | Housekeeping

definition started_bodies :: "unit exn + transfer_response \<Rightarrow> download_body list" where
  "started_bodies r = (case r of Inr (Body b) \<Rightarrow> [b] | _ \<Rightarrow> [])"

inductive transfer_step :: "file_env \<Rightarrow> transfer_system \<Rightarrow> transfer_event \<Rightarrow> transfer_system \<Rightarrow> bool"
  for fx where
  published: "publish_bytes fx clk owner name mime bytes (sy_files y) = (pr, s) \<Longrightarrow>
    transfer_step fx y (PublishCall owner bytes pr) (y\<lparr>sy_files := s\<rparr>)"
| taken: "take_bytes clk owner u (sy_files y) = (tr, s) \<Longrightarrow>
    transfer_step fx y (TakeCall owner u tr) (y\<lparr>sy_files := s\<rparr>)"
| upload_authorized: "authorize_upload fx clk owner up base (sy_files y) = (ar, s) \<Longrightarrow>
    transfer_step fx y (UploadAuthorization owner ar) (y\<lparr>sy_files := s\<rparr>)"
| download_authorized: "authorize_download fx clk owner dp base (sy_files y) = (ar, s) \<Longrightarrow>
    transfer_step fx y (DownloadAuthorization owner (dp_uri dp) ar) (y\<lparr>sy_files := s\<rparr>)"
| transferred: "transfer_route fx clk rq (sy_files y) = (rr, s) \<Longrightarrow>
    transfer_step fx y (Transferred rq rr)
      (y\<lparr>sy_files := s, sy_bodies := started_bodies rr @ sy_bodies y\<rparr>)"
| polled: "i < length (sy_bodies y) \<Longrightarrow>
    transfer_step fx y Housekeeping
      (y\<lparr>sy_bodies := (sy_bodies y)[i := snd (poll_frame (sy_bodies y ! i))]\<rparr>)"
| finished: "sy_bodies y = bs @ b # bs' \<Longrightarrow>
    transfer_step fx y Housekeeping
      (y\<lparr>sy_files := release (db_stored b) (sy_files y), sy_bodies := bs @ bs'\<rparr>)"
| ticked: "transfer_step fx y Housekeeping (y\<lparr>sy_files := prune t (sy_files y)\<rparr>)"
| shut_down: "transfer_step fx y Housekeeping (y\<lparr>sy_files := clear_entries (sy_files y)\<rparr>)"

inductive transfer_run :: "file_env \<Rightarrow> transfer_event list \<Rightarrow> transfer_system \<Rightarrow> bool" for fx where
  start: "transfer_run fx [] initial_system"
| step: "transfer_run fx tr y \<Longrightarrow> transfer_step fx y a y' \<Longrightarrow> transfer_run fx (a # tr) y'"

inductive_cases transfer_stepE [elim]: "transfer_step fx y a y'"
inductive_cases transferredE: "transfer_step fx y (Transferred rq rr) y'"

definition body_ok :: "download_body \<Rightarrow> bool" where
  "body_ok b \<longleftrightarrow> sb_permits (db_stored b) = length (sb_bytes (db_stored b)) \<and>
     db_offset b \<le> length (sb_bytes (db_stored b))"

definition body_permits :: "download_body list \<Rightarrow> nat" where
  "body_permits bs = sum_list (map (\<lambda>b. sb_permits (db_stored b)) bs)"

definition system_ok :: "file_env \<Rightarrow> transfer_system \<Rightarrow> bool" where
  "system_ok fx y \<longleftrightarrow> files_ok fx (sy_files y) \<and>
     accounted (sy_files y) + body_permits (sy_bodies y) = max_stored_bytes \<and>
     list_all body_ok (sy_bodies y)"

lemma body_permits_simps [simp]:
  "body_permits [] = 0" "body_permits (b # bs) = sb_permits (db_stored b) + body_permits bs"
  "body_permits (bs @ bs') = body_permits bs + body_permits bs'"
  by (simp_all add: body_permits_def)

lemma body_permits_poll:
  "i < length bs \<Longrightarrow> body_permits (bs[i := snd (poll_frame (bs ! i))]) = body_permits bs"
proof (induction bs arbitrary: i)
  case (Cons b bs)
  have "db_stored (snd (poll_frame b)) = db_stored b"
    by (simp add: poll_frame_def Let_def)
  with Cons show ?case by (cases i) simp_all
qed simp

lemma body_ok_poll: "body_ok b \<Longrightarrow> body_ok (snd (poll_frame b))"
  by (auto simp: body_ok_def poll_frame_def Let_def remaining_bytes_def min_def)

lemma transfer_route_ok:
  assumes "files_ok fx s" "transfer_route fx clk rq s = (r, s')"
  shows "files_ok fx s' \<and> accounted s' + body_permits (started_bodies r) = accounted s \<and>
    list_all body_ok (started_bodies r)"
  using assms
proof (cases rule: transfer_route_cases)
  case (refused n)
  then show ?thesis by (simp add: started_bodies_def shrinks_def)
next
  case (received fid token bytes s1 v)
  from upload_ok [OF shrinksD(1) [OF received(6)] received(7)] shrinksD(2) [OF received(6)] received(5)
  show ?thesis by (simp add: started_bodies_def)
next
  case (delivered fid token b s1)
  note ok = shrinksD(1) [OF delivered(6)]
  obtain e where e: "map_of (tf_entries s1) fid = Some e" "fe_bytes e = Some (db_stored b)"
    using download_Inr [OF ok delivered(7)] by blast
  with files_ok_entry [OF ok e(1)] have "sb_permits (db_stored b) = length (sb_bytes (db_stored b))"
    by (auto simp: entry_ok_def)
  with download_ok [OF ok delivered(7)] shrinksD(2) [OF delivered(6)] delivered(4,5)
  show ?thesis by (simp add: started_bodies_def body_ok_def)
qed

lemma transfer_step_ok:
  assumes "transfer_step fx y a y'" "system_ok fx y"
  shows "system_ok fx y'"
  using assms
proof (induction rule: transfer_step.induct)
  case (published clk owner name mime bytes y pr s)
  with publish_ok [of fx "sy_files y"] show ?case by (fastforce simp: system_ok_def)
next
  case (taken clk owner u y tr s)
  with take_ok [of fx "sy_files y"] show ?case by (fastforce simp: system_ok_def)
next
  case (upload_authorized clk owner up base y ar s)
  with authorize_upload_ok [of fx "sy_files y"] show ?case by (fastforce simp: system_ok_def)
next
  case (download_authorized clk owner dp base y ar s)
  with authorize_download_ok [of fx "sy_files y"] show ?case by (fastforce simp: system_ok_def)
next
  case (transferred clk rq y rr s)
  with transfer_route_ok [of fx "sy_files y" clk rq rr s] show ?case by (auto simp: system_ok_def)
next
  case (polled i y)
  then show ?case
    by (auto simp: system_ok_def body_permits_poll list_all_length nth_list_update body_ok_poll)
next
  case (finished y bs b bs')
  then show ?case by (auto simp: system_ok_def intro!: release_ok)
next
  case (ticked y t)
  then show ?case by (simp add: system_ok_def prune_ok)
next
  case (shut_down y)
  with clear_ok [of fx "sy_files y"] show ?case by (simp add: system_ok_def)
qed

lemma initial_system_ok: "system_ok fx initial_system"
  by (simp add: system_ok_def initial_system_def default_files_ok)

lemma transfer_run_ok: "transfer_run fx tr y \<Longrightarrow> system_ok fx y"
  by (induction rule: transfer_run.induct) (blast intro: transfer_step_ok initial_system_ok)+

section \<open>Who brought which bytes\<close>

text \<open>What an authorisation hands out: the file's URI and the bearer token.\<close>

definition issued_uri :: "json \<Rightarrow> string option" where
  "issued_uri j = obind (jget ''file'' j) (\<lambda>f. obind (jget ''uri'' f) as_str)"

definition issued_token :: "string \<Rightarrow> json \<Rightarrow> string option" where
  "issued_token k j = obind (jget k j) (\<lambda>d. obind (jget ''headers'' d) (\<lambda>h.
     obind (jget ''Authorization'' h) (\<lambda>a. obind (as_str a) (strip_prefix ''Bearer ''))))"

text \<open>The event hands \<open>owner\<close> a token of this hash for the file.\<close>

fun hands_out :: "file_env \<Rightarrow> direction \<Rightarrow> string \<Rightarrow> string \<Rightarrow> string \<Rightarrow> transfer_event \<Rightarrow> bool" where
  "hands_out fx Upload owner fid hash (UploadAuthorization o' (Inr j)) \<longleftrightarrow>
     o' = owner \<and> issued_uri j = Some (uri_prefix @ fid) \<and>
     map_option (fx_sha256 fx) (issued_token ''upload'' j) = Some hash"
| "hands_out fx Download owner fid hash (DownloadAuthorization o' u (Inr j)) \<longleftrightarrow>
     o' = owner \<and> u = uri_prefix @ fid \<and>
     map_option (fx_sha256 fx) (issued_token ''download'' j) = Some hash"
| "hands_out fx dir owner fid hash a \<longleftrightarrow> False"

fun publishes :: "string \<Rightarrow> string \<Rightarrow> string \<Rightarrow> transfer_event \<Rightarrow> bool" where
  "publishes owner fid bytes (PublishCall o' b (Inr f)) \<longleftrightarrow>
     o' = owner \<and> b = bytes \<and> fv_uri f = uri_prefix @ fid"
| "publishes owner fid bytes a \<longleftrightarrow> False"

text \<open>The event receives the bytes of an upload, under a token of this hash.\<close>

fun receives :: "file_env \<Rightarrow> string \<Rightarrow> string \<Rightarrow> string \<Rightarrow> transfer_event \<Rightarrow> bool" where
  "receives fx fid bytes hash (Transferred rq (Inr (Status n))) \<longleftrightarrow>
     n = 204 \<and> tq_method rq = ''PUT'' \<and> tq_path rq = http_prefix @ fid \<and> tq_body rq = Some bytes \<and>
     map_option (fx_sha256 fx) (bearer (tq_authorization rq)) = Some hash"
| "receives fx fid bytes hash a \<longleftrightarrow> False"

definition uploaded_by ::
  "file_env \<Rightarrow> transfer_event list \<Rightarrow> string \<Rightarrow> string \<Rightarrow> string \<Rightarrow> bool" where
  "uploaded_by fx tr owner fid bytes \<longleftrightarrow> (\<exists>hash. list_ex (receives fx fid bytes hash) tr \<and>
     list_ex (hands_out fx Upload owner fid hash) tr)"

definition published_for :: "transfer_event list \<Rightarrow> string \<Rightarrow> string \<Rightarrow> string \<Rightarrow> bool" where
  "published_for tr owner fid bytes \<longleftrightarrow> list_ex (publishes owner fid bytes) tr"

text \<open>The history accounts for an entry.\<close>

definition accounted_for :: "file_env \<Rightarrow> transfer_event list \<Rightarrow> string \<Rightarrow> file_entry \<Rightarrow> bool" where
  "accounted_for fx tr fid e \<longleftrightarrow>
     (case fe_bytes e of None \<Rightarrow> True
      | Some b \<Rightarrow> if fe_uploaded e then uploaded_by fx tr (fe_owner e) fid (sb_bytes b)
          else published_for tr (fe_owner e) fid (sb_bytes b)) \<and>
     (case fe_grant e of None \<Rightarrow> True
      | Some g \<Rightarrow> list_ex (hands_out fx (gr_direction g) (fe_owner e) fid (gr_hash g)) tr)"

lemma accounted_for_mono: "accounted_for fx tr fid e \<Longrightarrow> accounted_for fx (a # tr) fid e"
  unfolding accounted_for_def uploaded_by_def published_for_def
  by (auto split: option.splits if_splits)

lemma accounted_for_regrant:
  "accounted_for fx tr fid e \<Longrightarrow>
     list_ex (hands_out fx (gr_direction g) (fe_owner e) fid (gr_hash g)) tr \<Longrightarrow>
     accounted_for fx tr fid (e\<lparr>fe_grant := Some g\<rparr>)"
  by (cases "fe_bytes e") (simp_all add: accounted_for_def)

lemma jget_JObj: "jget k (JObj fs) = map_of fs k"
  by (simp add: jget_def)

lemma file_json_uri: "jget ''uri'' (file_value_json f) = Some (JStr (fv_uri f))"
  by (simp add: file_value_json_def jget_def)

lemma strip_prefix_append: "strip_prefix p (p @ s) = Some s"
  by (simp add: strip_prefix_Some_iff)

lemma descriptor_token:
  assumes "descriptor fx t base fid dir s = (Inr (g, d), s')" "jget k j = Some d"
  shows "map_option (fx_sha256 fx) (issued_token k j) = Some (gr_hash g)"
  using assms(1) strip_prefix_append [of "''Bearer ''"]
  by (auto simp: issued_token_def assms(2) descriptor_def jget_JObj as_str_def
      split: prod.splits sum.splits option.splits)

text \<open>Where the entries after a step come from.\<close>

definition traced :: "file_env \<Rightarrow> transfer_event list \<Rightarrow> transfer_system \<Rightarrow> bool" where
  "traced fx tr y \<longleftrightarrow> (\<forall>fid e. map_of (tf_entries (sy_files y)) fid = Some e \<longrightarrow> accounted_for fx tr fid e)"

lemma traced_shrinks:
  assumes "traced fx tr y" "shrinks fx (sy_files y) s"
  shows "traced fx (a # tr) (y\<lparr>sy_files := s\<rparr>)"
  using assms accounted_for_mono unfolding traced_def shrinks_def by simp

lemma traced_insert:
  assumes "traced fx tr y" "shrinks fx (sy_files y) s"
    "tf_entries s' = tf_entries (insert_entry fid e s)" "accounted_for fx (a # tr) fid e"
  shows "traced fx (a # tr) (y\<lparr>sy_files := s'\<rparr>)"
  using traced_shrinks [OF assms(1,2), of a] assms(3,4)
  by (simp add: traced_def insert_entry_lookup)

lemma traced_remove:
  assumes "traced fx tr y" "shrinks fx (sy_files y) s"
    "tf_entries s' = tf_entries (remove_entry fid s)"
  shows "traced fx (a # tr) (y\<lparr>sy_files := s'\<rparr>)"
  using traced_shrinks [OF assms(1,2), of a] assms(3)
  by (simp add: traced_def remove_entry_lookup)

lemma traced_cong: "sy_files y' = sy_files y \<Longrightarrow> traced fx tr y' \<longleftrightarrow> traced fx tr y"
  by (simp add: traced_def)

lemma traced_publish:
  assumes ok: "files_ok fx (sy_files y)" and tr: "traced fx tr y"
    and pub: "publish_bytes fx clk owner name mime bytes (sy_files y) = (pr, s)"
  shows "traced fx (PublishCall owner bytes pr # tr) (y\<lparr>sy_files := s\<rparr>)"
proof (cases pr)
  case (Inl x)
  with publish_Inl [OF ok] pub tr show ?thesis by (blast intro: traced_shrinks)
next
  case (Inr f)
  show ?thesis
  proof (rule publish_Inr [OF ok pub [unfolded Inr]])
    fix fid s1
    assume f: "fv_uri f = uri_prefix @ fid" and "tf_entries s1 = tf_entries (prune (clk 0) (sy_files y))"
      "s = insert_entry fid \<lparr> fe_owner = owner, fe_file = f,
       fe_bytes = Some \<lparr> sb_bytes = bytes, sb_permits = length bytes \<rparr>,
       fe_expected_digest = None, fe_expected_size = None, fe_expires = clk 1 + file_ttl,
       fe_grant = None, fe_uploaded = False \<rparr> s1"
    then have e: "tf_entries s = tf_entries (insert_entry fid \<lparr> fe_owner = owner, fe_file = f,
       fe_bytes = Some \<lparr> sb_bytes = bytes, sb_permits = length bytes \<rparr>,
       fe_expected_digest = None, fe_expected_size = None, fe_expires = clk 1 + file_ttl,
       fe_grant = None, fe_uploaded = False \<rparr> (prune (clk 0) (sy_files y)))"
      by (simp add: insert_entry_def)
    show ?thesis
      by (rule traced_insert [OF tr shrinks_prune [OF ok] e])
        (simp add: accounted_for_def published_for_def f Inr)
  qed
qed

lemma traced_take:
  assumes ok: "files_ok fx (sy_files y)" and tr: "traced fx tr y"
    and take: "take_bytes clk owner u (sy_files y) = (q, s)"
  shows "traced fx (TakeCall owner u q # tr) (y\<lparr>sy_files := s\<rparr>)"
proof (cases q)
  case (Inl x)
  with take_Inl [OF ok] take tr show ?thesis by (blast intro: traced_shrinks)
next
  case (Inr bytes)
  show ?thesis
    by (rule take_Inr [OF ok take [unfolded Inr]])
      (rule traced_remove [OF tr shrinks_prune [OF ok]], simp)
qed

lemma traced_authorize_upload:
  assumes ok: "files_ok fx (sy_files y)" and tr: "traced fx tr y"
    and auth: "authorize_upload fx clk owner p base (sy_files y) = (r, s)"
  shows "traced fx (UploadAuthorization owner r # tr) (y\<lparr>sy_files := s\<rparr>)"
proof (cases r)
  case (Inl x)
  with authorize_upload_Inl [OF ok] auth tr show ?thesis by (blast intro: traced_shrinks)
next
  case (Inr j)
  show ?thesis
  proof (rule authorize_upload_Inr [OF ok auth [unfolded Inr]])
    fix fid s1 s2 s3 expected g up
    assume d: "descriptor fx (clk 0) base fid Upload s1 = (Inr (g, up), s2)"
      and sh: "shrinks fx (sy_files y) s3"
      and j: "j = JObj [(''file'', file_value_json \<lparr> fv_uri = uri_prefix @ fid, fv_name = up_name p,
             fv_mime_type = up_mime_type p, fv_size = up_size p, fv_digest = None \<rparr>), (''upload'', up)]"
      and s: "s = insert_entry fid \<lparr> fe_owner = owner,
         fe_file = \<lparr> fv_uri = uri_prefix @ fid, fv_name = up_name p,
             fv_mime_type = up_mime_type p, fv_size = up_size p, fv_digest = None \<rparr>,
         fe_bytes = None, fe_expected_digest = expected, fe_expected_size = up_size p,
         fe_expires = clk 2 + file_ttl, fe_grant = Some g, fe_uploaded = True \<rparr> s3"
    have "jget ''upload'' j = Some up" "issued_uri j = Some (uri_prefix @ fid)"
      using file_json_uri by (simp_all add: j jget_def issued_uri_def as_str_def)
    with descriptor_token [OF d] descriptor_direction [OF d] Inr show ?thesis
      by (intro traced_insert [OF tr sh arg_cong [where f = tf_entries, OF s]]) (simp add: accounted_for_def)
  qed
qed

lemma traced_authorize_download:
  assumes ok: "files_ok fx (sy_files y)" and tr: "traced fx tr y"
    and auth: "authorize_download fx clk owner p base (sy_files y) = (r, s)"
  shows "traced fx (DownloadAuthorization owner (dp_uri p) r # tr) (y\<lparr>sy_files := s\<rparr>)"
proof (cases r)
  case (Inl x)
  with authorize_download_Inl [OF ok] auth tr show ?thesis by (blast intro: traced_shrinks)
next
  case (Inr j)
  show ?thesis
  proof (rule authorize_download_Inr [OF ok auth [unfolded Inr]])
    fix fid s1 e g down
    assume u: "file_id (dp_uri p) = Inr fid"
      and d: "descriptor fx (clk 0) base fid Download (sy_files y) = (Inr (g, down), s1)"
      and sh: "shrinks fx (sy_files y) (prune (clk 1) s1)"
      and e: "map_of (tf_entries (prune (clk 1) s1)) fid = Some e" "fe_owner e = owner"
      and j: "j = JObj [(''file'', file_value_json (fe_file e)), (''download'', down),
                 (''sensitivity'', JStr ''secret'')]"
      and s: "s = insert_entry fid (e\<lparr>fe_grant := Some g\<rparr>) (prune (clk 1) s1)"
    have "dp_uri p = uri_prefix @ fid"
      using u by (auto simp: file_id_def rbind_Inr_iff strip_prefix_Some_iff split: if_splits)
    moreover have "jget ''download'' j = Some down" by (simp add: j jget_def)
    moreover have "accounted_for fx tr fid e"
      using tr shrinksD(3) [OF sh e(1)] by (simp add: traced_def)
    then have "accounted_for fx (DownloadAuthorization owner (dp_uri p) r # tr) fid e"
      by (rule accounted_for_mono)
    ultimately show ?thesis
      using descriptor_token [OF d] descriptor_direction [OF d] Inr e(2)
      by (intro traced_insert [OF tr sh arg_cong [where f = tf_entries, OF s]] accounted_for_regrant)
        simp_all
  qed
qed

lemma traced_transfer:
  assumes ok: "files_ok fx (sy_files y)" and tr: "traced fx tr y"
    and route: "transfer_route fx clk rq (sy_files y) = (r, s)"
  shows "traced fx (Transferred rq r # tr) (y\<lparr>sy_files := s\<rparr>)"
  using ok route
proof (cases rule: transfer_route_cases)
  case (refused n)
  with tr show ?thesis by (blast intro: traced_shrinks)
next
  case (received fid token bytes s1 v)
  show ?thesis
  proof (rule upload_Inr [OF shrinksD(1) [OF received(6)] received(7)])
    fix e :: file_entry and s2
    let ?t = "clk (2 + Suc 0)"
    let ?e = "e\<lparr> fe_file := (fe_file e)\<lparr>fv_size := Some (length bytes)\<rparr>,
       fe_bytes := Some \<lparr> sb_bytes = bytes, sb_permits = length bytes \<rparr>, fe_grant := None \<rparr>"
    assume e: "map_of (tf_entries s1) fid = Some e"
      and valid: "valid_grant fx (clk (2 + Suc 1)) e token Upload"
      and s2: "tf_entries s2 = tf_entries (prune ?t s1)" "s = insert_entry fid ?e s2"
    have up: "fe_uploaded e" "fe_bytes e = None"
      using files_ok_entry [OF shrinksD(1) [OF received(6)] e] valid
      by (auto simp: entry_ok_def valid_grant_def split: option.splits)
    have "accounted_for fx tr fid e"
      using tr shrinksD(3) [OF received(6) e] by (simp add: traced_def)
    then have hash: "list_ex (hands_out fx Upload (fe_owner e) fid (fx_sha256 fx token)) tr"
      using valid by (auto simp: accounted_for_def valid_grant_def split: option.splits)
    have "receives fx fid bytes (fx_sha256 fx token) (Transferred rq r)"
      using received(1-5) by simp
    with hash have "uploaded_by fx (Transferred rq r # tr) (fe_owner e) fid bytes"
      unfolding uploaded_by_def by (intro exI [of _ "fx_sha256 fx token"]) simp
    with up have "accounted_for fx (Transferred rq r # tr) fid ?e" by (simp add: accounted_for_def)
    moreover have "tf_entries s = tf_entries (insert_entry fid ?e (prune ?t s1))"
      using s2 by (simp add: insert_entry_def)
    moreover have "shrinks fx (sy_files y) (prune ?t s1)"
      using shrinks_trans [OF received(6) shrinks_prune [OF shrinksD(1) [OF received(6)]]] .
    ultimately show ?thesis by (intro traced_insert [OF tr])
  qed
next
  case (delivered fid token b s1)
  note ok1 = shrinksD(1) [OF delivered(6)]
  from download_Inr [OF ok1 delivered(7)]
  have "s = remove_entry fid (prune (clk (2 + Suc 0)) s1)" by blast
  with shrinks_trans [OF delivered(6) shrinks_prune [OF ok1]] tr show ?thesis
    by (blast intro: traced_remove)
qed

lemma traced_step:
  assumes "transfer_step fx y a y'" "files_ok fx (sy_files y)" "traced fx tr y"
  shows "traced fx (a # tr) y'"
  using assms
proof (induction rule: transfer_step.induct)
  case (published clk owner name mime bytes y pr s)
  then show ?case by (blast intro: traced_publish)
next
  case (taken clk owner u y q s)
  then show ?case by (blast intro: traced_take)
next
  case (upload_authorized clk owner up base y ar s)
  then show ?case by (blast intro: traced_authorize_upload)
next
  case (download_authorized clk owner dp base y ar s)
  then show ?case by (blast intro: traced_authorize_download)
next
  case (transferred clk rq y rr s)
  then have "traced fx (Transferred rq rr # tr) (y\<lparr>sy_files := s\<rparr>)" by (blast intro: traced_transfer)
  then show ?case by (simp add: traced_def)
next
  case (polled i y)
  then show ?case using accounted_for_mono by (simp add: traced_def)
next
  case (finished y bs b bs')
  then show ?case using accounted_for_mono by (simp add: traced_def)
next
  case (ticked y t)
  then show ?case by (blast intro: traced_shrinks shrinks_prune)
next
  case (shut_down y)
  then show ?case by (simp add: traced_def clear_entries_def)
qed

lemma transfer_run_traced: "transfer_run fx tr y \<Longrightarrow> traced fx tr y"
proof (induction rule: transfer_run.induct)
  case start
  then show ?case by (simp add: traced_def initial_system_def default_transfer_files_def)
next
  case (step tr y a y')
  with transfer_run_ok [OF step(1)] show ?case by (auto simp: system_ok_def intro: traced_step)
qed

text \<open>Events that put a file under an identifier, and events that take it out.\<close>

fun creates :: "string \<Rightarrow> transfer_event \<Rightarrow> bool" where
  "creates fid (PublishCall _ _ (Inr f)) \<longleftrightarrow> fv_uri f = uri_prefix @ fid"
| "creates fid (UploadAuthorization _ (Inr j)) \<longleftrightarrow> issued_uri j = Some (uri_prefix @ fid)"
| "creates fid a \<longleftrightarrow> False"

fun consumes :: "string \<Rightarrow> transfer_event \<Rightarrow> bool" where
  "consumes fid (TakeCall _ u (Inr _)) \<longleftrightarrow> u = uri_prefix @ fid"
| "consumes fid (Transferred rq (Inr (Body _))) \<longleftrightarrow> tq_path rq = http_prefix @ fid"
| "consumes fid a \<longleftrightarrow> False"

abbreviation present :: "string \<Rightarrow> transfer_files \<Rightarrow> bool" where
  "present fid s \<equiv> map_of (tf_entries s) fid \<noteq> None"

lemma shrinks_present: "shrinks fx s s' \<Longrightarrow> present fid s' \<Longrightarrow> present fid s"
  by (auto dest: shrinksD(3))

lemma publish_present:
  assumes ok: "files_ok fx s" and pub: "publish_bytes fx clk owner name mime bytes s = (r, s')"
    and p: "present fid s'"
  shows "present fid s \<or> creates fid (PublishCall owner bytes r)"
proof (cases r)
  case (Inl x)
  with publish_Inl [OF ok] pub p show ?thesis by (blast dest: shrinks_present)
next
  case (Inr f)
  from publish_Inr [OF ok pub [unfolded Inr]] obtain k s1 e where k: "fv_uri f = uri_prefix @ k"
    "tf_entries s1 = tf_entries (prune (clk 0) s)" "s' = insert_entry k e s1" .
  show ?thesis
  proof (cases "fid = k")
    case True
    with k Inr show ?thesis by simp
  next
    case False
    with p k have "present fid (prune (clk 0) s)" by (simp add: insert_entry_lookup)
    with shrinks_present [OF shrinks_prune [OF ok]] show ?thesis by blast
  qed
qed

lemma take_present:
  assumes ok: "files_ok fx s" and take: "take_bytes clk owner u s = (r, s')"
  shows "(present fid s' \<longrightarrow> present fid s) \<and>
    (consumes fid (TakeCall owner u r) \<longrightarrow> present fid s \<and> \<not> present fid s')"
proof (cases r)
  case (Inl x)
  with take_Inl [OF ok] take have "shrinks fx s s'" by blast
  with Inl show ?thesis by (auto dest: shrinks_present)
next
  case (Inr bytes)
  from take_Inr [OF ok take [unfolded Inr]] obtain k e b where "u = uri_prefix @ k"
    "map_of (tf_entries s) k = Some e" "s' = release b (remove_entry k (prune (clk 0) s))" .
  with Inr shrinks_present [OF shrinks_prune [OF ok]] show ?thesis
    by (auto simp: remove_entry_lookup)
qed

lemma authorize_upload_present:
  assumes ok: "files_ok fx s" and auth: "authorize_upload fx clk owner p base s = (r, s')"
    and pr: "present fid s'"
  shows "present fid s \<or> creates fid (UploadAuthorization owner r)"
proof (cases r)
  case (Inl x)
  with authorize_upload_Inl [OF ok] auth pr show ?thesis by (blast dest: shrinks_present)
next
  case (Inr j)
  from authorize_upload_Inr [OF ok auth [unfolded Inr]] obtain k s3 up e where
    k: "shrinks fx s s3" "s' = insert_entry k e s3"
    "j = JObj [(''file'', file_value_json \<lparr> fv_uri = uri_prefix @ k, fv_name = up_name p,
             fv_mime_type = up_mime_type p, fv_size = up_size p, fv_digest = None \<rparr>), (''upload'', up)]" .
  have "issued_uri j = Some (uri_prefix @ k)"
    using file_json_uri by (simp add: k(3) jget_def issued_uri_def as_str_def)
  with Inr k(2) pr shrinks_present [OF k(1)] show ?thesis by (auto simp: insert_entry_lookup split: if_splits)
qed

lemma authorize_download_present:
  assumes ok: "files_ok fx s" and auth: "authorize_download fx clk owner p base s = (r, s')"
    and pr: "present fid s'"
  shows "present fid s"
proof (cases r)
  case (Inl x)
  with authorize_download_Inl [OF ok] auth pr show ?thesis by (blast dest: shrinks_present)
next
  case (Inr j)
  from authorize_download_Inr [OF ok auth [unfolded Inr]] obtain k s1 e g where
    "shrinks fx s (prune (clk 1) s1)" "map_of (tf_entries (prune (clk 1) s1)) k = Some e"
    "s' = insert_entry k (e\<lparr>fe_grant := Some g\<rparr>) (prune (clk 1) s1)" .
  with pr show ?thesis by (auto simp: insert_entry_lookup split: if_splits dest: shrinksD(3))
qed

lemma transfer_present:
  assumes ok: "files_ok fx s" and route: "transfer_route fx clk rq s = (r, s')"
  shows "(present fid s' \<longrightarrow> present fid s) \<and>
    (consumes fid (Transferred rq r) \<longrightarrow> present fid s \<and> \<not> present fid s')"
  using ok route
proof (cases rule: transfer_route_cases)
  case (refused n)
  then show ?thesis by (auto dest: shrinks_present)
next
  case (received k token bytes s1 v)
  from upload_Inr [OF shrinksD(1) [OF received(6)] received(7)] obtain e s2 d where
    "map_of (tf_entries s1) k = Some e"
    "tf_entries s2 = tf_entries (prune (clk (2 + Suc 0)) s1)" "s' = insert_entry k d s2" .
  with received(5) shrinks_present [OF received(6)]
    shrinks_present [OF shrinks_prune [OF shrinksD(1) [OF received(6)]]]
  show ?thesis by (auto simp: insert_entry_lookup split: if_splits dest: shrinksD(3) [OF received(6)])
next
  case (delivered k token b s1)
  note ok1 = shrinksD(1) [OF delivered(6)]
  from download_Inr [OF ok1 delivered(7)] obtain e where e: "map_of (tf_entries s1) k = Some e"
    "s' = remove_entry k (prune (clk (2 + Suc 0)) s1)" by blast
  have "present fid s' \<Longrightarrow> present fid s"
    using e(2) shrinks_present [OF shrinks_trans [OF delivered(6) shrinks_prune [OF ok1]]]
    by (auto simp: remove_entry_lookup split: if_splits)
  moreover have "present k s" using e(1) shrinksD(3) [OF delivered(6)] by blast
  ultimately show ?thesis using e(2) delivered(1,4) by (auto simp: remove_entry_lookup)
qed

lemma step_present:
  assumes "transfer_step fx y a y'" "files_ok fx (sy_files y)"
  shows "(present fid (sy_files y') \<longrightarrow> present fid (sy_files y) \<or> creates fid a) \<and>
    (consumes fid a \<longrightarrow> present fid (sy_files y) \<and> \<not> present fid (sy_files y') \<and> \<not> creates fid a)"
  using assms
proof (induction rule: transfer_step.induct)
  case (published clk owner name mime bytes y pr s)
  with publish_present show ?case by fastforce
next
  case (taken clk owner u y q s)
  with take_present [of fx "sy_files y" clk owner u q s fid] show ?case by simp
next
  case (upload_authorized clk owner up base y ar s)
  with authorize_upload_present show ?case by fastforce
next
  case (download_authorized clk owner dp base y ar s)
  with authorize_download_present show ?case by fastforce
next
  case (transferred clk rq y rr s)
  with transfer_present [of fx "sy_files y" clk rq rr s fid] show ?case by simp
next
  case (ticked y t)
  with shrinks_present [OF shrinks_prune] show ?case by fastforce
qed (simp_all add: clear_entries_def)

lemma transfer_run_counts:
  "transfer_run fx tr y \<Longrightarrow>
     length (filter (consumes fid) tr) + (if present fid (sy_files y) then 1 else 0)
       \<le> length (filter (creates fid) tr)"
proof (induction rule: transfer_run.induct)
  case start
  then show ?case by (simp add: initial_system_def default_transfer_files_def)
next
  case (step tr y a y')
  have "files_ok fx (sy_files y)" using transfer_run_ok [OF step(1)] by (simp add: system_ok_def)
  from step_present [OF step(2) this, of fid] step.IH show ?case by (auto split: if_splits)
qed

section \<open>Properties\<close>

lemma table_permits_bytes:
  "files_ok fx s \<Longrightarrow> table_permits (tf_entries s) =
     sum_list (map (\<lambda>(_, e). case fe_bytes e of None \<Rightarrow> 0 | Some b \<Rightarrow> length (sb_bytes b)) (tf_entries s))"
  unfolding table_permits_def files_ok_def
  by (intro arg_cong [where f = sum_list] map_cong refl)
    (force simp: entry_permits_def entry_ok_def split: option.splits)

lemma body_permits_bytes:
  "list_all body_ok bs \<Longrightarrow> body_permits bs = sum_list (map (\<lambda>b. length (sb_bytes (db_stored b))) bs)"
  by (induction bs) (simp_all add: body_ok_def)

definition stored_total :: "transfer_system \<Rightarrow> nat" where
  "stored_total y =
     sum_list (map (\<lambda>(_, e). case fe_bytes e of None \<Rightarrow> 0 | Some b \<Rightarrow> length (sb_bytes b))
       (tf_entries (sy_files y))) +
     sum_list (map (\<lambda>b. length (sb_bytes (db_stored b))) (sy_bodies y))"

text \<open>
  C30: Whatever principals do, the server holds at most 64 files and at most 16 MiB of credential
  bytes, in the store and in responses being streamed together, and the free permits are exactly
  what is left.
\<close>

theorem transfers_bounded:
  assumes "transfer_run fx tr y"
  shows "length (tf_entries (sy_files y)) \<le> 64 \<and> distinct (map fst (tf_entries (sy_files y))) \<and>
    tf_capacity (sy_files y) + stored_total y = 16 * 1024 * 1024"
proof -
  have ok: "files_ok fx (sy_files y)" "list_all body_ok (sy_bodies y)"
    "accounted (sy_files y) + body_permits (sy_bodies y) = max_stored_bytes"
    using transfer_run_ok [OF assms] by (simp_all add: system_ok_def)
  then have "tf_capacity (sy_files y) + stored_total y = max_stored_bytes"
    by (simp add: stored_total_def accounted_def flip: table_permits_bytes body_permits_bytes)
  with ok(1) show ?thesis by (simp add: files_ok_def max_entries_def max_stored_bytes_def)
qed

lemma body_frames_eq:
  "concat (body_frames b) = remaining_bytes b \<and>
   list_all (\<lambda>f. f \<noteq> [] \<and> length f \<le> chunk_bytes) (body_frames b)"
proof (induction b rule: body_frames.induct)
  case (1 b)
  show ?case
  proof (cases "poll_frame b")
    case (Pair r b')
    show ?thesis
    proof (cases r)
      case None
      with Pair show ?thesis
        by (simp add: body_frames.simps [of b]) (simp add: poll_frame_def Let_def split: if_splits)
    next
      case (Some f)
      have p: "poll_frame b = (Some f, b')" using Pair Some by simp
      from 1 [OF p [symmetric] refl] poll_frame_Some(1-3) [OF p]
      show ?thesis by (simp add: body_frames.simps [of b] p)
    qed
  qed
qed

text \<open>
  The frames of a download are non-empty, at most 16 KiB each, and joined are exactly the
  bytes of the file, as many as the size hint announced.
\<close>

theorem download_streams_the_file:
  "concat (body_frames b) = drop (db_offset b) (sb_bytes (db_stored b)) \<and>
   list_all (\<lambda>f. f \<noteq> [] \<and> length f \<le> 16 * 1024) (body_frames b) \<and>
   length (concat (body_frames b)) = size_hint b"
  using body_frames_eq [of b] by (simp add: remaining_bytes_def chunk_bytes_def size_hint_def)

text \<open>
  C28: Bytes leave the store over HTTP only for a bearer whose hash is that of a token handed to
  a principal who authorised this very download; and the bytes were brought by that same
  principal: published for it by a tool call, or received under an upload token handed to it.
\<close>

theorem downloads_authorized:
  assumes run: "transfer_run fx tr y"
    and step: "transfer_step fx y (Transferred rq (Inr (Body b))) y'"
  shows "\<exists>owner fid token. tq_path rq = http_prefix @ fid \<and>
    bearer (tq_authorization rq) = Some token \<and>
    list_ex (hands_out fx Download owner fid (fx_sha256 fx token)) tr \<and>
    (published_for tr owner fid (sb_bytes (db_stored b)) \<or>
     uploaded_by fx tr owner fid (sb_bytes (db_stored b)))"
proof -
  have ok: "files_ok fx (sy_files y)" using transfer_run_ok [OF run] by (simp add: system_ok_def)
  from step obtain clk s where "transfer_route fx clk rq (sy_files y) = (Inr (Body b), s)"
    by (rule transferredE) auto
  with ok show ?thesis
  proof (cases rule: transfer_route_cases)
    case (delivered fid token b' s1)
    have b: "b' = b" using delivered(4) by simp
    from download_Inr [OF shrinksD(1) [OF delivered(6)] delivered(7)] b obtain e where
      e: "map_of (tf_entries s1) fid = Some e" "fe_bytes e = Some (db_stored b)"
      "valid_grant fx (clk (2 + Suc 1)) e token Download" by auto
    have "accounted_for fx tr fid e"
      using transfer_run_traced [OF run] shrinksD(3) [OF delivered(6) e(1)] by (simp add: traced_def)
    with e have "list_ex (hands_out fx Download (fe_owner e) fid (fx_sha256 fx token)) tr"
      "published_for tr (fe_owner e) fid (sb_bytes (db_stored b)) \<or>
       uploaded_by fx tr (fe_owner e) fid (sb_bytes (db_stored b))"
      by (auto simp: accounted_for_def valid_grant_def split: option.splits if_splits)
    with delivered(1,3) show ?thesis by blast
  qed simp_all
qed

text \<open>
  C29: A tool call takes, on behalf of a principal, only bytes received under an upload token
  that was handed to this principal for this file.
\<close>

theorem takes_authorized:
  assumes run: "transfer_run fx tr y"
    and step: "transfer_step fx y (TakeCall owner u (Inr bytes)) y'"
  shows "\<exists>fid. u = uri_prefix @ fid \<and> uploaded_by fx tr owner fid bytes"
proof -
  have ok: "files_ok fx (sy_files y)" using transfer_run_ok [OF run] by (simp add: system_ok_def)
  from step obtain clk s where take: "take_bytes clk owner u (sy_files y) = (Inr bytes, s)"
    by (auto elim!: transfer_stepE)
  from take_Inr [OF ok take] obtain fid e b where e: "u = uri_prefix @ fid"
    "map_of (tf_entries (sy_files y)) fid = Some e" "fe_owner e = owner" "fe_uploaded e"
    "fe_bytes e = Some b" "sb_bytes b = bytes" .
  have "accounted_for fx tr fid e"
    using transfer_run_traced [OF run] e(2) by (simp add: traced_def)
  with e show ?thesis by (auto simp: accounted_for_def)
qed

text \<open>
  C31: A file is delivered at most as often as it was brought: every publication or upload
  authorisation is consumed at most once, by one tool call or one download.
\<close>

theorem transfers_consumed_once:
  assumes "transfer_run fx tr y"
  shows "length (filter (consumes fid) tr) \<le> length (filter (creates fid) tr)"
  using transfer_run_counts [OF assms, of fid] by linarith

section \<open>Round trips\<close>

text \<open>
  \<open>base64\<close> without padding makes 43 URL-safe characters of the 32 bytes of a draw; entropy and
  URLs are available.
\<close>

definition identifiers_ok :: "file_env \<Rightarrow> bool" where
  "identifiers_ok fx \<longleftrightarrow> (\<forall>n. \<exists>b. fx_entropy fx n = Some b \<and> length (fx_encode fx b) = 43 \<and>
     list_all is_id_byte (fx_encode fx b)) \<and> (\<forall>base p. fx_join fx base p \<noteq> None)"

text \<open>All instants read lie between \<open>t\<close> and one grant lifetime later.\<close>

definition within_grant :: "nat \<Rightarrow> (nat \<Rightarrow> nat) \<Rightarrow> bool" where
  "within_grant t clk \<longleftrightarrow> (\<forall>i. t \<le> clk i \<and> clk i < t + grant_ttl)"

definition transfer_as :: "string \<Rightarrow> string \<Rightarrow> string \<Rightarrow> string option \<Rightarrow> budget \<Rightarrow> transfer_request" where
  "transfer_as m fid token body bd = \<lparr> tq_method = m, tq_path = http_prefix @ fid,
     tq_authorization = [''Bearer '' @ token], tq_body = body, tq_budget = Some bd \<rparr>"

lemma budget_ok: "is_ok (budget_check bd clk k) \<longleftrightarrow> \<not> budget_ended bd clk k"
  by (simp add: budget_check_def budget_ended_def)

lemma id_byte_visible: "is_id_byte c \<Longrightarrow> 32 \<le> byte c \<and> byte c < 127"
  by (auto simp: is_id_byte_def is_ascii_alphanumeric_def is_ascii_digit_def is_ascii_alphabetic_def)

lemma bearer_token:
  assumes "length token = 43" "list_all is_id_byte token"
  shows "bearer [''Bearer '' @ token] = Some token"
proof -
  have "list_all (\<lambda>c. 32 \<le> byte c \<and> byte c < 127 \<or> byte c = 9) token"
    using assms(2) id_byte_visible by (auto simp: list_all_iff)
  then have "header_str (''Bearer '' @ token) = Some (''Bearer '' @ token)"
    by (simp add: header_str_def)
  then show ?thesis
    using strip_prefix_append [of "''Bearer ''" token] assms(1) by (simp add: bearer_def)
qed

lemma random_id_total:
  assumes "identifiers_ok fx"
  obtains fid where "random_id fx s = (Inr fid, s\<lparr>tf_draws := Suc (tf_draws s)\<rparr>)"
    "length fid = 43" "list_all is_id_byte fid"
proof -
  obtain b where "fx_entropy fx (tf_draws s) = Some b" "length (fx_encode fx b) = 43"
    "list_all is_id_byte (fx_encode fx b)"
    using assms unfolding identifiers_ok_def by blast
  then show thesis using that by (simp add: random_id_def)
qed

lemma file_id_of_uri:
  "length fid = 43 \<Longrightarrow> list_all is_id_byte fid \<Longrightarrow> file_id (uri_prefix @ fid) = Inr fid"
  by (simp add: file_id_def strip_prefix_append)

lemma descriptor_total:
  assumes "identifiers_ok fx"
  obtains token g d s' where "descriptor fx t base fid dir s = (Inr (g, d), s')"
    "length token = 43" "list_all is_id_byte token" "gr_hash g = fx_sha256 fx token"
    "gr_direction g = dir" "gr_expires g = t + grant_ttl"
    "\<forall>k j. jget k j = Some d \<longrightarrow> issued_token k j = Some token"
proof -
  obtain token where r: "random_id fx s = (Inr token, s\<lparr>tf_draws := Suc (tf_draws s)\<rparr>)"
    "length token = 43" "list_all is_id_byte token"
    using random_id_total [OF assms] .
  have "fx_join fx base (http_prefix @ fid) \<noteq> None"
    using assms unfolding identifiers_ok_def by blast
  then obtain url where url: "fx_join fx base (http_prefix @ fid) = Some url" by blast
  show thesis
    by (rule that) (use r url strip_prefix_append [of "''Bearer ''" token] in
      \<open>auto simp: descriptor_def issued_token_def jget_JObj as_str_def\<close>)
qed

lemma authenticate_granted:
  assumes "direction_of m = Some dir" "length fid = 43" "list_all is_id_byte fid"
    "length token = 43" "list_all is_id_byte token" "files_ok fx s"
    "map_of (tf_entries s) fid = Some e" "clk 0 < fe_expires e"
    "valid_grant fx (clk 1) e token dir" "(fe_bytes e \<noteq> None) = (dir = Download)"
  shows "authenticate_transfer fx clk (transfer_as m fid token body bd) s = (Inr (dir, fid), prune (clk 0) s)"
proof -
  have "admits_grant fx clk fid token dir s = (True, prune (clk 0) s)"
    using assms(6-10) prune_lookup [OF assms(6), of "clk 0" fid e] by (simp add: admits_grant_def Let_def)
  then show ?thesis
    using assms(1-5) bearer_token [OF assms(4,5)]
    by (simp add: authenticate_transfer_def transfer_as_def strip_prefix_append)
qed

lemma prune_keeps:
  "files_ok fx s \<Longrightarrow> map_of (tf_entries s) fid = Some e \<Longrightarrow> t < fe_expires e \<Longrightarrow>
     map_of (tf_entries (prune t s)) fid = Some e"
  by (simp add: prune_lookup)

text \<open>A granted entry with bytes is delivered, and is then gone.\<close>

lemma granted_download:
  assumes ok: "files_ok fx s" and fid: "length fid = 43" "list_all is_id_byte fid"
    and token: "length token = 43" "list_all is_id_byte token"
    and e: "map_of (tf_entries s) fid = Some e" "fe_bytes e = Some b" "\<And>i. clk i < fe_expires e"
    and grant: "\<And>i. valid_grant fx (clk i) e token Download"
    and alive: "\<not> budget_ended bd (\<lambda>i. clk (2 + i)) 0"
  shows "\<exists>s'. transfer_route fx clk (transfer_as ''GET'' fid token body bd) s =
      (Inr (Body \<lparr> db_stored = b, db_offset = 0 \<rparr>), s') \<and> map_of (tf_entries s') fid = None"
proof -
  let ?rq = "transfer_as ''GET'' fid token body bd" and ?s = "prune (clk 0) s"
  have "direction_of ''GET'' = Some Download" by (simp add: direction_of_def)
  then have auth: "authenticate_transfer fx clk ?rq s = (Inr (Download, fid), ?s)"
    using e(2) by (intro authenticate_granted [OF _ fid token ok e(1) e(3) grant]) simp_all
  have e2: "map_of (tf_entries (prune (clk k) ?s)) fid = Some e" for k
    using prune_keeps [OF prune_ok [OF ok] prune_keeps [OF ok e(1) e(3)] e(3)] .
  have "download_bytes fx (\<lambda>i. clk (2 + Suc i)) fid token ?s =
      (Inr b, remove_entry fid (prune (clk (2 + Suc 0)) ?s))"
    by (simp add: download_bytes_def Let_def e2 e(2) grant numeral_3_eq_3)
  moreover have "is_ok (budget_check bd (\<lambda>i. clk (2 + i)) 0)"
    using alive by (simp add: budget_ok)
  ultimately show ?thesis
    using auth bearer_token [OF token]
    by (simp add: transfer_route_def download_http_def remove_entry_lookup transfer_as_def)
qed

text \<open>Within the lifetime of a grant no file expires, and a grant of that time is valid.\<close>

lemma within_grant_alive:
  assumes "within_grant t c" "within_grant t c'"
  shows "c' i < c k + file_ttl"
proof -
  have "t \<le> c k" "c' i < t + grant_ttl" using assms by (simp_all add: within_grant_def)
  then show ?thesis by (simp add: grant_ttl_def file_ttl_def secs_def)
qed

lemma within_grant_valid:
  assumes "within_grant t c" "within_grant t c'" "fe_grant e = Some g" "gr_expires g = c k + grant_ttl"
    "gr_hash g = fx_sha256 fx token" "gr_direction g = dir"
  shows "valid_grant fx (c' i) e token dir"
proof -
  have "t \<le> c k" "c' i < t + grant_ttl" using assms(1,2) by (simp_all add: within_grant_def)
  then show ?thesis by (simp add: valid_grant_def assms(3-6))
qed

text \<open>
  C39: What a tool call publishes for a principal, the principal can fetch: it authorises the
  download with the URI it was given, and the request with the token it is handed streams
  exactly the published bytes, after which the file is gone.
\<close>

theorem published_file_round_trip:
  assumes run: "transfer_run fx tr y" and ids: "identifiers_ok fx"
    and pub: "publish_bytes fx c1 owner name mime bytes (sy_files y) = (Inr f, s1)"
    and clocks: "within_grant t c1" "within_grant t c2" "within_grant t c3"
    and alive: "\<not> budget_ended bd (\<lambda>i. c3 (2 + i)) 0"
  shows "\<exists>fid j s2 token b s3.
    authorize_download fx c2 owner \<lparr> dp_uri = fv_uri f \<rparr> base s1 = (Inr j, s2) \<and>
    fv_uri f = uri_prefix @ fid \<and> issued_token ''download'' j = Some token \<and>
    transfer_route fx c3 (transfer_as ''GET'' fid token None bd) s2 = (Inr (Body b), s3) \<and>
    concat (body_frames b) = bytes \<and> map_of (tf_entries s3) fid = None"
proof -
  have ok: "files_ok fx (sy_files y)" using transfer_run_ok [OF run] by (simp add: system_ok_def)
  have ok1: "files_ok fx s1" using publish_ok [OF ok pub] by blast
  obtain fid where fid: "random_id fx (sy_files y) = (Inr fid, (sy_files y)\<lparr>tf_draws := Suc (tf_draws (sy_files y))\<rparr>)"
    "length fid = 43" "list_all is_id_byte fid"
    using random_id_total [OF ids] .
  have uri: "fv_uri f = uri_prefix @ fid"
    using pub fid(1) by (auto simp: publish_bytes_def Let_def split: if_splits sum.splits prod.splits)
  let ?b = "\<lparr> sb_bytes = bytes, sb_permits = length bytes \<rparr>"
  obtain e where e: "map_of (tf_entries s1) fid = Some e" "fe_owner e = owner" "fe_bytes e = Some ?b"
    "fe_expires e = c1 1 + file_ttl"
    by (rule publish_Inr [OF ok pub]) (use uri in \<open>auto simp: insert_entry_lookup\<close>)
  have later: "c i < fe_expires e" if "within_grant t c" for c i
    using within_grant_alive [OF clocks(1) that] by (simp add: e(4))
  obtain token g d s1' where d: "descriptor fx (c2 0) base fid Download s1 = (Inr (g, d), s1')"
    and token: "length token = 43" "list_all is_id_byte token" "gr_hash g = fx_sha256 fx token"
    "gr_direction g = Download" "gr_expires g = c2 0 + grant_ttl"
    and issued: "\<forall>k j. jget k j = Some d \<longrightarrow> issued_token k j = Some token"
    by (rule descriptor_total [OF ids, where t = "c2 0" and base = base and fid = fid
        and dir = Download and s = s1], rule that)
  let ?e = "e\<lparr>fe_grant := Some g\<rparr>" and ?s = "prune (c2 1) s1'"
  let ?j = "JObj [(''file'', file_value_json (fe_file e)), (''download'', d), (''sensitivity'', JStr ''secret'')]"
  have "map_of (tf_entries s1') fid = Some e" using e(1) descriptor_frame(1) [OF d] by simp
  then have e2: "map_of (tf_entries ?s) fid = Some e"
    using prune_keeps [OF descriptor_ok [OF d ok1]] later [OF clocks(2)] by blast
  then have auth: "authorize_download fx c2 owner \<lparr> dp_uri = fv_uri f \<rparr> base s1 =
      (Inr ?j, insert_entry fid ?e ?s)"
    using d e(2,3) file_id_of_uri [OF fid(2,3)] by (simp add: authorize_download_def uri Let_def)
  have ok2: "files_ok fx (insert_entry fid ?e ?s)" using authorize_download_ok [OF ok1 auth] by blast
  have grant: "valid_grant fx (c3 i) ?e token Download" for i
    by (rule within_grant_valid [OF clocks(2,3) _ token(5,3,4)]) simp
  have "issued_token ''download'' ?j = Some token" using issued by (simp add: jget_JObj)
  moreover have "\<exists>s3. transfer_route fx c3 (transfer_as ''GET'' fid token None bd) (insert_entry fid ?e ?s) =
      (Inr (Body \<lparr> db_stored = ?b, db_offset = 0 \<rparr>), s3) \<and> map_of (tf_entries s3) fid = None"
    using later [OF clocks(3)] e(3) grant alive
    by (intro granted_download [OF ok2 fid(2,3) token(1,2), where e = ?e])
      (simp_all add: insert_entry_lookup)
  moreover have "concat (body_frames \<lparr> db_stored = ?b, db_offset = 0 \<rparr>) = bytes"
    using body_frames_eq [of "\<lparr> db_stored = ?b, db_offset = 0 \<rparr>"] by (simp add: remaining_bytes_def)
  ultimately show ?thesis using auth uri by blast
qed

lemma prune_capacity: "tf_capacity s \<le> tf_capacity (prune t s)"
  by (simp add: prune_def)

lemma store_bytes_fits:
  "length bytes \<le> max_upload_bytes \<Longrightarrow> length bytes \<le> tf_capacity s \<Longrightarrow>
     \<exists>s'. store_bytes bytes s = (Inr \<lparr> sb_bytes = bytes, sb_permits = length bytes \<rparr>, s')"
  by (simp add: store_bytes_def max_upload_bytes_def u32_max_def)

text \<open>A granted upload entry receives fitting bytes.\<close>

lemma granted_upload:
  assumes ok: "files_ok fx s" and fid: "length fid = 43" "list_all is_id_byte fid"
    and token: "length token = 43" "list_all is_id_byte token"
    and e: "map_of (tf_entries s) fid = Some e" "fe_bytes e = None" "\<And>i. clk i < fe_expires e"
    and grant: "\<And>i. valid_grant fx (clk i) e token Upload"
    and fits: "length bytes \<le> max_upload_bytes" "length bytes \<le> tf_capacity s"
      "fe_expected_size e \<in> {None, Some (length bytes)}"
      "fe_expected_digest e \<in> {None, Some (fx_sha256 fx bytes)}"
    and alive: "\<not> budget_ended bd (\<lambda>i. clk (2 + i)) 0"
  shows "\<exists>s' e'. transfer_route fx clk (transfer_as ''PUT'' fid token (Some bytes) bd) s =
      (Inr (Status 204), s') \<and> map_of (tf_entries s') fid = Some e' \<and> fe_owner e' = fe_owner e \<and>
      fe_uploaded e' = fe_uploaded e \<and> fe_expires e' = fe_expires e \<and>
      fe_bytes e' = Some \<lparr> sb_bytes = bytes, sb_permits = length bytes \<rparr>"
proof -
  let ?rq = "transfer_as ''PUT'' fid token (Some bytes) bd" and ?s = "prune (clk 0) s"
  have "direction_of ''PUT'' = Some Upload" by (simp add: direction_of_def)
  then have auth: "authenticate_transfer fx clk ?rq s = (Inr (Upload, fid), ?s)"
    using e(2) by (intro authenticate_granted [OF _ fid token ok e(1) e(3) grant]) simp_all
  have e2: "map_of (tf_entries (prune (clk k) ?s)) fid = Some e" for k
    using prune_keeps [OF prune_ok [OF ok] prune_keeps [OF ok e(1) e(3)] e(3)] .
  have cap: "length bytes \<le> tf_capacity (prune (clk 3) ?s)"
    using fits(2) prune_capacity [of s "clk 0"] prune_capacity [of ?s "clk 3"] by linarith
  obtain s2 where st: "store_bytes bytes (prune (clk 3) ?s) =
      (Inr \<lparr> sb_bytes = bytes, sb_permits = length bytes \<rparr>, s2)"
    using store_bytes_fits [OF fits(1) cap] by blast
  let ?e = "e\<lparr> fe_file := (fe_file e)\<lparr>fv_size := Some (length bytes)\<rparr>,
       fe_bytes := Some \<lparr> sb_bytes = bytes, sb_permits = length bytes \<rparr>, fe_grant := None \<rparr>"
  have "upload_bytes fx (\<lambda>i. clk (2 + Suc i)) fid token bytes ?s = (Inr (), insert_entry fid ?e s2)"
    using st fits(1,3,4) grant e(2)
    by (auto simp: upload_bytes_def Let_def e2 numeral_3_eq_3)
  moreover have "is_ok (budget_check bd (\<lambda>i. clk (2 + i)) 0)"
    using alive by (simp add: budget_ok)
  ultimately have "transfer_route fx clk ?rq s = (Inr (Status 204), insert_entry fid ?e s2)"
    using auth bearer_token [OF token]
    by (simp add: transfer_route_def upload_http_def transfer_as_def)
  moreover have "map_of (tf_entries (insert_entry fid ?e s2)) fid = Some ?e"
    by (simp add: insert_entry_lookup)
  moreover have "fe_owner ?e = fe_owner e" "fe_uploaded ?e = fe_uploaded e"
    "fe_expires ?e = fe_expires e" "fe_bytes ?e = Some \<lparr> sb_bytes = bytes, sb_permits = length bytes \<rparr>"
    by simp_all
  ultimately show ?thesis by blast
qed

text \<open>An authorised upload: its entry waits for the bytes under the token it hands out.\<close>

lemma authorized_upload:
  assumes ok: "files_ok fx s" and ids: "identifiers_ok fx"
    and auth: "authorize_upload fx c1 owner p base s = (Inr j, s1)"
    and fits: "up_size p \<in> {None, Some (length bytes)}"
      "parse_upload_digest fx (up_digest p) \<in> {Inr None, Inr (Some (fx_sha256 fx bytes))}"
  obtains fid token g e where "length fid = 43" "list_all is_id_byte fid"
    "length token = 43" "list_all is_id_byte token" "gr_hash g = fx_sha256 fx token"
    "gr_direction g = Upload" "gr_expires g = c1 0 + grant_ttl" "issued_token ''upload'' j = Some token"
    "issued_uri j = Some (uri_prefix @ fid)"
    "map_of (tf_entries s1) fid = Some e" "fe_owner e = owner" "fe_bytes e = None"
    "fe_uploaded e" "fe_expires e = c1 2 + file_ttl" "fe_grant e = Some g"
    "fe_expected_size e \<in> {None, Some (length bytes)}"
    "fe_expected_digest e \<in> {None, Some (fx_sha256 fx bytes)}"
proof -
  obtain fid where fid: "random_id fx s = (Inr fid, s\<lparr>tf_draws := Suc (tf_draws s)\<rparr>)"
    "length fid = 43" "list_all is_id_byte fid"
    using random_id_total [OF ids] .
  obtain token g d sd where d: "descriptor fx (c1 0) base fid Upload
      (s\<lparr>tf_draws := Suc (tf_draws s)\<rparr>) = (Inr (g, d), sd)"
    and token: "length token = 43" "list_all is_id_byte token" "gr_hash g = fx_sha256 fx token"
    "gr_direction g = Upload" "gr_expires g = c1 0 + grant_ttl"
    and issued: "\<forall>k j. jget k j = Some d \<longrightarrow> issued_token k j = Some token"
    by (rule descriptor_total [OF ids, where t = "c1 0" and base = base and fid = fid and dir = Upload
        and s = "s\<lparr>tf_draws := Suc (tf_draws s)\<rparr>"], rule that)
  show thesis
  proof (rule authorize_upload_Inr [OF ok auth])
    fix fid' sa sb sc expected g' up
    assume a: "parse_upload_digest fx (up_digest p) = Inr expected"
      "random_id fx s = (Inr fid', sa)" "descriptor fx (c1 0) base fid' Upload sa = (Inr (g', up), sb)"
      "j = JObj [(''file'', file_value_json \<lparr> fv_uri = uri_prefix @ fid', fv_name = up_name p,
             fv_mime_type = up_mime_type p, fv_size = up_size p, fv_digest = None \<rparr>), (''upload'', up)]"
      "s1 = insert_entry fid' \<lparr> fe_owner = owner,
         fe_file = \<lparr> fv_uri = uri_prefix @ fid', fv_name = up_name p,
             fv_mime_type = up_mime_type p, fv_size = up_size p, fv_digest = None \<rparr>,
         fe_bytes = None, fe_expected_digest = expected, fe_expected_size = up_size p,
         fe_expires = c1 2 + file_ttl, fe_grant = Some g', fe_uploaded = True \<rparr> sc"
    have "fid' = fid" "g' = g" "up = d" using a(2,3) fid(1) d by simp_all
    with a fits issued show thesis
      by (intro that [OF fid(2,3) token]) (auto simp: insert_entry_lookup jget_JObj issued_uri_def as_str_def file_json_uri)
  qed
qed

text \<open>
  C40: What a principal uploads reaches the tools: it authorises the upload, sends the announced
  bytes with the token it is handed, and a tool call that takes the URI on its behalf obtains
  exactly these bytes, after which the file is gone.
\<close>

theorem uploaded_file_round_trip:
  assumes run: "transfer_run fx tr y" and ids: "identifiers_ok fx"
    and auth: "authorize_upload fx c1 owner p base (sy_files y) = (Inr j, s1)"
    and clocks: "within_grant t c1" "within_grant t c2" "within_grant t c3"
    and fits: "length bytes \<le> max_upload_bytes" "length bytes \<le> tf_capacity s1"
      "up_size p \<in> {None, Some (length bytes)}"
      "parse_upload_digest fx (up_digest p) \<in> {Inr None, Inr (Some (fx_sha256 fx bytes))}"
    and alive: "\<not> budget_ended bd (\<lambda>i. c2 (2 + i)) 0"
  shows "\<exists>fid token s2 s3. issued_uri j = Some (uri_prefix @ fid) \<and>
    issued_token ''upload'' j = Some token \<and>
    transfer_route fx c2 (transfer_as ''PUT'' fid token (Some bytes) bd) s1 = (Inr (Status 204), s2) \<and>
    take_bytes c3 owner (uri_prefix @ fid) s2 = (Inr bytes, s3) \<and> map_of (tf_entries s3) fid = None"
proof -
  have ok: "files_ok fx (sy_files y)" using transfer_run_ok [OF run] by (simp add: system_ok_def)
  have ok1: "files_ok fx s1" using authorize_upload_ok [OF ok auth] by blast
  obtain fid token g e where fid: "length fid = 43" "list_all is_id_byte fid"
    and token: "length token = 43" "list_all is_id_byte token" "gr_hash g = fx_sha256 fx token"
      "gr_direction g = Upload" "gr_expires g = c1 0 + grant_ttl" "issued_token ''upload'' j = Some token"
    and uri: "issued_uri j = Some (uri_prefix @ fid)"
    and e: "map_of (tf_entries s1) fid = Some e" "fe_owner e = owner" "fe_bytes e = None"
      "fe_uploaded e" "fe_expires e = c1 2 + file_ttl" "fe_grant e = Some g"
      "fe_expected_size e \<in> {None, Some (length bytes)}"
      "fe_expected_digest e \<in> {None, Some (fx_sha256 fx bytes)}"
    by (rule authorized_upload [OF ok ids auth fits(3,4)], rule that)
  have later: "c i < fe_expires e" if "within_grant t c" for c i
    using within_grant_alive [OF clocks(1) that] by (simp add: e(5))
  note grant = within_grant_valid [OF clocks(1,2) e(6) token(5,3,4)]
  obtain s2 e' where up: "transfer_route fx c2 (transfer_as ''PUT'' fid token (Some bytes) bd) s1 =
      (Inr (Status 204), s2)" and e': "map_of (tf_entries s2) fid = Some e'" "fe_owner e' = owner"
      "fe_uploaded e'" "fe_expires e' = fe_expires e"
      "fe_bytes e' = Some \<lparr> sb_bytes = bytes, sb_permits = length bytes \<rparr>"
    using granted_upload [OF ok1 fid token(1,2) e(1,3) later [OF clocks(2)] grant fits(1,2) e(7,8) alive]
      e(2,4) by auto
  have ok2: "files_ok fx s2" using transfer_route_ok [OF ok1 up] by blast
  have "map_of (tf_entries (prune (c3 0) s2)) fid = Some e'"
    using prune_keeps [OF ok2 e'(1)] later [OF clocks(3)] e'(4) by simp
  then have "take_bytes c3 owner (uri_prefix @ fid) s2 =
      (Inr bytes, release \<lparr> sb_bytes = bytes, sb_permits = length bytes \<rparr>
        (remove_entry fid (prune (c3 0) s2)))"
    using e'(2,3,5) file_id_of_uri [OF fid] by (simp add: take_bytes_def Let_def)
  with up token(6) uri show ?thesis by (auto simp: remove_entry_lookup)
qed

section \<open>Examples\<close>

text \<open>
  Entropy that counts its draws, an encoding that pads 32 bytes to 43 characters, the identity
  as a hash: a principal is handed a token and uploads a secret; another file is published.
\<close>

definition sample_file_env :: file_env where
  "sample_file_env = \<lparr> fx_entropy = (\<lambda>n. Some (replicate 32 (if n = 0 then CHR ''a'' else CHR ''b''))),
     fx_sha256 = (\<lambda>s. s), fx_encode = (\<lambda>s. s @ replicate 11 CHR ''A''), fx_decode = Some,
     fx_join = (\<lambda>base p. Some (base @ p)) \<rparr>"

definition sample_alive :: budget where
  "sample_alive = \<lparr> eb_deadline = secs 10, eb_cancelled = (\<lambda>_. False) \<rparr>"

definition sample_id :: string where "sample_id = replicate 32 CHR ''a'' @ replicate 11 CHR ''A''"
definition sample_token :: string where "sample_token = replicate 32 CHR ''b'' @ replicate 11 CHR ''A''"

definition sample_publication :: "(mcp_error exn + file_value) \<times> transfer_files" where
  "sample_publication = publish_bytes sample_file_env (\<lambda>_. 0) ''alice'' ''webhook-token.txt''
     ''text/plain'' ''hunter2'' default_transfer_files"

definition sample_file :: file_value where
  "sample_file = \<lparr> fv_uri = uri_prefix @ sample_id, fv_name = Some ''webhook-token.txt'',
     fv_mime_type = Some ''text/plain'', fv_size = Some 7, fv_digest = None \<rparr>"

definition sample_download_auth :: "(mcp_error + json) \<times> transfer_files" where
  "sample_download_auth = authorize_download sample_file_env (\<lambda>_. 0) ''alice''
     \<lparr> dp_uri = uri_prefix @ sample_id \<rparr> ''http://host'' (snd sample_publication)"

definition sample_upload_params :: upload_params where
  "sample_upload_params = \<lparr> up_name = None, up_mime_type = None, up_size = Some 7, up_digest = None \<rparr>"

definition sample_upload_auth :: "(mcp_error + json) \<times> transfer_files" where
  "sample_upload_auth = authorize_upload sample_file_env (\<lambda>_. 0) ''alice'' sample_upload_params
     ''http://host'' default_transfer_files"

definition sample_get :: "(unit exn + transfer_response) \<times> transfer_files" where
  "sample_get = transfer_route sample_file_env (\<lambda>_. 0)
     (transfer_as ''GET'' sample_id sample_token None sample_alive) (snd sample_download_auth)"

definition sample_put :: "(unit exn + transfer_response) \<times> transfer_files" where
  "sample_put = transfer_route sample_file_env (\<lambda>_. 0)
     (transfer_as ''PUT'' sample_id sample_token (Some ''hunter2'') sample_alive) (snd sample_upload_auth)"

definition sample_take :: "(mcp_error exn + string) \<times> transfer_files" where
  "sample_take = take_bytes (\<lambda>_. 0) ''alice'' (uri_prefix @ sample_id) (snd sample_put)"

lemma sample_results:
  "fst sample_publication = Inr sample_file"
  "is_ok (fst sample_download_auth)"
  "fst sample_get = Inr (Body \<lparr> db_stored = \<lparr> sb_bytes = ''hunter2'', sb_permits = 7 \<rparr>, db_offset = 0 \<rparr>)"
  "is_ok (fst sample_upload_auth)"
  "fst sample_put = Inr (Status 204)"
  "fst sample_take = Inr ''hunter2''"
  "7 \<le> tf_capacity (snd sample_upload_auth)"
  by code_simp+

lemma sample_ids: "identifiers_ok sample_file_env"
  by (simp add: identifiers_ok_def sample_file_env_def is_id_byte_def is_ascii_alphanumeric_def
      is_ascii_alphabetic_def list_all_iff)

lemma sample_clock: "within_grant 0 (\<lambda>_. 0)"
  by (simp add: within_grant_def grant_ttl_def secs_def)

lemma sample_budget: "\<not> budget_ended sample_alive (\<lambda>i. (\<lambda>_. 0) (2 + i)) 0"
  by (simp add: budget_ended_def sample_alive_def secs_def)

definition sample_system :: "transfer_files \<Rightarrow> transfer_system" where
  "sample_system s = \<lparr> sy_files = s, sy_bodies = [] \<rparr>"

definition publish_history :: "transfer_event list" where
  "publish_history = [DownloadAuthorization ''alice'' (uri_prefix @ sample_id) (fst sample_download_auth),
     PublishCall ''alice'' ''hunter2'' (fst sample_publication)]"

definition upload_history :: "transfer_event list" where
  "upload_history = [Transferred (transfer_as ''PUT'' sample_id sample_token (Some ''hunter2'') sample_alive)
       (fst sample_put), UploadAuthorization ''alice'' (fst sample_upload_auth)]"

lemma sample_publish_run: "transfer_run sample_file_env publish_history (sample_system (snd sample_download_auth))"
proof -
  have "transfer_step sample_file_env initial_system
      (PublishCall ''alice'' ''hunter2'' (fst sample_publication)) (sample_system (snd sample_publication))"
    using transfer_step.published [of sample_file_env "\<lambda>_. 0" "''alice''" "''webhook-token.txt''"
        "''text/plain''" "''hunter2''" initial_system "fst sample_publication" "snd sample_publication"]
    by (simp add: initial_system_def sample_publication_def sample_system_def)
  moreover have "transfer_step sample_file_env (sample_system (snd sample_publication))
      (DownloadAuthorization ''alice'' (uri_prefix @ sample_id) (fst sample_download_auth))
      (sample_system (snd sample_download_auth))"
    using transfer_step.download_authorized [of sample_file_env "\<lambda>_. 0" "''alice''"
        "\<lparr> dp_uri = uri_prefix @ sample_id \<rparr>" "''http://host''" "sample_system (snd sample_publication)"
        "fst sample_download_auth" "snd sample_download_auth"]
    by (simp add: sample_download_auth_def sample_system_def)
  ultimately show ?thesis
    unfolding publish_history_def by (blast intro: transfer_run.intros)
qed

lemma sample_upload_run: "transfer_run sample_file_env upload_history (sample_system (snd sample_put))"
proof -
  have "transfer_step sample_file_env initial_system
      (UploadAuthorization ''alice'' (fst sample_upload_auth)) (sample_system (snd sample_upload_auth))"
    using transfer_step.upload_authorized [of sample_file_env "\<lambda>_. 0" "''alice''" sample_upload_params
        "''http://host''" initial_system "fst sample_upload_auth" "snd sample_upload_auth"]
    by (simp add: initial_system_def sample_upload_auth_def sample_system_def)
  moreover have "transfer_step sample_file_env (sample_system (snd sample_upload_auth))
      (Transferred (transfer_as ''PUT'' sample_id sample_token (Some ''hunter2'') sample_alive) (fst sample_put))
      (sample_system (snd sample_put))"
    using transfer_step.transferred [of sample_file_env "\<lambda>_. 0"
        "transfer_as ''PUT'' sample_id sample_token (Some ''hunter2'') sample_alive"
        "sample_system (snd sample_upload_auth)" "fst sample_put" "snd sample_put"]
    by (simp add: sample_put_def [symmetric] sample_system_def sample_results(5) started_bodies_def
        prod_eq_iff)
  ultimately show ?thesis
    unfolding upload_history_def by (blast intro: transfer_run.intros)
qed

theorem transfers_bounded_witness:
  "transfer_run sample_file_env upload_history (sample_system (snd sample_put)) \<and>
   tf_capacity (snd sample_put) + stored_total (sample_system (snd sample_put)) = 16 * 1024 * 1024"
  using transfers_bounded [OF sample_upload_run] sample_upload_run by (simp add: sample_system_def)

theorem transfers_consumed_once_witness:
  "transfer_run sample_file_env upload_history (sample_system (snd sample_put)) \<and>
   length (filter (consumes sample_id) upload_history) \<le> length (filter (creates sample_id) upload_history)"
  using transfers_consumed_once [OF sample_upload_run] sample_upload_run by blast

theorem downloads_authorized_witness:
  "\<exists>owner fid token. http_prefix @ sample_id = http_prefix @ fid \<and>
    list_ex (hands_out sample_file_env Download owner fid (fx_sha256 sample_file_env token)) publish_history \<and>
    (published_for publish_history owner fid ''hunter2'' \<or>
     uploaded_by sample_file_env publish_history owner fid ''hunter2'')"
proof -
  let ?rq = "transfer_as ''GET'' sample_id sample_token None sample_alive"
  have "transfer_step sample_file_env (sample_system (snd sample_download_auth))
      (Transferred ?rq (fst sample_get))
      (sample_system (snd sample_download_auth) \<lparr>sy_files := snd sample_get,
         sy_bodies := started_bodies (fst sample_get) @ []\<rparr>)"
    using transfer_step.transferred [of sample_file_env "\<lambda>_. 0" ?rq
        "sample_system (snd sample_download_auth)" "fst sample_get" "snd sample_get"]
    by (simp add: sample_get_def [symmetric] sample_system_def)
  from downloads_authorized [OF sample_publish_run this [unfolded sample_results(3)]]
  show ?thesis by (auto simp: transfer_as_def)
qed

theorem takes_authorized_witness:
  "\<exists>fid. uri_prefix @ sample_id = uri_prefix @ fid \<and>
     uploaded_by sample_file_env upload_history ''alice'' fid ''hunter2''"
proof -
  have "transfer_step sample_file_env (sample_system (snd sample_put))
      (TakeCall ''alice'' (uri_prefix @ sample_id) (fst sample_take))
      (sample_system (snd sample_put) \<lparr>sy_files := snd sample_take\<rparr>)"
    using transfer_step.taken [of "\<lambda>_. 0" "''alice''" "uri_prefix @ sample_id"
        "sample_system (snd sample_put)" "fst sample_take" "snd sample_take"]
    by (simp add: sample_take_def [symmetric] sample_system_def)
  from takes_authorized [OF sample_upload_run this [unfolded sample_results(6)]]
  show ?thesis .
qed

theorem published_file_round_trip_witness:
  "\<exists>fid j s2 token b s3.
    authorize_download sample_file_env (\<lambda>_. 0) ''alice'' \<lparr> dp_uri = fv_uri sample_file \<rparr> ''http://host''
      (snd sample_publication) = (Inr j, s2) \<and>
    fv_uri sample_file = uri_prefix @ fid \<and> issued_token ''download'' j = Some token \<and>
    transfer_route sample_file_env (\<lambda>_. 0) (transfer_as ''GET'' fid token None sample_alive) s2 = (Inr (Body b), s3) \<and>
    concat (body_frames b) = ''hunter2'' \<and> map_of (tf_entries s3) fid = None"
proof -
  have "publish_bytes sample_file_env (\<lambda>_. 0) ''alice'' ''webhook-token.txt'' ''text/plain'' ''hunter2''
      (sy_files initial_system) = (Inr sample_file, snd sample_publication)"
    using sample_results(1) by (simp add: initial_system_def sample_publication_def prod_eq_iff)
  from published_file_round_trip [OF transfer_run.start sample_ids this sample_clock sample_clock
      sample_clock sample_budget]
  show ?thesis .
qed

theorem uploaded_file_round_trip_witness:
  "\<exists>fid token s2 s3 j. fst sample_upload_auth = Inr j \<and> issued_uri j = Some (uri_prefix @ fid) \<and>
    issued_token ''upload'' j = Some token \<and>
    transfer_route sample_file_env (\<lambda>_. 0) (transfer_as ''PUT'' fid token (Some ''hunter2'') sample_alive)
      (snd sample_upload_auth) = (Inr (Status 204), s2) \<and>
    take_bytes (\<lambda>_. 0) ''alice'' (uri_prefix @ fid) s2 = (Inr ''hunter2'', s3) \<and> map_of (tf_entries s3) fid = None"
proof -
  obtain j where j: "fst sample_upload_auth = Inr j"
    using sample_results(4) by (cases "fst sample_upload_auth") simp_all
  then have auth: "authorize_upload sample_file_env (\<lambda>_. 0) ''alice'' sample_upload_params ''http://host''
      (sy_files initial_system) = (Inr j, snd sample_upload_auth)"
    by (simp add: initial_system_def sample_upload_auth_def prod_eq_iff)
  have "length ''hunter2'' \<le> max_upload_bytes" "length ''hunter2'' \<le> tf_capacity (snd sample_upload_auth)"
    "up_size sample_upload_params \<in> {None, Some (length ''hunter2'')}"
    "parse_upload_digest sample_file_env (up_digest sample_upload_params) \<in>
       {Inr None, Inr (Some (fx_sha256 sample_file_env ''hunter2''))}"
    using sample_results(7)
    by (simp_all add: max_upload_bytes_def sample_upload_params_def parse_upload_digest_def)
  from uploaded_file_round_trip [OF transfer_run.start sample_ids auth sample_clock sample_clock
      sample_clock this sample_budget] j
  show ?thesis by blast
qed

end
