(* ===== verification/Mcp_Errors.thy ===== *)
theory Mcp_Errors
  imports Mcp_Files Mcp_Execution Mcp_History Api_Client
begin

text \<open>
  The handler's state and what every tool shares (\<open>lib.rs\<close>, \<open>errors.rs\<close> and the publishing
  half of \<open>history.rs\<close> in \<open>crates/komodo-mcp/src\<close>): the administrative client behind the
  checks of \<open>admin()\<close>, the calls on the credential file service, the MCP errors made of
  upstream failures, and the data of an error decoded again when it carries a credential file.
\<close>

section \<open>The handler\<close>

text \<open>
  The clients, the request budget, the cancellation token of the RPC (its state at each
  observation), the profile, and the file service bound to a principal.
\<close>

record 'f handler =
  h_read :: client
  h_admin :: "client option"
  h_budget :: "budget option"
  h_rpc_cancellation :: "(nat \<Rightarrow> bool) option"
  h_profile :: tool_profile
  h_files :: "(string \<times> 'f file_ops) option"

definition handler_new :: "client \<Rightarrow> client \<Rightarrow> 'f handler" where
  "handler_new read admin = \<lparr> h_read = read, h_admin = Some admin, h_budget = None,
     h_rpc_cancellation = None, h_profile = Full, h_files = None \<rparr>"

definition handler_read_only :: "client \<Rightarrow> 'f handler" where
  "handler_read_only read = \<lparr> h_read = read, h_admin = None, h_budget = None,
     h_rpc_cancellation = None, h_profile = Status, h_files = None \<rparr>"

definition with_execution_budget :: "budget \<Rightarrow> 'f handler \<Rightarrow> 'f handler" where
  "with_execution_budget b h = h\<lparr>h_budget := Some b\<rparr>"

definition with_tool_profile :: "tool_profile \<Rightarrow> 'f handler \<Rightarrow> 'f handler" where
  "with_tool_profile p h = h\<lparr>h_profile := p\<rparr>"

definition with_credential_files :: "string \<Rightarrow> 'f file_ops \<Rightarrow> 'f handler \<Rightarrow> 'f handler" where
  "with_credential_files owner ops h = h\<lparr>h_files := Some (owner, ops)\<rparr>"

text \<open>The invocation has not ended at the observation \<open>k\<close>.\<close>

definition invocation_alive :: "env \<Rightarrow> 'f handler \<Rightarrow> nat \<Rightarrow> bool" where
  "invocation_alive env h k \<longleftrightarrow>
     (case h_budget h of None \<Rightarrow> True | Some b \<Rightarrow> \<not> budget_ended b (now env) k) \<and>
     (case h_rpc_cancellation h of None \<Rightarrow> True | Some c \<Rightarrow> \<not> c k)"

text \<open>\<open>admin()\<close>: one observation, then the administrative client if there is one.\<close>

definition admin_client :: "env \<Rightarrow> 'f handler \<Rightarrow> ('f, mcp_error, client) io" where
  "admin_client env h = (\<lambda>w.
     let k = steps w; w' = w\<lparr>steps := Suc (steps w)\<rparr> in
     case (case h_budget h of None \<Rightarrow> Inr () | Some b \<Rightarrow> budget_check b (now env) k) of
       Inl e \<Rightarrow> fail e w'
     | Inr _ \<Rightarrow>
         if (case h_rpc_cancellation h of None \<Rightarrow> False | Some c \<Rightarrow> c k) then fail ended_error w'
         else lift (ok_or (invalid_request ''administrative upstream credentials unavailable'' None)
           (h_admin h)) w')"

section \<open>The file service\<close>

text \<open>
  A publication reads the clock twice, a take once. The refusal of a publication is a value:
  its callers go on without the file.
\<close>

definition publish_file :: "env \<Rightarrow> string \<Rightarrow> 'f file_ops \<Rightarrow> string \<Rightarrow> string \<Rightarrow> string
    \<Rightarrow> ('f, mcp_error, mcp_error + file_value) io" where
  "publish_file env owner ops name mime bytes = (\<lambda>w.
     let (r, s) = fo_publish ops (\<lambda>i. now env (steps w + i)) owner name mime bytes (store w);
         w' = w\<lparr>store := s, steps := steps w + 2\<rparr>
     in case r of Inr f \<Rightarrow> (Inr (Inr f), w')
      | Inl (Fail e) \<Rightarrow> (Inr (Inl e), w')
      | Inl _ \<Rightarrow> (Inl Panic, w'))"

definition take_file :: "env \<Rightarrow> string \<Rightarrow> 'f file_ops \<Rightarrow> string \<Rightarrow> ('f, mcp_error, string) io" where
  "take_file env owner ops uri = (\<lambda>w.
     let (r, s) = fo_take ops (\<lambda>i. now env (steps w + i)) owner uri (store w);
         w' = w\<lparr>store := s, steps := steps w + 1\<rparr>
     in case r of Inr bytes \<Rightarrow> (Inr bytes, w')
      | Inl (Fail e) \<Rightarrow> (Inl (Fail e), w')
      | Inl _ \<Rightarrow> (Inl Panic, w'))"

definition file_transport_error :: mcp_error where
  "file_transport_error =
     invalid_params ''literal credential values require native file transfer'' None"

section \<open>Errors\<close>

text \<open>The enum is untagged: a string, or an object with the one field \<open>segments\<close>.\<close>

fun text_json :: "diagnostic_text \<Rightarrow> json" where
  "text_json (Complete t) = JStr t"
| "text_json (Segments ss) = JObj [(''segments'', JArr (map JStr ss))]"

definition diagnostic_json :: "diagnostic \<Rightarrow> json" where
  "diagnostic_json d = JObj [(''error'', text_json (dg_error d)),
     (''trace'', JArr (map text_json (dg_trace d)))]"

definition or_null :: "('a \<Rightarrow> json) \<Rightarrow> 'a option \<Rightarrow> json" where
  "or_null f x = (case x of None \<Rightarrow> JNull | Some v \<Rightarrow> f v)"

definition upstream_fields :: "upstream_failure \<Rightarrow> obj" where
  "upstream_fields f =
     [(''httpStatus'', JInt (int (uf_status f))), (''request'', JStr (uf_request f)),
      (''diagnostic'', or_null diagnostic_json (uf_diagnostic f)),
      (''diagnosticUnavailable'', or_null JStr (uf_diagnostic_unavailable f)),
      (''credentialValuesPresent'', or_null JBool (uf_credential_values_present f)),
      (''untrusted'', JBool True)]"

definition upstream_error :: "string \<Rightarrow> obj \<Rightarrow> mcp_error" where
  "upstream_error message fs = internal_error message (Some (JObj [(''upstream'', JObj fs)]))"

definition to_mcp_error :: "env \<Rightarrow> 'f handler \<Rightarrow> api_error \<Rightarrow> ('f, mcp_error, mcp_error) io" where
  "to_mcp_error env h error =
     (let message = api_error_display error in
      case error of
        Upstream failure \<Rightarrow>
          (let (document, failure') = take_credential_document failure;
               fs = upstream_fields failure' in
           case document of
             None \<Rightarrow> ret (upstream_error message fs)
           | Some bytes \<Rightarrow>
               (case h_files h of
                  None \<Rightarrow> ret (upstream_error message
                    (jset ''diagnosticFileUnavailable'' (JStr ''native file transfer required'') fs))
                | Some (owner, ops) \<Rightarrow>
                    bind_io (publish_file env owner ops ''komodo-diagnostic.txt'' ''text/plain'' bytes)
                      (\<lambda>r. ret (upstream_error message (case r of
                         Inr f \<Rightarrow> jset ''diagnosticFile'' (file_value_json f) fs
                       | Inl _ \<Rightarrow> jset ''diagnosticFileUnavailable''
                           (JStr ''native file capacity unavailable'') fs)))))
      | _ \<Rightarrow> ret (internal_error message None))"

text \<open>\<open>data[key] = value\<close> for every key in turn.\<close>

definition jset_all :: "obj \<Rightarrow> obj \<Rightarrow> obj" where
  "jset_all updates fs = fold (\<lambda>(k, v). jset k v) updates fs"

definition reconciliation :: "string \<Rightarrow> string \<Rightarrow> obj" where
  "reconciliation target read_tool =
     [(''outcome'', JStr ''unknown''), (''target'', JStr target), (''retrySafe'', JBool False),
      (''operationIdAvailable'', JBool False), (''reconcileWith'', JStr read_tool),
      (''operatorVerificationRequired'', JBool True)]"

definition data_fields :: "json option \<Rightarrow> obj" where
  "data_fields d = (case d of Some (JObj fs) \<Rightarrow> fs | _ \<Rightarrow> [])"

definition mutation_error ::
  "env \<Rightarrow> 'f handler \<Rightarrow> string \<Rightarrow> string \<Rightarrow> api_error \<Rightarrow> ('f, mcp_error, mcp_error) io" where
  "mutation_error env h target read_tool error =
     (let uncertain = mutation_outcome_unknown error in
      bind_io (to_mcp_error env h error) (\<lambda>result. ret
        (if uncertain
         then result\<lparr>
           err_message := ''Komodo mutation outcome is unknown; reconcile before any new write'',
           err_data := Some (JObj (jset_all (reconciliation target read_tool)
             (data_fields (err_data result)))) \<rparr>
         else result)))"

definition operation_lookup_error ::
  "env \<Rightarrow> 'f handler \<Rightarrow> api_error \<Rightarrow> ('f, mcp_error, mcp_error) io" where
  "operation_lookup_error env h error =
     (let missing = resource_not_found error in
      bind_io (to_mcp_error env h error) (\<lambda>result. ret
        (if missing then result\<lparr>err_code := InvalidParams, err_message := ''operation not found''\<rparr>
         else result)))"

section \<open>Error data read back\<close>

record upstream_diagnostic =
  ud_http_status :: nat
  ud_request :: string
  ud_diagnostic :: "diagnostic option"
  ud_diagnostic_unavailable :: "string option"
  ud_untrusted :: bool
  ud_credential_values_present :: "bool option"
  ud_diagnostic_file :: "file_value option"
  ud_diagnostic_file_unavailable :: "string option"

record credential_failure_data =
  cfd_upstream :: upstream_diagnostic
  cfd_outcome :: "string option"
  cfd_target :: "string option"
  cfd_retry_safe :: "bool option"
  cfd_operation_id_available :: "bool option"
  cfd_reconcile_with :: "string option"
  cfd_operator_verification_required :: "bool option"

text \<open>
  Structs without \<open>deny_unknown_fields\<close>: an object with any further fields, or the array of all
  fields in order.
\<close>

definition open_struct :: "string list \<Rightarrow> json \<Rightarrow> obj option" where
  "open_struct names j = (case j of
       JObj fs \<Rightarrow> Some fs
     | JArr js \<Rightarrow> if length js = length names then Some (zip names js) else None
     | _ \<Rightarrow> None)"

text \<open>An untagged struct variant is read from an object only.\<close>

definition de_text :: "json \<Rightarrow> diagnostic_text option" where
  "de_text j = (case j of
       JStr s \<Rightarrow> Some (Complete s)
     | JObj fs \<Rightarrow> map_option Segments (field_req (de_list de_str) ''segments'' fs)
     | _ \<Rightarrow> None)"

definition de_diagnostic :: "json \<Rightarrow> diagnostic option" where
  "de_diagnostic j =
     obind (open_struct [''error'', ''trace''] j) (\<lambda>fs.
     obind (field_req de_text ''error'' fs) (\<lambda>e.
     obind (field_req (de_list de_text) ''trace'' fs) (\<lambda>t.
       Some \<lparr> dg_error = e, dg_trace = t \<rparr>)))"

definition de_upstream_diagnostic :: "json \<Rightarrow> upstream_diagnostic option" where
  "de_upstream_diagnostic j =
     obind (open_struct [''httpStatus'', ''request'', ''diagnostic'', ''diagnosticUnavailable'',
       ''untrusted'', ''credentialValuesPresent'', ''diagnosticFile'', ''diagnosticFileUnavailable''] j) (\<lambda>fs.
     obind (field_req (de_uint u16_max) ''httpStatus'' fs) (\<lambda>status.
     obind (field_req de_str ''request'' fs) (\<lambda>request.
     obind (field_opt de_diagnostic ''diagnostic'' fs) (\<lambda>d.
     obind (field_opt de_str ''diagnosticUnavailable'' fs) (\<lambda>u.
     obind (field_req de_bool ''untrusted'' fs) (\<lambda>untrusted.
     obind (field_opt de_bool ''credentialValuesPresent'' fs) (\<lambda>present.
     obind (field_opt de_file_value ''diagnosticFile'' fs) (\<lambda>file.
     obind (field_opt de_str ''diagnosticFileUnavailable'' fs) (\<lambda>nofile.
       Some \<lparr> ud_http_status = status, ud_request = request, ud_diagnostic = d,
              ud_diagnostic_unavailable = u, ud_untrusted = untrusted,
              ud_credential_values_present = present, ud_diagnostic_file = file,
              ud_diagnostic_file_unavailable = nofile \<rparr>)))))))))"

definition de_credential_failure_data :: "json \<Rightarrow> credential_failure_data option" where
  "de_credential_failure_data j =
     obind (open_struct [''upstream'', ''outcome'', ''target'', ''retrySafe'', ''operationIdAvailable'',
       ''reconcileWith'', ''operatorVerificationRequired''] j) (\<lambda>fs.
     obind (field_req de_upstream_diagnostic ''upstream'' fs) (\<lambda>up.
     obind (field_opt de_str ''outcome'' fs) (\<lambda>outcome.
     obind (field_opt de_str ''target'' fs) (\<lambda>target.
     obind (field_opt de_bool ''retrySafe'' fs) (\<lambda>retry.
     obind (field_opt de_bool ''operationIdAvailable'' fs) (\<lambda>known.
     obind (field_opt de_str ''reconcileWith'' fs) (\<lambda>tool.
     obind (field_opt de_bool ''operatorVerificationRequired'' fs) (\<lambda>verify.
       Some \<lparr> cfd_upstream = up, cfd_outcome = outcome, cfd_target = target,
              cfd_retry_safe = retry, cfd_operation_id_available = known,
              cfd_reconcile_with = tool, cfd_operator_verification_required = verify \<rparr>))))))))"

section \<open>History documents\<close>

record history_document =
  hd_toml :: string
  hd_credential_fields :: "string list"
  hd_original_file :: "file_value option"
  hd_original_file_unavailable :: "string option"
  hd_format_error :: "history_format_error option"

definition publish_document ::
  "env \<Rightarrow> 'f handler \<Rightarrow> prepared_document \<Rightarrow> string \<Rightarrow> ('f, mcp_error, history_document) io" where
  "publish_document env h doc name =
     (let result = \<lparr> hd_toml = pd_toml doc, hd_credential_fields = pd_credential_fields doc,
            hd_original_file = None, hd_original_file_unavailable = None,
            hd_format_error = pd_format_error doc \<rparr> in
      case pd_original doc of
        None \<Rightarrow> ret result
      | Some bytes \<Rightarrow>
          (case h_files h of
             None \<Rightarrow> ret (result\<lparr>hd_original_file_unavailable := Some ''native file transfer required''\<rparr>)
           | Some (owner, ops) \<Rightarrow>
               bind_io (publish_file env owner ops name ''application/toml'' bytes) (\<lambda>r. ret (case r of
                   Inr f \<Rightarrow> result\<lparr>hd_original_file := Some f\<rparr>
                 | Inl _ \<Rightarrow> result\<lparr>hd_original_file_unavailable :=
                     Some ''native file capacity unavailable''\<rparr>))))"

section \<open>Nothing here talks to Core\<close>

text \<open>The one observation of \<open>admin()\<close>, and what it lets through.\<close>

lemma admin_client_snd: "snd (admin_client env h w) = w\<lparr>steps := Suc (steps w)\<rparr>"
  by (simp add: admin_client_def Let_def lift_def ok_or_def split: sum.splits option.splits)

lemma admin_client_Inr:
  "admin_client env h w = (Inr c, w') \<longleftrightarrow> h_admin h = Some c \<and> invocation_alive env h (steps w) \<and>
     w' = w\<lparr>steps := Suc (steps w)\<rparr>"
  by (auto simp: admin_client_def invocation_alive_def Let_def lift_def budget_check_def
      budget_ended_def ok_or_def split: sum.splits option.splits if_splits)

lemma admin_client_Inl: "admin_client env h w = (Inl x, w') \<Longrightarrow> \<exists>e. x = Fail e"
  by (auto simp: admin_client_def Let_def lift_def ok_or_def split: sum.splits option.splits if_splits)

lemma mute_admin_client [traffic_intros]: "mute (admin_client env h)"
  by (simp add: mute_def no_traffic_def admin_client_snd)

lemma mute_publish_file [traffic_intros]: "mute (publish_file env owner ops name mime bytes)"
  unfolding mute_def no_traffic_def publish_file_def
  by (auto simp: Let_def split: prod.splits sum.splits exn.splits)

lemma mute_take_file [traffic_intros]: "mute (take_file env owner ops uri)"
  unfolding mute_def no_traffic_def take_file_def
  by (auto simp: Let_def split: prod.splits sum.splits exn.splits)

lemma mute_to_mcp_error [traffic_intros]: "mute (to_mcp_error env h e)"
  unfolding to_mcp_error_def Let_def
  by (auto split: api_error.splits option.splits prod.splits intro!: traffic_intros)

lemma mute_mutation_error [traffic_intros]: "mute (mutation_error env h target tool e)"
  unfolding mutation_error_def Let_def by (intro traffic_intros)

text \<open>Turning a failure into an error makes the two observations of a publication at most.\<close>

lemma to_mcp_error_steps: "steps (snd (to_mcp_error env h e w)) \<le> steps w + 2"
  unfolding to_mcp_error_def Let_def publish_file_def bind_io_def ret_def
  by (auto split: api_error.splits option.splits prod.splits sum.splits exn.splits)

lemma mutation_error_steps: "steps (snd (mutation_error env h target tool e w)) \<le> steps w + 2"
  using to_mcp_error_steps [of env h e w]
  by (auto simp: mutation_error_def Let_def bind_io_def ret_def split: prod.splits sum.splits)

lemma mute_operation_lookup_error [traffic_intros]: "mute (operation_lookup_error env h e)"
  unfolding operation_lookup_error_def Let_def by (intro traffic_intros)

lemma mute_publish_document [traffic_intros]: "mute (publish_document env h doc name)"
  unfolding publish_document_def Let_def
  by (auto split: option.splits prod.splits intro!: traffic_intros)

end
