(* ===== verification/Mcp_Tools.thy ===== *)
theory Mcp_Tools
  imports Mcp_Errors Mcp_Normalize Api_Inventory
begin

text \<open>
  The tools (\<open>crates/komodo-mcp/src/lib.rs\<close>, \<open>networks.rs\<close>, \<open>history.rs\<close>): one
  definition per handler method, with every guard and effect in the order of the code, and the
  dispatch over the registry. Serialising an answer cannot fail, so an answer is the record
  that is serialised.
\<close>

section \<open>Answers\<close>

record 'o search_output =
  so_items :: "'o list"
  so_next_page :: "nat option"
  so_next_offset :: "nat option"
  so_truncated :: bool

record server_identity =
  sid_id :: string
  sid_name :: string

record network_search_output =
  nso_server :: server_identity
  nso_items :: "network_list_item list"
  nso_items_page :: collection_page_rec

record network_read_output =
  nro_server :: server_identity
  nro_network :: network

record operation_details =
  odt_previous_configuration :: "history_document option"
  odt_current_configuration :: "history_document option"
  odt_other_data :: "string option"

record operation_status =
  ops_details :: "operation_details option"
  ops_id :: string
  ops_operation :: string
  ops_start_ts :: int
  ops_success :: "bool option"
  ops_status :: string
  ops_outcome :: outcome
  ops_target :: "operation_target option"
  ops_operator :: "string option"
  ops_username :: "string option"
  ops_end_ts :: "int option"
  ops_version :: "resource_version option"
  ops_commit_hash :: "string option"

record webhook_secret_view =
  wsc_source :: string
  wsc_value_available :: bool
  wsc_file :: "file_value option"

record config_write_result =
  cwr_target :: string
  cwr_applied :: "string list"

record file_write_result =
  fwr_target :: string
  fwr_applied :: "string list"
  fwr_file_path :: string
  fwr_operation_id :: string
  fwr_status :: string
  fwr_outcome :: outcome

datatype tool_output =
    SystemStatusOutput string bool
  | ServerSearchOutput "server_status search_output"
  | ServerStatusOutput server_status
  | NetworkSearchOutput network_search_output
  | NetworkReadOutput network_read_output
  | StackSearchOutput "stack_status search_output"
  | StackStatusOutput stack_status
  | StackDiagnosticsOutput stack_diagnostics
  | StackConfigOutput stack_config_view
  | ComposeOutput compose_view
  | EnvironmentOutput string
  | CommandsOutput commands_view
  | WebhookStatusOutput webhook_status_view
  | WebhookSecretOutput webhook_secret_view
  | LogTailOutput log_tail_view
  | DeploymentSearchOutput "deployment_status search_output"
  | DeploymentStatusOutput deployment_status
  | BuildSearchOutput "build_status search_output"
  | BuildStatusOutput build_status
  | RepoSearchOutput "repo_status search_output"
  | RepoStatusOutput repo_status
  | OperationSearchOutput "operation_status search_output"
  | OperationStatusOutput operation_status
  | OperationLogsOutput operation_logs_view
  | MutationOutput mutation_output
  | ConfigWriteOutput config_write_result
  | FileWriteOutput file_write_result
  | CredentialFailureOutput int string credential_failure_data

record call_result =
  cr_output :: tool_output
  cr_is_error :: bool
  cr_untrusted :: bool

definition structured :: "tool_output \<Rightarrow> ('f, mcp_error, call_result) io" where
  "structured output = ret \<lparr> cr_output = output, cr_is_error = False, cr_untrusted = False \<rparr>"

definition trust_annotated :: "call_result \<Rightarrow> call_result" where
  "trust_annotated r = r\<lparr>cr_untrusted := True\<rparr>"

text \<open>
  What the tools take from other crates: the TOML and URL parsers, and the deserialiser of the
  internally tagged \<open>WebhookSecretInput\<close>.
\<close>

record tool_env =
  te_history :: history_env
  te_secret_input :: "json \<Rightarrow> webhook_secret_input option"

type_synonym 'f tool = "call_params \<Rightarrow> ('f, mcp_error, call_result) io"

section \<open>Steps the handlers share\<close>

definition map_api :: "env \<Rightarrow> 'f handler \<Rightarrow> ('f, api_error, 'a) io \<Rightarrow> ('f, mcp_error, 'a) io" where
  "map_api env h m = or_else (to_mcp_error env h) m"

text \<open>Look the selector up in an inventory and select.\<close>

definition select_from ::
  "env \<Rightarrow> 'f handler \<Rightarrow> (env \<Rightarrow> client \<Rightarrow> inventory_request \<Rightarrow> ('f, api_error, 'i inventory_page_rec) io)
    \<Rightarrow> string \<Rightarrow> ('f, mcp_error, 'i resource_list_item) io" where
  "select_from env h list_fn selector =
     bind_io (map_api env h (list_fn env (h_read h) (Selector selector))) (\<lambda>page.
       lift (select_resource (ip_items page) selector))"

definition search_tool ::
  "env \<Rightarrow> 'f handler \<Rightarrow> (env \<Rightarrow> client \<Rightarrow> inventory_request \<Rightarrow> ('f, api_error, 'i inventory_page_rec) io)
    \<Rightarrow> ('i resource_list_item \<Rightarrow> 'o) \<Rightarrow> ('o \<Rightarrow> 'o) \<Rightarrow> ('o search_output \<Rightarrow> tool_output) \<Rightarrow> 'f tool" where
  "search_tool env h list_fn view without_resource out params =
     bind_io (lift (parse de_search_input params)) (\<lambda>input.
     bind_io (lift (validate_search input)) (\<lambda>_.
     bind_io (map_api env h (list_fn env (h_read h) (Page (si_page input)))) (\<lambda>page.
     bind_io (lift (search_items (ip_items page) input (\<lambda>item.
       if si_projection input = Summary then without_resource (view item) else view item))) (\<lambda>output.
     structured (out \<lparr> so_items = sp_items output, so_next_page = ip_next_page page,
       so_next_offset = sp_next_offset output, so_truncated = sp_truncated output \<rparr>)))))"

definition status_tool ::
  "env \<Rightarrow> 'f handler \<Rightarrow> (env \<Rightarrow> client \<Rightarrow> inventory_request \<Rightarrow> ('f, api_error, 'i inventory_page_rec) io)
    \<Rightarrow> ('i resource_list_item \<Rightarrow> 'o) \<Rightarrow> ('o \<Rightarrow> 'o) \<Rightarrow> ('o \<Rightarrow> tool_output) \<Rightarrow> 'f tool" where
  "status_tool env h list_fn view without_resource out params =
     bind_io (lift (parse de_status_input params)) (\<lambda>input.
     bind_io (lift (validate_selector (st_selector input))) (\<lambda>_.
     bind_io (select_from env h list_fn (st_selector input)) (\<lambda>item.
     structured (out
       (if st_projection input = Summary then without_resource (view item) else view item)))))"

text \<open>The detail of the selected stack.\<close>

definition selected_detail ::
  "env \<Rightarrow> 'f handler \<Rightarrow> string \<Rightarrow> ('f, mcp_error, stack_info resource_list_item \<times> stack_detail) io" where
  "selected_detail env h selector =
     bind_io (select_from env h stacks_inventory selector) (\<lambda>item.
     bind_io (map_api env h (api_stack_detail env (h_read h) (ri_id item))) (\<lambda>detail.
     ret (item, detail)))"

section \<open>Inventory tools\<close>

definition system_status :: "env \<Rightarrow> 'f handler \<Rightarrow> 'f tool" where
  "system_status env h params =
     bind_io (lift (parse de_empty_input params)) (\<lambda>_.
     bind_io (map_api env h (api_version env (h_read h))) (\<lambda>version.
     structured (SystemStatusOutput version True)))"

definition search_servers :: "env \<Rightarrow> 'f handler \<Rightarrow> 'f tool" where
  "search_servers env h = search_tool env h servers_inventory normalize_server
     (\<lambda>s. s\<lparr>svs_resource := None\<rparr>) ServerSearchOutput"

definition server_status_tool :: "env \<Rightarrow> 'f handler \<Rightarrow> 'f tool" where
  "server_status_tool env h = status_tool env h servers_inventory normalize_server
     (\<lambda>s. s\<lparr>svs_resource := None\<rparr>) ServerStatusOutput"

definition search_stacks :: "env \<Rightarrow> 'f handler \<Rightarrow> 'f tool" where
  "search_stacks env h = search_tool env h stacks_inventory normalize_stack
     (\<lambda>s. s\<lparr>sks_resource := None\<rparr>) StackSearchOutput"

definition stack_status_tool :: "env \<Rightarrow> 'f handler \<Rightarrow> 'f tool" where
  "stack_status_tool env h = status_tool env h stacks_inventory normalize_stack
     (\<lambda>s. s\<lparr>sks_resource := None\<rparr>) StackStatusOutput"

definition search_deployments :: "env \<Rightarrow> 'f handler \<Rightarrow> 'f tool" where
  "search_deployments env h = search_tool env h deployments_inventory normalize_deployment
     (\<lambda>s. s\<lparr>ds_resource := None\<rparr>) DeploymentSearchOutput"

definition deployment_status_tool :: "env \<Rightarrow> 'f handler \<Rightarrow> 'f tool" where
  "deployment_status_tool env h = status_tool env h deployments_inventory normalize_deployment
     (\<lambda>s. s\<lparr>ds_resource := None\<rparr>) DeploymentStatusOutput"

definition search_builds :: "env \<Rightarrow> 'f handler \<Rightarrow> 'f tool" where
  "search_builds env h = search_tool env h builds_inventory normalize_build
     (\<lambda>s. s\<lparr>bs_resource := None\<rparr>) BuildSearchOutput"

definition build_status_tool :: "env \<Rightarrow> 'f handler \<Rightarrow> 'f tool" where
  "build_status_tool env h = status_tool env h builds_inventory normalize_build
     (\<lambda>s. s\<lparr>bs_resource := None\<rparr>) BuildStatusOutput"

definition search_repos :: "env \<Rightarrow> 'f handler \<Rightarrow> 'f tool" where
  "search_repos env h = search_tool env h repos_inventory normalize_repo
     (\<lambda>s. s\<lparr>rs_resource := None\<rparr>) RepoSearchOutput"

definition repo_status_tool :: "env \<Rightarrow> 'f handler \<Rightarrow> 'f tool" where
  "repo_status_tool env h = status_tool env h repos_inventory normalize_repo
     (\<lambda>s. s\<lparr>rs_resource := None\<rparr>) RepoStatusOutput"

section \<open>Stack reads\<close>

definition stack_diagnostics_tool :: "env \<Rightarrow> 'f handler \<Rightarrow> 'f tool" where
  "stack_diagnostics_tool env h params =
     bind_io (lift (parse de_collection_read_input params)) (\<lambda>input.
     bind_io (lift (validate_selector (coll_selector input))) (\<lambda>_.
     bind_io (lift (window_validate (coll_window input))) (\<lambda>_.
     bind_io (select_from env h stacks_inventory (coll_selector input)) (\<lambda>item.
     structured (StackDiagnosticsOutput
       (normalize_stack_diagnostics item (coll_window input)))))))"

definition stack_config_read :: "env \<Rightarrow> 'f handler \<Rightarrow> 'f tool" where
  "stack_config_read env h params =
     bind_io (lift (parse de_collection_read_input params)) (\<lambda>input.
     bind_io (lift (validate_selector (coll_selector input))) (\<lambda>_.
     bind_io (lift (window_validate (coll_window input))) (\<lambda>_.
     bind_io (selected_detail env h (coll_selector input)) (\<lambda>(item, detail).
     structured (StackConfigOutput
       (normalize_stack_config (ri_name item) (sd_config detail) (coll_window input)))))))"

definition stack_compose_read :: "env \<Rightarrow> 'f handler \<Rightarrow> 'f tool" where
  "stack_compose_read env h params =
     bind_io (lift (parse de_compose_read_input params)) (\<lambda>input.
     bind_io (lift (validate_selector (cri_selector input))) (\<lambda>_.
     bind_io (lift (window_validate (cri_window input))) (\<lambda>_.
     bind_io (selected_detail env h (cri_selector input)) (\<lambda>(item, detail).
     structured (ComposeOutput (normalize_compose (cri_source input) detail (cri_window input)))))))"

definition stack_environment_read :: "env \<Rightarrow> 'f handler \<Rightarrow> 'f tool" where
  "stack_environment_read env h params =
     bind_io (lift (parse de_selector_input params)) (\<lambda>input.
     bind_io (lift (validate_selector (sel_selector input))) (\<lambda>_.
     bind_io (selected_detail env h (sel_selector input)) (\<lambda>(item, detail).
     structured (EnvironmentOutput (cd_environment (sd_config detail))))))"

definition stack_commands_read :: "env \<Rightarrow> 'f handler \<Rightarrow> 'f tool" where
  "stack_commands_read env h params =
     bind_io (lift (parse de_selector_input params)) (\<lambda>input.
     bind_io (lift (validate_selector (sel_selector input))) (\<lambda>_.
     bind_io (selected_detail env h (sel_selector input)) (\<lambda>(item, detail).
     structured (CommandsOutput (normalize_commands (sd_config detail))))))"

definition stack_webhook_status :: "env \<Rightarrow> 'f handler \<Rightarrow> 'f tool" where
  "stack_webhook_status env h params =
     bind_io (lift (parse de_selector_input params)) (\<lambda>input.
     bind_io (lift (validate_selector (sel_selector input))) (\<lambda>_.
     bind_io (selected_detail env h (sel_selector input)) (\<lambda>(item, detail).
     structured (WebhookStatusOutput (normalize_webhook_status (sd_config detail))))))"

text \<open>An inherited secret has no value to return; a literal one only leaves as a native file.\<close>

definition normalize_webhook_secret ::
  "env \<Rightarrow> string \<Rightarrow> (string \<times> 'f file_ops) option \<Rightarrow> ('f, mcp_error, webhook_secret_view) io" where
  "normalize_webhook_secret env secret context =
     (if secret = []
      then ret \<lparr> wsc_source = ''inherited'', wsc_value_available = False, wsc_file = None \<rparr>
      else case context of
        None \<Rightarrow> fail file_transport_error
      | Some (owner, ops) \<Rightarrow>
          bind_io (publish_file env owner ops ''webhook-token.txt'' ''text/plain'' secret) (\<lambda>r.
          bind_io (lift r) (\<lambda>file.
          ret \<lparr> wsc_source = ''custom'', wsc_value_available = True, wsc_file = Some file \<rparr>)))"

definition stack_webhook_secret_read :: "env \<Rightarrow> 'f handler \<Rightarrow> 'f tool" where
  "stack_webhook_secret_read env h params =
     bind_io (lift (parse de_selector_input params)) (\<lambda>input.
     bind_io (lift (validate_selector (sel_selector input))) (\<lambda>_.
     bind_io (selected_detail env h (sel_selector input)) (\<lambda>(item, detail).
     bind_io (normalize_webhook_secret env (cd_webhook_secret (sd_config detail)) (h_files h)) (\<lambda>view.
     structured (WebhookSecretOutput view)))))"

definition stack_logs_tail :: "env \<Rightarrow> 'f handler \<Rightarrow> 'f tool" where
  "stack_logs_tail env h params =
     bind_io (lift (parse de_log_tail_input params)) (\<lambda>input.
     bind_io (lift (validate_log_tail input)) (\<lambda>_.
     bind_io (select_from env h stacks_inventory (lt_selector input)) (\<lambda>item.
     bind_io (map_api env h (api_stack_log env (h_read h) (ri_id item) (lt_services input)
       (lt_tail input) (lt_timestamps input))) (\<lambda>log.
     structured (LogTailOutput \<lparr> ltv_command = lg_command log, ltv_stdout = lg_stdout log,
       ltv_stderr = lg_stderr log, ltv_success = lg_success log \<rparr>)))))"

section \<open>Networks\<close>

definition network_matches :: "string \<Rightarrow> network_list_item \<Rightarrow> bool" where
  "network_matches query item \<longleftrightarrow> list_ex (\<lambda>field. case field of None \<Rightarrow> False
     | Some value \<Rightarrow> str_contains (to_ascii_lowercase value) query) [nli_name item, nli_id item]"

definition network_key :: "network_list_item \<Rightarrow> string \<times> string option" where
  "network_key item =
     (to_ascii_lowercase (case nli_name item of None \<Rightarrow> [] | Some n \<Rightarrow> n), nli_id item)"

definition search_networks :: "env \<Rightarrow> 'f handler \<Rightarrow> 'f tool" where
  "search_networks env h params =
     bind_io (lift (parse de_network_search_input params)) (\<lambda>input.
     bind_io (lift (validate_selector (nsi_server input))) (\<lambda>_.
     bind_io (lift (window_validate (nsi_window input))) (\<lambda>_.
     bind_io (lift (validate_query (nsi_query input))) (\<lambda>query.
     bind_io (select_from env h servers_inventory (nsi_server input)) (\<lambda>server.
     bind_io (map_api env h (api_networks env (h_read h) (ri_id server))) (\<lambda>items.
     let kept = (case query of None \<Rightarrow> items | Some q \<Rightarrow> filter (network_matches q) items);
         (page, page_info) = collection_page (Some (sort_key network_key kept)) (nsi_window input)
     in structured (NetworkSearchOutput
       \<lparr> nso_server = \<lparr> sid_id = ri_id server, sid_name = ri_name server \<rparr>,
         nso_items = page, nso_items_page = page_info \<rparr>)))))))"

definition read_network :: "env \<Rightarrow> 'f handler \<Rightarrow> 'f tool" where
  "read_network env h params =
     bind_io (lift (parse de_network_read_input params)) (\<lambda>input.
     bind_io (lift (validate_selector (nri_server input))) (\<lambda>_.
     bind_io (lift (validate_selector (nri_network input))) (\<lambda>_.
     bind_io (select_from env h servers_inventory (nri_server input)) (\<lambda>server.
     bind_io (map_api env h (api_network env (h_read h) (ri_id server) (nri_network input))) (\<lambda>nw.
     structured (NetworkReadOutput
       \<lparr> nro_server = \<lparr> sid_id = ri_id server, sid_name = ri_name server \<rparr>,
         nro_network = nw \<rparr>))))))"

section \<open>Operations\<close>

definition normalize_operation :: "operation_item \<Rightarrow> operation_status" where
  "normalize_operation item =
     (let (outcome, success) = operation_outcome (op_status item) (op_success item) in
      \<lparr> ops_details = Some \<lparr> odt_previous_configuration = None,
          odt_current_configuration = None, odt_other_data = op_other_data item \<rparr>,
        ops_id = op_id item, ops_operation = op_operation item, ops_start_ts = op_start_ts item,
        ops_success = success, ops_status = op_status item, ops_outcome = outcome,
        ops_target = op_target item, ops_operator = op_operator item,
        ops_username = op_username item, ops_end_ts = op_end_ts item,
        ops_version = op_version item, ops_commit_hash = op_commit_hash item \<rparr>)"

definition publish_optional ::
  "env \<Rightarrow> 'f handler \<Rightarrow> prepared_document option \<Rightarrow> string \<Rightarrow> ('f, mcp_error, history_document option) io" where
  "publish_optional env h doc name =
     (case doc of None \<Rightarrow> ret None
      | Some d \<Rightarrow> bind_io (publish_document env h d name) (\<lambda>x. ret (Some x)))"

text \<open>
  \<open>PreparedOperation\<close>: both documents are prepared before either is published, the item
  without its documents is normalised, and the published documents are put into its details.
\<close>

record prepared_operation =
  po_item :: operation_item
  po_previous :: "prepared_document option"
  po_current :: "prepared_document option"

definition prepare_operation :: "history_env \<Rightarrow> operation_item \<Rightarrow> prepared_operation" where
  "prepare_operation he item =
     \<lparr> po_item = item\<lparr>op_prev_toml := None, op_current_toml := None\<rparr>,
       po_previous = map_option (prepare_document he) (op_prev_toml item),
       po_current = map_option (prepare_document he) (op_current_toml item) \<rparr>"

definition publish_operation ::
  "env \<Rightarrow> 'f handler \<Rightarrow> prepared_operation \<Rightarrow> ('f, mcp_error, operation_status) io" where
  "publish_operation env h p =
     (let status = normalize_operation (po_item p) in
      bind_io (publish_optional env h (po_previous p) ''operation-before.toml'') (\<lambda>previous.
      bind_io (publish_optional env h (po_current p) ''operation-after.toml'') (\<lambda>current.
      ret (status\<lparr>ops_details := map_option (\<lambda>d. d\<lparr>odt_previous_configuration := previous,
        odt_current_configuration := current\<rparr>) (ops_details status)\<rparr>))))"

definition project_operation :: "env \<Rightarrow> tool_env \<Rightarrow> 'f handler \<Rightarrow> projection \<Rightarrow> operation_item
    \<Rightarrow> ('f, mcp_error, operation_status) io" where
  "project_operation env te h p item =
     (if p = Summary then ret ((normalize_operation item)\<lparr>ops_details := None\<rparr>)
      else publish_operation env h (prepare_operation (te_history te) item))"

fun map_io :: "('a \<Rightarrow> ('f, 'e, 'b) io) \<Rightarrow> 'a list \<Rightarrow> ('f, 'e, 'b list) io" where
  "map_io f [] = ret []"
| "map_io f (x # xs) = bind_io (f x) (\<lambda>y. bind_io (map_io f xs) (\<lambda>ys. ret (y # ys)))"

definition search_operations :: "env \<Rightarrow> tool_env \<Rightarrow> 'f handler \<Rightarrow> 'f tool" where
  "search_operations env te h params =
     bind_io (lift (parse de_operations_search_input params)) (\<lambda>input.
     bind_io (lift (validate_limit (osi_limit input))) (\<lambda>_.
     bind_io (lift (ensure (osi_offset input \<le> max_offset)
       (invalid_params ''offset must not exceed 10000'' None))) (\<lambda>_.
     bind_io (lift (validate_query (osi_query input))) (\<lambda>query.
     bind_io (lift (case osi_filter input of None \<Rightarrow> Inr default_query
       | Some f \<Rightarrow> validated_query f)) (\<lambda>filters.
     bind_io (map_api env h (api_operations_query env (h_read h) (osi_page input) filters)) (\<lambda>page.
     let matches = filter (\<lambda>item. operation_matches item query) (opg_operations page);
         total = length matches
     in bind_io (map_io (project_operation env te h (osi_projection input))
         (take (osi_limit input) (drop (osi_offset input) matches))) (\<lambda>items.
     let consumed = osi_offset input + length items;
         next_offset = (if consumed < total then supported_offset consumed else None)
     in structured (OperationSearchOutput \<lparr> so_items = items,
       so_next_page = (if consumed < total then None else opg_next_page page),
       so_next_offset = next_offset,
       so_truncated = (consumed < total \<and> next_offset = None) \<rparr>))))))))"

definition operation_status_tool :: "env \<Rightarrow> tool_env \<Rightarrow> 'f handler \<Rightarrow> 'f tool" where
  "operation_status_tool env te h params =
     bind_io (lift (parse de_operation_status_input params)) (\<lambda>input.
     bind_io (lift (validate_selector (osti_operation_id input))) (\<lambda>_.
     bind_io (or_else (operation_lookup_error env h)
       (api_update env (h_read h) (osti_operation_id input))) (\<lambda>item.
     bind_io (project_operation env te h (osti_projection input) item) (\<lambda>status.
     structured (OperationStatusOutput status)))))"

definition operation_logs_read :: "env \<Rightarrow> 'f handler \<Rightarrow> 'f tool" where
  "operation_logs_read env h params =
     bind_io (lift (parse de_operation_logs_input params)) (\<lambda>input.
     bind_io (lift (window_validate (ol_window input))) (\<lambda>_.
     bind_io (lift (validate_selector (ol_operation_id input))) (\<lambda>_.
     bind_io (or_else (operation_lookup_error env h)
       (api_update_logs env (h_read h) (ol_operation_id input))) (\<lambda>logs.
     structured (OperationLogsOutput (normalize_operation_logs logs (ol_window input)))))))"

section \<open>Mutations\<close>

definition mutation_target ::
  "env \<Rightarrow> 'f handler \<Rightarrow> action \<Rightarrow> string \<Rightarrow> ('f, mcp_error, string) io" where
  "mutation_target env h a selector =
     (if a \<in> {DeployStack, RestartStack, StopStack} then
        bind_io (select_from env h stacks_inventory selector) (\<lambda>item. ret (ri_id item))
      else if a \<in> {DeployDeployment, RestartDeployment} then
        bind_io (select_from env h deployments_inventory selector) (\<lambda>item. ret (ri_id item))
      else if a \<in> {RunBuild, CancelBuild} then
        bind_io (select_from env h builds_inventory selector) (\<lambda>item. ret (ri_id item))
      else
        bind_io (select_from env h repos_inventory selector) (\<lambda>item. ret (ri_id item)))"

text \<open>Submit under the administrative client, with the read tool that reconciles the outcome.\<close>

definition submit ::
  "env \<Rightarrow> 'f handler \<Rightarrow> string \<Rightarrow> string \<Rightarrow> (client \<Rightarrow> ('f, api_error, 'a) io) \<Rightarrow> ('f, mcp_error, 'a) io" where
  "submit env h target read_tool request =
     bind_io (admin_client env h) (\<lambda>admin.
       or_else (mutation_error env h target read_tool) (request admin))"

definition mutate :: "env \<Rightarrow> 'f handler \<Rightarrow> action \<Rightarrow> 'f tool" where
  "mutate env h a params =
     bind_io (lift (parse de_selector_input params)) (\<lambda>input.
     bind_io (lift (validate_selector (sel_selector input))) (\<lambda>_.
     bind_io (mutation_target env h a (sel_selector input)) (\<lambda>target.
     bind_io (submit env h target ''operations.search'' (\<lambda>admin. api_execute env admin a target)) (\<lambda>receipt.
     structured (MutationOutput (normalize_receipt receipt target))))))"

definition resolve_stack_id :: "env \<Rightarrow> 'f handler \<Rightarrow> string \<Rightarrow> ('f, mcp_error, string) io" where
  "resolve_stack_id env h selector =
     bind_io (select_from env h stacks_inventory selector) (\<lambda>item. ret (ri_id item))"

text \<open>The common end of the configuration writes.\<close>

definition update_config ::
  "env \<Rightarrow> 'f handler \<Rightarrow> string \<Rightarrow> stack_config_patch \<Rightarrow> string list \<Rightarrow> string \<Rightarrow> ('f, mcp_error, call_result) io" where
  "update_config env h selector patch applied read_tool =
     bind_io (resolve_stack_id env h selector) (\<lambda>target.
     bind_io (submit env h target read_tool (\<lambda>admin. api_update_stack env admin target patch)) (\<lambda>_.
     structured (ConfigWriteOutput \<lparr> cwr_target = target, cwr_applied = applied \<rparr>)))"

definition applied_if :: "string \<Rightarrow> 'a option \<Rightarrow> string list" where
  "applied_if name x = (case x of None \<Rightarrow> [] | Some _ \<Rightarrow> [name])"

definition check_opt :: "('a \<Rightarrow> mcp_error + unit) \<Rightarrow> 'a option \<Rightarrow> mcp_error + unit" where
  "check_opt f x = (case x of None \<Rightarrow> Inr () | Some v \<Rightarrow> f v)"

definition config_patch :: "config_patch_input \<Rightarrow> mcp_error + stack_config_patch \<times> string list" where
  "config_patch input =
     rbind (check_opt validate_write_path (cpi_run_directory input)) (\<lambda>_.
     rbind (check_opt (\<lambda>paths. if max_write_paths < length paths
         then Inl (invalid_params ''at most 50 file paths may be set'' None)
         else validate_paths paths) (cpi_file_paths input)) (\<lambda>_.
     rbind (check_opt validate_write_path (cpi_env_file_path input)) (\<lambda>_.
     let applied = applied_if ''filesOnHost'' (cpi_files_on_host input) @
           applied_if ''runDirectory'' (cpi_run_directory input) @
           applied_if ''filePaths'' (cpi_file_paths input) @
           applied_if ''envFilePath'' (cpi_env_file_path input)
     in if applied = []
        then Inl (invalid_params ''at least one configuration field must be set'' None)
        else Inr (default_patch\<lparr>p_files_on_host := cpi_files_on_host input,
          p_run_directory := cpi_run_directory input, p_file_paths := cpi_file_paths input,
          p_env_file_path := cpi_env_file_path input\<rparr>, applied))))"

definition stack_config_patch_tool :: "env \<Rightarrow> 'f handler \<Rightarrow> 'f tool" where
  "stack_config_patch_tool env h params =
     bind_io (lift (parse de_config_patch_input params)) (\<lambda>input.
     bind_io (lift (validate_selector (cpi_selector input))) (\<lambda>_.
     bind_io (lift (config_patch input)) (\<lambda>(patch, applied).
     update_config env h (cpi_selector input) patch applied ''stacks.config.read'')))"

definition stack_compose_write :: "env \<Rightarrow> 'f handler \<Rightarrow> 'f tool" where
  "stack_compose_write env h params =
     bind_io (lift (parse de_compose_write_input params)) (\<lambda>input.
     bind_io (lift (validate_selector (cwi_selector input))) (\<lambda>_.
     bind_io (lift (validate_write_content (cwi_contents input))) (\<lambda>_.
     update_config env h (cwi_selector input)
       (default_patch\<lparr>p_file_contents := Some (cwi_contents input)\<rparr>) [''fileContents'']
       ''stacks.compose.read'')))"

definition stack_environment_write :: "env \<Rightarrow> 'f handler \<Rightarrow> 'f tool" where
  "stack_environment_write env h params =
     bind_io (lift (parse de_environment_write_input params)) (\<lambda>input.
     bind_io (lift (validate_selector (ewi_selector input))) (\<lambda>_.
     bind_io (lift (validate_write_content (ewi_environment input))) (\<lambda>_.
     update_config env h (ewi_selector input)
       (default_patch\<lparr>p_environment := Some (ewi_environment input)\<rparr>) [''environment'']
       ''stacks.environment.read'')))"

definition validate_optional_command ::
  "command_input option \<Rightarrow> mcp_error + system_command option" where
  "validate_optional_command c =
     (case c of None \<Rightarrow> Inr None | Some c \<Rightarrow> rbind (validate_command c) (\<lambda>v. Inr (Some v)))"

definition stack_commands_write :: "env \<Rightarrow> 'f handler \<Rightarrow> 'f tool" where
  "stack_commands_write env h params =
     bind_io (lift (parse de_commands_write_input params)) (\<lambda>input.
     bind_io (lift (validate_selector (cmw_selector input))) (\<lambda>_.
     bind_io (lift (validate_optional_command (cmw_pre_deploy input))) (\<lambda>pre.
     bind_io (lift (validate_optional_command (cmw_post_deploy input))) (\<lambda>post.
     let applied = applied_if ''preDeploy'' pre @ applied_if ''postDeploy'' post
     in bind_io (lift (ensure (applied \<noteq> [])
       (invalid_params ''at least one of pre_deploy or post_deploy must be set'' None))) (\<lambda>_.
     update_config env h (cmw_selector input)
       (default_patch\<lparr>p_pre_deploy := pre, p_post_deploy := post\<rparr>) applied
       ''stacks.commands.read'')))))"

definition stack_file_write :: "env \<Rightarrow> 'f handler \<Rightarrow> 'f tool" where
  "stack_file_write env h params =
     bind_io (lift (parse de_file_write_input params)) (\<lambda>input.
     bind_io (lift (validate_selector (fwi_selector input))) (\<lambda>_.
     bind_io (lift (validate_write_path (fwi_file_path input))) (\<lambda>_.
     bind_io (lift (validate_write_content (fwi_contents input))) (\<lambda>_.
     bind_io (resolve_stack_id env h (fwi_selector input)) (\<lambda>target.
     bind_io (submit env h target ''operations.search''
       (\<lambda>admin. api_write_stack_file env admin target (fwi_file_path input) (fwi_contents input))) (\<lambda>receipt.
     structured (FileWriteOutput \<lparr> fwr_target = target, fwr_applied = [''file''],
       fwr_file_path = fwi_file_path input, fwr_operation_id = mr_operation_id receipt,
       fwr_status = mr_status receipt,
       fwr_outcome = fst (operation_outcome (mr_status receipt) (mr_success receipt)) \<rparr>)))))))"

definition stack_webhook_update :: "env \<Rightarrow> 'f handler \<Rightarrow> 'f tool" where
  "stack_webhook_update env h params =
     bind_io (lift (parse de_webhook_update_input params)) (\<lambda>input.
     bind_io (lift (validate_selector (wu_selector input))) (\<lambda>_.
     let applied = applied_if ''webhookEnabled'' (wu_enabled input) @
           applied_if ''webhookForceDeploy'' (wu_force_deploy input)
     in bind_io (lift (ensure (applied \<noteq> [])
       (invalid_params ''at least one webhook field must be set'' None))) (\<lambda>_.
     update_config env h (wu_selector input)
       (default_patch\<lparr>p_webhook_enabled := wu_enabled input,
         p_webhook_force_deploy := wu_force_deploy input\<rparr>) applied ''stacks.webhook.status'')))"

text \<open>The literal token: none to inherit, else the bytes of a completed upload.\<close>

definition webhook_secret_text ::
  "env \<Rightarrow> 'f handler \<Rightarrow> webhook_secret_input \<Rightarrow> ('f, mcp_error, string) io" where
  "webhook_secret_text env h secret =
     (case secret of
        Inherited \<Rightarrow> ret []
      | Custom file_value \<Rightarrow>
          (case h_files h of
             None \<Rightarrow> fail file_transport_error
           | Some (owner, ops) \<Rightarrow>
               bind_io (take_file env owner ops (fv_uri file_value)) (\<lambda>bytes.
               bind_io (lift (ensure (utf8_valid bytes)
                 (invalid_params ''webhook credential file must contain UTF-8 text'' None))) (\<lambda>_.
               bind_io (lift (ensure (bytes \<noteq> []) (invalid_params
                 ''custom webhook token must not be empty; select inherited explicitly'' None))) (\<lambda>_.
               bind_io (lift (validate_write_content bytes)) (\<lambda>_. ret bytes))))))"

definition stack_webhook_secret_write :: "env \<Rightarrow> tool_env \<Rightarrow> 'f handler \<Rightarrow> 'f tool" where
  "stack_webhook_secret_write env te h params =
     bind_io (lift (parse (de_webhook_secret_write_input (te_secret_input te)) params)) (\<lambda>input.
     bind_io (lift (validate_selector (wsw_selector input))) (\<lambda>_.
     bind_io (admin_client env h) (\<lambda>_.
     bind_io (webhook_secret_text env h (wsw_secret input)) (\<lambda>secret.
     update_config env h (wsw_selector input) (default_patch\<lparr>p_webhook_secret := Some secret\<rparr>)
       [''webhookSecret''] ''stacks.webhook.secret.read''))))"

section \<open>Dispatch\<close>

fun run_tool :: "env \<Rightarrow> tool_env \<Rightarrow> 'f handler \<Rightarrow> tool_kind \<Rightarrow> 'f tool" where
  "run_tool env te h SystemStatus = system_status env h"
| "run_tool env te h ServersSearch = search_servers env h"
| "run_tool env te h ServersStatus = server_status_tool env h"
| "run_tool env te h ServersNetworksSearch = search_networks env h"
| "run_tool env te h ServersNetworksRead = read_network env h"
| "run_tool env te h StacksSearch = search_stacks env h"
| "run_tool env te h StacksStatus = stack_status_tool env h"
| "run_tool env te h StacksDiagnostics = stack_diagnostics_tool env h"
| "run_tool env te h StacksConfigRead = stack_config_read env h"
| "run_tool env te h StacksComposeRead = stack_compose_read env h"
| "run_tool env te h StacksEnvironmentRead = stack_environment_read env h"
| "run_tool env te h StacksCommandsRead = stack_commands_read env h"
| "run_tool env te h StacksWebhookStatus = stack_webhook_status env h"
| "run_tool env te h StacksWebhookSecretRead = stack_webhook_secret_read env h"
| "run_tool env te h StacksLogsTail = stack_logs_tail env h"
| "run_tool env te h DeploymentsSearch = search_deployments env h"
| "run_tool env te h DeploymentsStatus = deployment_status_tool env h"
| "run_tool env te h BuildsSearch = search_builds env h"
| "run_tool env te h BuildsStatus = build_status_tool env h"
| "run_tool env te h ReposSearch = search_repos env h"
| "run_tool env te h ReposStatus = repo_status_tool env h"
| "run_tool env te h OperationsSearch = search_operations env te h"
| "run_tool env te h OperationsStatus = operation_status_tool env te h"
| "run_tool env te h OperationsLogsRead = operation_logs_read env h"
| "run_tool env te h StacksDeploy = mutate env h DeployStack"
| "run_tool env te h StacksRestart = mutate env h RestartStack"
| "run_tool env te h StacksStop = mutate env h StopStack"
| "run_tool env te h DeploymentsDeploy = mutate env h DeployDeployment"
| "run_tool env te h DeploymentsRestart = mutate env h RestartDeployment"
| "run_tool env te h BuildsRun = mutate env h RunBuild"
| "run_tool env te h BuildsCancel = mutate env h CancelBuild"
| "run_tool env te h ReposPull = mutate env h PullRepo"
| "run_tool env te h StacksConfigPatch = stack_config_patch_tool env h"
| "run_tool env te h StacksComposeWrite = stack_compose_write env h"
| "run_tool env te h StacksEnvironmentWrite = stack_environment_write env h"
| "run_tool env te h StacksCommandsWrite = stack_commands_write env h"
| "run_tool env te h StacksFileWrite = stack_file_write env h"
| "run_tool env te h StacksWebhookUpdate = stack_webhook_update env h"
| "run_tool env te h StacksWebhookSecretWrite = stack_webhook_secret_write env te h"

definition dispatch :: "env \<Rightarrow> tool_env \<Rightarrow> 'f handler \<Rightarrow> 'f tool" where
  "dispatch env te h params =
     (case find_spec (h_admin h \<noteq> None) (h_profile h) (cp_name params) of
        None \<Rightarrow> fail method_not_found
      | Some spec \<Rightarrow>
          bind_io (run_tool env te h (spec_kind spec) params) (\<lambda>r. ret (trust_annotated r)))"

end
