(* ===== verification/Mcp_Calls.thy ===== *)
theory Mcp_Calls
  imports Mcp_Tools
begin

text \<open>
  A tool call from the transport (\<open>KomodoMcp::call_tool\<close>): the lifetime it runs in, its
  dispatch, and errors that carry a credential file turned into an answer; with the properties
  of whole calls.
\<close>

definition error_code_value :: "error_code \<Rightarrow> int" where
  "error_code_value c = (case c of InvalidRequest \<Rightarrow> - 32600 | MethodNotFound \<Rightarrow> - 32601
     | InvalidParams \<Rightarrow> - 32602 | InternalError \<Rightarrow> - 32603)"

definition carries_file :: "mcp_error \<Rightarrow> bool" where
  "carries_file e = (case err_data e of None \<Rightarrow> False
     | Some data \<Rightarrow> (case jget ''upstream'' data of None \<Rightarrow> False
       | Some up \<Rightarrow> jget ''diagnosticFile'' up \<noteq> None \<or> jget ''diagnosticFileUnavailable'' up \<noteq> None))"

text \<open>The deserialisation of the data is an \<open>expect\<close>.\<close>

definition credential_failure :: "mcp_error \<Rightarrow> ('f, mcp_error, call_result) io" where
  "credential_failure e = (\<lambda>w.
     case Option.bind (err_data e) de_credential_failure_data of
       None \<Rightarrow> (Inl Panic, w)
     | Some data \<Rightarrow>
         bind_io (structured (CredentialFailureOutput (error_code_value (err_code e)) (err_message e) data))
           (\<lambda>result. ret (trust_annotated (result\<lparr>cr_is_error := True\<rparr>))) w)"

text \<open>
  The environment of the call: the biased \<open>select!\<close> fires at an observation where the RPC is
  cancelled or the budget has ended, and then drops the dispatch at its next await.
\<close>

definition call_ended :: "env \<Rightarrow> 'f handler \<Rightarrow> (nat \<Rightarrow> bool) \<Rightarrow> nat \<Rightarrow> bool" where
  "call_ended env h ct k \<longleftrightarrow> ct k \<or>
     (case h_budget h of None \<Rightarrow> False | Some b \<Rightarrow> budget_ended b (now env) k)"

definition call_env :: "env \<Rightarrow> 'f handler \<Rightarrow> (nat \<Rightarrow> bool) \<Rightarrow> env" where
  "call_env env h ct = env\<lparr>select_fired := call_ended env h ct\<rparr>"

definition finish_call ::
  "(mcp_error exn + call_result) \<times> 'f world \<Rightarrow> (mcp_error exn + call_result) \<times> 'f world" where
  "finish_call rw = (case rw of (r, w) \<Rightarrow>
     (case r of
        Inl Ended \<Rightarrow> (Inl (Fail ended_error), w)
      | Inl (Fail e) \<Rightarrow> if carries_file e then credential_failure e w else (r, w)
      | _ \<Rightarrow> (r, w)))"

definition select_dispatch ::
  "env \<Rightarrow> tool_env \<Rightarrow> 'f handler \<Rightarrow> (nat \<Rightarrow> bool) \<Rightarrow> 'f tool" where
  "select_dispatch env te h ct params = (\<lambda>w. finish_call
     (if call_ended env h ct (steps w) then (Inl Ended, w)
      else dispatch (call_env env h ct) te (h\<lparr>h_rpc_cancellation := Some ct\<rparr>) params w))"

definition call_tool :: "env \<Rightarrow> tool_env \<Rightarrow> 'f handler \<Rightarrow> (nat \<Rightarrow> bool) \<Rightarrow> 'f tool" where
  "call_tool env te h ct params = (\<lambda>w.
     case h_budget h of
       None \<Rightarrow> select_dispatch env te h ct params w
     | Some b \<Rightarrow>
         (let w' = w\<lparr>steps := Suc (steps w)\<rparr> in
          case budget_check b (now env) (steps w) of
            Inl e \<Rightarrow> (Inl (Fail e), w')
          | Inr _ \<Rightarrow> select_dispatch env te h ct params w'))"

text \<open>Concrete values for the examples: a Core that lists one stack and accepts every mutation.\<close>

definition sample_stack :: "stack_info resource_list_item" where
  "sample_stack = \<lparr> ri_id = ''s1'', ri_type = ''Stack'', ri_name = ''web'', ri_template = None,
     ri_tags = None, ri_info = \<lparr> stk_state = ''running'', stk_swarm_id = None, stk_swarm_name = None,
       stk_server_id = None, stk_server_name = None, stk_files_on_host = None,
       stk_file_contents = None, stk_linked_repo = None, stk_linked_repo_name = None,
       stk_git_provider = None, stk_repo = None, stk_branch = None, stk_repo_link = None,
       stk_auto_update_all_services = None, stk_status = None, stk_services = [],
       stk_project_missing = False, stk_missing_files = [], stk_deployed_hash = None,
       stk_latest_hash = None \<rparr> \<rparr>"

definition sample_core :: env where
  "sample_core = sample_env\<lparr>dec_stacks := (\<lambda>_. Some [sample_stack])\<rparr>"

definition sample_handler :: "unit handler" where
  "sample_handler = handler_new (sample_client\<lparr>cl_role := ReadClient\<rparr>) sample_client"

definition sample_tools :: tool_env where
  "sample_tools = \<lparr> te_history = sample_history, te_secret_input = (\<lambda>_. Some Inherited) \<rparr>"

definition sample_call :: "string \<Rightarrow> call_params" where
  "sample_call name = \<lparr> cp_name = name, cp_arguments = Some [(''selector'', JStr ''web'')] \<rparr>"

section \<open>What tools send\<close>

lemma reads_only_map_api [traffic_intros]: "reads_only c m \<Longrightarrow> reads_only c (map_api env h m)"
  unfolding map_api_def by (intro traffic_intros)

lemma mute_structured [traffic_intros]: "mute (structured out)" "idle (structured out)"
  unfolding structured_def by (intro traffic_intros)+

lemma reads_only_mute [traffic_intros]: "reads_only c (structured out)"
  "reads_only c (admin_client env h)" "reads_only c (publish_file env owner ops name mime bytes)"
  "reads_only c (take_file env owner ops uri)" "reads_only c (publish_document env h doc name)"
  by (intro mute_reads_only traffic_intros)+

lemma reads_only_inventories [traffic_intros]:
  "reads_only (cl_credentials c) (servers_inventory env c request)"
  "reads_only (cl_credentials c) (stacks_inventory env c request)"
  "reads_only (cl_credentials c) (deployments_inventory env c request)"
  "reads_only (cl_credentials c) (builds_inventory env c request)"
  "reads_only (cl_credentials c) (repos_inventory env c request)"
  by (intro quiet_reads_only quiet_intros)+

lemma reads_only_api [traffic_intros]:
  "reads_only (cl_credentials c) (api_version env c)"
  "reads_only (cl_credentials c) (api_networks env c server)"
  "reads_only (cl_credentials c) (api_network env c server nw)"
  "reads_only (cl_credentials c) (api_operations_query env c page query)"
  "reads_only (cl_credentials c) (api_update env c operation_id)"
  "reads_only (cl_credentials c) (api_stack_detail env c selector)"
  "reads_only (cl_credentials c) (api_stack_log env c selector services tail timestamps)"
  "reads_only (cl_credentials c) (api_update_logs env c operation_id)"
  by (intro quiet_reads_only quiet_intros)+

lemma reads_only_split [traffic_intros]:
  "(\<And>a b. x = (a, b) \<Longrightarrow> reads_only c (f a b)) \<Longrightarrow> reads_only c (case x of (a, b) \<Rightarrow> f a b)"
  by (cases x) simp

lemma reads_only_select_from [traffic_intros]:
  "(\<And>request. reads_only (cl_credentials (h_read h)) (list_fn env (h_read h) request)) \<Longrightarrow>
     reads_only (cl_credentials (h_read h)) (select_from env h list_fn selector)"
  unfolding select_from_def by (intro traffic_intros)

lemma reads_only_selected_detail [traffic_intros]:
  "reads_only (cl_credentials (h_read h)) (selected_detail env h selector)"
  unfolding selected_detail_def by (intro traffic_intros)

lemma reads_only_search_tool:
  "(\<And>request. reads_only (cl_credentials (h_read h)) (list_fn env (h_read h) request)) \<Longrightarrow>
     reads_only (cl_credentials (h_read h)) (search_tool env h list_fn view strip out params)"
  unfolding search_tool_def by (intro traffic_intros)

lemma reads_only_status_tool:
  "(\<And>request. reads_only (cl_credentials (h_read h)) (list_fn env (h_read h) request)) \<Longrightarrow>
     reads_only (cl_credentials (h_read h)) (status_tool env h list_fn view strip out params)"
  unfolding status_tool_def by (intro traffic_intros)

lemma reads_only_webhook_secret [traffic_intros]:
  "reads_only c (normalize_webhook_secret env secret context)"
  unfolding normalize_webhook_secret_def
  by (auto split: option.splits prod.splits intro!: traffic_intros)

lemma reads_only_project_operation [traffic_intros]:
  "reads_only c (project_operation env te h p item)"
proof -
  have "reads_only c (publish_optional env h doc name)" for doc name
    unfolding publish_optional_def by (auto split: option.splits intro!: traffic_intros)
  then show ?thesis
    unfolding project_operation_def publish_operation_def Let_def
    by (auto intro!: traffic_intros)
qed

lemma reads_only_map_io [traffic_intros]:
  "(\<And>x. reads_only c (f x)) \<Longrightarrow> reads_only c (map_io f xs)"
  by (induction xs) (auto intro!: traffic_intros)

lemma reads_only_lookup [traffic_intros]:
  "reads_only c m \<Longrightarrow> reads_only c (or_else (operation_lookup_error env h) m)"
  by (intro traffic_intros)

lemma reads_only_tools:
  "reads_only (cl_credentials (h_read h)) (system_status env h params)"
  "reads_only (cl_credentials (h_read h)) (search_networks env h params)"
  "reads_only (cl_credentials (h_read h)) (read_network env h params)"
  "reads_only (cl_credentials (h_read h)) (stack_diagnostics_tool env h params)"
  "reads_only (cl_credentials (h_read h)) (stack_config_read env h params)"
  "reads_only (cl_credentials (h_read h)) (stack_compose_read env h params)"
  "reads_only (cl_credentials (h_read h)) (stack_environment_read env h params)"
  "reads_only (cl_credentials (h_read h)) (stack_commands_read env h params)"
  "reads_only (cl_credentials (h_read h)) (stack_webhook_status env h params)"
  "reads_only (cl_credentials (h_read h)) (stack_webhook_secret_read env h params)"
  "reads_only (cl_credentials (h_read h)) (stack_logs_tail env h params)"
  "reads_only (cl_credentials (h_read h)) (search_operations env te h params)"
  "reads_only (cl_credentials (h_read h)) (operation_status_tool env te h params)"
  "reads_only (cl_credentials (h_read h)) (operation_logs_read env h params)"
  unfolding system_status_def search_networks_def read_network_def stack_diagnostics_tool_def
    stack_config_read_def stack_compose_read_def stack_environment_read_def stack_commands_read_def
    stack_webhook_status_def stack_webhook_secret_read_def stack_logs_tail_def
    search_operations_def operation_status_tool_def operation_logs_read_def Let_def
  by (intro traffic_intros)+

lemma reads_only_inventory_tools:
  "reads_only (cl_credentials (h_read h)) (search_servers env h params)"
  "reads_only (cl_credentials (h_read h)) (server_status_tool env h params)"
  "reads_only (cl_credentials (h_read h)) (search_stacks env h params)"
  "reads_only (cl_credentials (h_read h)) (stack_status_tool env h params)"
  "reads_only (cl_credentials (h_read h)) (search_deployments env h params)"
  "reads_only (cl_credentials (h_read h)) (deployment_status_tool env h params)"
  "reads_only (cl_credentials (h_read h)) (search_builds env h params)"
  "reads_only (cl_credentials (h_read h)) (build_status_tool env h params)"
  "reads_only (cl_credentials (h_read h)) (search_repos env h params)"
  "reads_only (cl_credentials (h_read h)) (repo_status_tool env h params)"
  unfolding search_servers_def server_status_tool_def search_stacks_def stack_status_tool_def
    search_deployments_def deployment_status_tool_def search_builds_def build_status_tool_def
    search_repos_def repo_status_tool_def
  by (intro reads_only_search_tool reads_only_status_tool traffic_intros)+

section \<open>Submissions\<close>

text \<open>The credentials mutations are submitted under.\<close>

definition admin_credentials :: "'f handler \<Rightarrow> credentials" where
  "admin_credentials h = (case h_admin h of None \<Rightarrow> cl_credentials (h_read h)
     | Some c \<Rightarrow> cl_credentials c)"

definition mutates_once :: "credentials \<Rightarrow> ('f, 'e, 'a) io \<Rightarrow> bool" where
  "mutates_once ca m \<longleftrightarrow> (\<forall>w. \<exists>ms. sent (snd (m w)) = sent w @ ms \<and>
     list_all (is_mutation ca) ms \<and> length ms \<le> 1 \<and> steps w \<le> steps (snd (m w)) \<and>
     steps (snd (m w)) \<le> Suc (steps w))"

lemma post_once_mutates:
  "family \<noteq> ''read'' \<Longrightarrow> mutates_once (cl_credentials c) (post env c family variant params False dec)"
  unfolding mutates_once_def
proof
  fix w :: "'f world"
  assume f: "family \<noteq> ''read''"
  let ?m = "post env c family variant params False dec"
  obtain n where n: "n \<le> 1" "sent (snd (?m w)) = sent w @
       (case url_join env (cl_base_url c) family of None \<Rightarrow> []
        | Some endpoint \<Rightarrow> replicate n (make_request c endpoint family variant params))"
    using post_sent [of False env c family variant params dec w] by auto
  have "?m w = post_once env c family variant params dec w"
    using post_cases [of env c family variant params False dec w] by simp
  then have "steps w \<le> steps (snd (?m w)) \<and> steps (snd (?m w)) \<le> Suc (steps w)"
    by (simp add: post_once_steps post_once_steps_le)
  then show "\<exists>ms. sent (snd (?m w)) = sent w @ ms \<and> list_all (is_mutation (cl_credentials c)) ms \<and>
      length ms \<le> 1 \<and> steps w \<le> steps (snd (?m w)) \<and> steps (snd (?m w)) \<le> Suc (steps w)"
    using f n by (auto simp: list_all_iff is_mutation_def make_request_def split: option.splits)
qed

lemma mutates_once_api:
  "mutates_once (cl_credentials c) (api_execute env c a target)"
  "mutates_once (cl_credentials c) (api_update_stack env c target patch)"
  "mutates_once (cl_credentials c) (api_write_stack_file env c target file_path contents)"
  unfolding api_execute_def api_update_stack_def api_write_stack_file_def
  by (rule post_once_mutates, simp)+

lemma submits_submit:
  assumes "\<And>a. mutates_once (cl_credentials a) (request a)"
  shows "submits c (admin_credentials h) (invocation_alive env h) (submit env h target tool request)"
  unfolding submits_def
proof
  fix w
  show "call_traffic c (admin_credentials h) (invocation_alive env h) w
      (snd (submit env h target tool request w))"
    unfolding submit_def
  proof (cases rule: bind_io_cases [of "admin_client env h" w
        "\<lambda>admin. or_else (mutation_error env h target tool) (request admin)"])
    case (1 e w')
    then show "call_traffic c (admin_credentials h) (invocation_alive env h) w
        (snd (bind_io (admin_client env h)
          (\<lambda>admin. or_else (mutation_error env h target tool) (request admin)) w))"
      using muteD [OF mute_admin_client 1(1)] by (simp add: no_traffic_read read_traffic_call)
  next
    case (2 a w')
    from 2(1) have a: "h_admin h = Some a" "invocation_alive env h (steps w)"
      "w' = w\<lparr>steps := Suc (steps w)\<rparr>" by (simp_all add: admin_client_Inr)
    obtain r w'' where r: "request a w' = (r, w'')" by fastforce
    obtain ms where ms: "sent w'' = sent w @ ms" "list_all (is_mutation (admin_credentials h)) ms"
      "length ms \<le> 1" "Suc (steps w) \<le> steps w''" "steps w'' \<le> steps w + 2"
      using assms [unfolded mutates_once_def, rule_format, of a w'] r a
      by (auto simp: admin_credentials_def)
    define v where "v = snd (or_else (mutation_error env h target tool) (request a) w')"
    have v: "sent v = sent w''" "steps w'' \<le> steps v" "steps v \<le> steps w'' + 2"
    proof (atomize (full), cases rule: or_else_cases [of "request a" w' "mutation_error env h target tool"])
      case (1 q u)
      with r show "sent v = sent w'' \<and> steps w'' \<le> steps v \<and> steps v \<le> steps w'' + 2"
        by (simp add: v_def)
    next
      case (2 e u)
      with r have u: "v = snd (mutation_error env h target tool e w'')" by (simp add: v_def)
      show "sent v = sent w'' \<and> steps w'' \<le> steps v \<and> steps v \<le> steps w'' + 2"
        unfolding u using mute_mutation_error [of env h target tool e]
          mutation_error_steps [of env h target tool e w'']
        by (simp add: mute_def no_traffic_def)
    qed
    have "call_traffic c (admin_credentials h) (invocation_alive env h) w v"
      unfolding call_traffic_def using ms a(2) v
      by (intro conjI exI [of _ "[]"] exI [of _ ms]) (auto intro: exI [of _ "steps w"])
    then show "call_traffic c (admin_credentials h) (invocation_alive env h) w
        (snd (bind_io (admin_client env h)
          (\<lambda>admin. or_else (mutation_error env h target tool) (request admin)) w))"
      unfolding 2(2) v_def .
  qed
qed

lemma reads_only_mutation_target [traffic_intros]:
  "reads_only (cl_credentials (h_read h)) (mutation_target env h a selector)"
  unfolding mutation_target_def by (auto intro!: traffic_intros)

lemma reads_only_resolve [traffic_intros]:
  "reads_only (cl_credentials (h_read h)) (resolve_stack_id env h selector)"
  unfolding resolve_stack_id_def by (intro traffic_intros)

lemma reads_only_webhook_text [traffic_intros]: "reads_only c (webhook_secret_text env h secret)"
  unfolding webhook_secret_text_def
  by (auto split: webhook_secret_input.splits option.splits prod.splits intro!: traffic_intros)

abbreviation (input) submits_of :: "env \<Rightarrow> 'f handler \<Rightarrow> ('f, 'e, 'a) io \<Rightarrow> bool" where
  "submits_of env h \<equiv> submits (cl_credentials (h_read h)) (admin_credentials h) (invocation_alive env h)"

lemma submits_split:
  "(\<And>a b. x = (a, b) \<Longrightarrow> submits c ca alive (f a b)) \<Longrightarrow> submits c ca alive (case x of (a, b) \<Rightarrow> f a b)"
  by (cases x) simp

lemma submits_update_config: "submits_of env h (update_config env h selector patch applied tool)"
  unfolding update_config_def
  by (intro submits_bind submits_then submits_submit mutates_once_api traffic_intros)

lemma submits_mutations:
  "submits_of env h (mutate env h a params)"
  "submits_of env h (stack_file_write env h params)"
  unfolding mutate_def stack_file_write_def
  by (intro submits_bind submits_then submits_submit mutates_once_api traffic_intros)+

lemma submits_config_tools:
  "submits_of env h (stack_config_patch_tool env h params)"
  "submits_of env h (stack_compose_write env h params)"
  "submits_of env h (stack_environment_write env h params)"
  "submits_of env h (stack_commands_write env h params)"
  "submits_of env h (stack_webhook_update env h params)"
  "submits_of env h (stack_webhook_secret_write env te h params)"
  unfolding stack_config_patch_tool_def stack_compose_write_def stack_environment_write_def
    stack_commands_write_def stack_webhook_update_def stack_webhook_secret_write_def Let_def
  by (intro submits_bind submits_split submits_update_config traffic_intros)+

lemma reads_only_run_tool:
  "kind \<in> spec_kind ` set read_registry \<Longrightarrow>
     reads_only (cl_credentials (h_read h)) (run_tool env te h kind params)"
  by (auto simp: read_registry_def read_spec_def intro: reads_only_tools reads_only_inventory_tools)

lemma submits_run_tool: "submits_of env h (run_tool env te h kind params)"
  by (cases kind) (auto intro: reads_only_submits reads_only_tools reads_only_inventory_tools
      submits_mutations submits_config_tools)

lemma submits_dispatch: "submits_of env h (dispatch env te h params)"
proof (cases "find_spec (h_admin h \<noteq> None) (h_profile h) (cp_name params)")
  case None
  then show ?thesis unfolding dispatch_def
    by (simp add: reads_only_submits reads_only_basic del: not_None_eq)
next
  case (Some spec)
  have "submits_of env h (bind_io (run_tool env te h (spec_kind spec) params) (\<lambda>r. ret (trust_annotated r)))"
    by (intro submits_then submits_run_tool traffic_intros)
  with Some show ?thesis unfolding dispatch_def by (simp del: not_None_eq)
qed

lemma write_registry_mutates: "list_all (\<lambda>s. \<not> read_only (spec_behavior s)) write_registry"
  by (simp add: write_registry_def write_spec_def mutation_behavior_def with_destructive_def
      with_idempotent_def with_open_world_def)

lemma find_spec_read:
  assumes "find_spec admin profile name = Some spec" "read_only (spec_behavior spec)"
  shows "spec_kind spec \<in> spec_kind ` set read_registry"
proof -
  have "spec \<in> set tool_registry"
    using assms(1) by (auto simp: find_spec_def find_Some_iff)
  with assms(2) write_registry_mutates show ?thesis
    by (auto simp: tool_registry_def list_all_iff)
qed

section \<open>Whole calls\<close>

abbreviation invocation :: "'f handler \<Rightarrow> (nat \<Rightarrow> bool) \<Rightarrow> 'f handler" where
  "invocation h ct \<equiv> h\<lparr>h_rpc_cancellation := Some ct\<rparr>"

lemma invocation_simps [simp]:
  "h_read (invocation h ct) = h_read h" "h_admin (invocation h ct) = h_admin h"
  "h_profile (invocation h ct) = h_profile h" "h_files (invocation h ct) = h_files h"
  by simp_all

lemma admin_credentials_invocation [simp]: "admin_credentials (invocation h ct) = admin_credentials h"
  by (simp add: admin_credentials_def split: option.splits)

lemma invocation_alive_call:
  "invocation_alive (call_env env h ct) (invocation h ct) k \<longleftrightarrow> \<not> call_ended env h ct k"
  by (auto simp: invocation_alive_def call_ended_def call_env_def split: option.splits)

lemma credential_failure_snd [simp]: "snd (credential_failure e w) = w"
  by (simp add: credential_failure_def structured_def split: option.splits)

lemma finish_call_snd [simp]: "snd (finish_call (r, w)) = w"
  by (simp add: finish_call_def split: sum.splits exn.splits)

lemma finish_call_Inr: "finish_call (Inr x, w) = (Inr x, w)"
  by (simp add: finish_call_def)

text \<open>How a call ends, from how its dispatch ended.\<close>

definition failure_answer :: "mcp_error \<Rightarrow> credential_failure_data \<Rightarrow> call_result" where
  "failure_answer e data =
     \<lparr> cr_output = CredentialFailureOutput (error_code_value (err_code e)) (err_message e) data,
       cr_is_error = True, cr_untrusted = True \<rparr>"

lemma finish_call_cases:
  assumes "finish_call (r, w) = (q, w')"
  obtains (answer) result where "r = Inr result" "q = Inr result"
    | (ended) "r = Inl Ended" "q = Inl (Fail ended_error)"
    | (failed) e where "r = Inl (Fail e)" "\<not> carries_file e" "q = Inl (Fail e)"
    | (answered) e d data where "r = Inl (Fail e)" "carries_file e" "err_data e = Some d"
        "de_credential_failure_data d = Some data" "q = Inr (failure_answer e data)"
    | (unreadable) e where "r = Inl (Fail e)" "carries_file e"
        "Option.bind (err_data e) de_credential_failure_data = None" "q = Inl Panic"
    | (dropped) "r = Inl TimedOut" "q = Inl TimedOut"
    | (panic) "r = Inl Panic" "q = Inl Panic"
proof (cases r)
  case (Inr result)
  then have "finish_call (r, w) = (Inr result, w)" by (simp add: finish_call_Inr)
  with assms have "q = Inr result" by simp
  with Inr show thesis by (rule answer)
next
  case (Inl x)
  show thesis
  proof (cases x)
    case (Fail e)
    then have r: "r = Inl (Fail e)" using Inl by simp
    show thesis
    proof (cases "carries_file e")
      case False
      then have "q = Inl (Fail e)" using assms by (auto simp: r finish_call_def)
      with r False show thesis by (rule failed)
    next
      case True
      show thesis
      proof (cases "Option.bind (err_data e) de_credential_failure_data")
        case None
        then have "q = Inl Panic" using assms True by (auto simp: r finish_call_def credential_failure_def)
        with r True None show thesis by (rule unreadable)
      next
        case (Some data)
        then obtain d where d: "err_data e = Some d" "de_credential_failure_data d = Some data"
          by (auto simp: bind_eq_Some_conv)
        have "q = Inr (failure_answer e data)"
          using assms True Some by (auto simp: r finish_call_def credential_failure_def structured_def
              trust_annotated_def failure_answer_def)
        with r True d show thesis by (rule answered)
      qed
    qed
  next
    case TimedOut
    then have "q = Inl TimedOut" using assms Inl by (auto simp: finish_call_def)
    with Inl TimedOut show thesis by (intro dropped) simp_all
  next
    case Ended
    then have "q = Inl (Fail ended_error)" using assms Inl by (auto simp: finish_call_def)
    with Inl Ended show thesis by (intro ended) simp_all
  next
    case Panic
    then have "q = Inl Panic" using assms Inl by (auto simp: finish_call_def)
    with Inl Panic show thesis by (intro panic) simp_all
  qed
qed

lemma dispatch_Inr:
  assumes "dispatch env te h params w = (Inr q, w')"
  obtains spec p u where "find_spec (h_admin h \<noteq> None) (h_profile h) (cp_name params) = Some spec"
    "run_tool env te h (spec_kind spec) params w = (Inr p, u)" "q = trust_annotated p"
  using assms by (auto simp: dispatch_def bind_io_Inr split: option.splits simp del: not_None_eq)

lemma select_dispatch_cases:
  obtains (ended) "call_ended env h ct (steps w)" "select_dispatch env te h ct params w = (Inl (Fail ended_error), w)"
  | (run) r w' where "\<not> call_ended env h ct (steps w)"
      "dispatch (call_env env h ct) te (invocation h ct) params w = (r, w')"
      "select_dispatch env te h ct params w = finish_call (r, w')"
proof (cases "call_ended env h ct (steps w)")
  case True
  then show thesis by (intro ended) (simp_all add: select_dispatch_def finish_call_def)
next
  case False
  then show thesis by (cases "dispatch (call_env env h ct) te (invocation h ct) params w")
      (auto intro: run simp: select_dispatch_def)
qed

lemma call_tool_cases:
  obtains (refused) w' where "call_tool env te h ct params w = (Inl (Fail ended_error), w')"
      "sent w' = sent w" "store w' = store w" "steps w \<le> steps w'" "timeout_at w' = timeout_at w"
  | (run) w1 r w' where "sent w1 = sent w" "store w1 = store w" "steps w \<le> steps w1"
      "steps w1 \<le> Suc (steps w)" "timeout_at w1 = timeout_at w" "core_version w1 = core_version w"
      "\<not> call_ended env h ct (steps w1)"
      "dispatch (call_env env h ct) te (invocation h ct) params w1 = (r, w')"
      "call_tool env te h ct params w = finish_call (r, w')"
proof (cases "h_budget h")
  case None
  then have c: "call_tool env te h ct params w = select_dispatch env te h ct params w"
    by (simp add: call_tool_def)
  show thesis
  proof (cases rule: select_dispatch_cases [of env h ct w te params])
    case ended
    with c refused show thesis by simp
  next
    case (run r w')
    with c that(2) [of w r w'] show thesis by simp
  qed
next
  case (Some b)
  let ?w = "w\<lparr>steps := Suc (steps w)\<rparr>"
  show thesis
  proof (cases "budget_ended b (now env) (steps w)")
    case True
    then have "budget_check b (now env) (steps w) = Inl ended_error" by simp
    with Some have "call_tool env te h ct params w = (Inl (Fail ended_error), ?w)"
      by (simp add: call_tool_def del: budget_check_Inl)
    then show thesis by (rule refused) simp_all
  next
    case False
    then have "budget_check b (now env) (steps w) = Inr ()" by simp
    with Some have c: "call_tool env te h ct params w = select_dispatch env te h ct params ?w"
      by (simp add: call_tool_def del: budget_check_Inr)
    show thesis
    proof (cases rule: select_dispatch_cases [of env h ct ?w te params])
      case ended
      with c show thesis by (intro refused [of ?w]) simp_all
    next
      case (run r w')
      with c that(2) [of ?w r w'] show thesis by simp
    qed
  qed
qed

lemma call_traffic_alive_mono:
  assumes "call_traffic c ca alive w w'" "\<And>k. alive k \<Longrightarrow> alive' k"
  shows "call_traffic c ca alive' w w'"
  using assms unfolding call_traffic_def by blast

lemma call_tool_traffic:
  "call_traffic (cl_credentials (h_read h)) (admin_credentials h) (\<lambda>k. \<not> call_ended env h ct k) w
     (snd (call_tool env te h ct params w))"
proof (cases rule: call_tool_cases [of env te h ct params w])
  case (refused w')
  then show ?thesis
    by (intro read_traffic_call no_traffic_read) (simp add: no_traffic_def)
next
  case (run w1 r w')
  have "call_traffic (cl_credentials (h_read h)) (admin_credentials h)
      (invocation_alive (call_env env h ct) (invocation h ct)) w1 w'"
    using submitsD [OF submits_dispatch run(8)] by simp
  then have "call_traffic (cl_credentials (h_read h)) (admin_credentials h) (\<lambda>k. \<not> call_ended env h ct k) w1 w'"
    by (rule call_traffic_alive_mono) (simp add: invocation_alive_call)
  moreover have "no_traffic w w1" using run(1,3) by (simp add: no_traffic_def)
  ultimately have "call_traffic (cl_credentials (h_read h)) (admin_credentials h)
      (\<lambda>k. \<not> call_ended env h ct k) w w'"
    using read_then_call [OF no_traffic_read] by blast
  then show ?thesis using run(9) by simp
qed

section \<open>Properties\<close>

text \<open>
  C1: One tool call sends reads under the read credentials and after them at most one further
  request: a mutation under the administrative credentials, and this only if the call was
  neither cancelled nor past its deadline at one of the last observations it made: the check
  before the submission, the submission itself, and the two of a published diagnostic.
\<close>

theorem call_submits_at_most_one_mutation:
  "\<exists>rs ms. sent (snd (call_tool env te h ct params w)) = sent w @ rs @ ms \<and>
     list_all (\<lambda>r. rq_family r = ''read'' \<and> rq_credentials r = cl_credentials (h_read h)) rs \<and>
     list_all (\<lambda>r. rq_family r \<noteq> ''read'' \<and> rq_credentials r = admin_credentials h) ms \<and>
     length ms \<le> 1 \<and>
     (ms = [] \<or> (\<exists>j. steps w \<le> j \<and> j \<le> steps (snd (call_tool env te h ct params w)) \<and>
        steps (snd (call_tool env te h ct params w)) \<le> j + 4 \<and> \<not> call_ended env h ct j))"
proof -
  obtain rs ms where t: "sent (snd (call_tool env te h ct params w)) = sent w @ rs @ ms"
    "list_all (is_read (cl_credentials (h_read h))) rs" "list_all (is_mutation (admin_credentials h)) ms"
    "length ms \<le> 1" "ms = [] \<or> (\<exists>j. steps w \<le> j \<and>
       j \<le> steps (snd (call_tool env te h ct params w)) \<and>
       steps (snd (call_tool env te h ct params w)) \<le> j + 4 \<and> \<not> call_ended env h ct j)"
    using call_tool_traffic [of h env ct w te params] by (auto simp: call_traffic_def)
  then show ?thesis unfolding is_read_def [abs_def] is_mutation_def [abs_def] by auto
qed

lemma call_tool_reads:
  "case find_spec (h_admin h \<noteq> None) (h_profile h) (cp_name params) of
     None \<Rightarrow> sent (snd (call_tool env te h ct params w)) = sent w \<and>
       (fst (call_tool env te h ct params w) = Inl (Fail method_not_found) \<or>
        fst (call_tool env te h ct params w) = Inl (Fail ended_error))
   | Some spec \<Rightarrow> read_only (spec_behavior spec) \<longrightarrow>
       (\<exists>rs. sent (snd (call_tool env te h ct params w)) = sent w @ rs \<and>
          list_all (\<lambda>r. rq_family r = ''read'' \<and> rq_credentials r = cl_credentials (h_read h)) rs)"
proof (cases rule: call_tool_cases [of env te h ct params w])
  case (refused w')
  then show ?thesis by (auto split: option.splits intro: exI [of _ "[]"])
next
  case (run w1 r w')
  show ?thesis
  proof (cases "find_spec (h_admin h \<noteq> None) (h_profile h) (cp_name params)")
    case None
    then have "r = Inl (Fail method_not_found)" "w' = w1"
      using run(8) by (simp_all add: dispatch_def del: not_None_eq)
    then show ?thesis
      using run(1,9) None by (simp add: finish_call_def carries_file_def method_not_found_def del: not_None_eq)
  next
    case (Some spec)
    show ?thesis
    proof (cases "read_only (spec_behavior spec)")
      case True
      have "spec_kind spec \<in> spec_kind ` set read_registry"
        using find_spec_read Some True by blast
      then have "reads_only (cl_credentials (h_read h))
          (run_tool (call_env env h ct) te (invocation h ct) (spec_kind spec) params)"
        using reads_only_run_tool [of "spec_kind spec" "invocation h ct"] by simp
      then have "reads_only (cl_credentials (h_read h))
          (dispatch (call_env env h ct) te (invocation h ct) params)"
        using Some by (simp add: dispatch_def reads_only_bind reads_only_basic del: not_None_eq)
      from reads_onlyD [OF this run(8)] Some run(1,9) show ?thesis
        by (auto simp: read_traffic_def is_read_def [abs_def])
    qed (simp add: Some del: not_None_eq)
  qed
qed

text \<open>
  C18: A call of a tool that is marked read-only sends nothing but reads, and a call of a name
  that is not a tool the handler offers sends nothing at all and is refused.
\<close>

theorem read_tools_only_read:
  "case find_spec (h_admin h \<noteq> None) (h_profile h) (cp_name params) of
     None \<Rightarrow> sent (snd (call_tool env te h ct params w)) = sent w \<and>
       (fst (call_tool env te h ct params w) = Inl (Fail method_not_found) \<or>
        fst (call_tool env te h ct params w) = Inl (Fail ended_error))
   | Some spec \<Rightarrow> read_only (spec_behavior spec) \<longrightarrow>
       (\<exists>rs. sent (snd (call_tool env te h ct params w)) = sent w @ rs \<and>
          list_all (\<lambda>r. rq_family r = ''read'' \<and> rq_credentials r = cl_credentials (h_read h)) rs)"
  by (rule call_tool_reads)

theorem read_tools_only_read_witness:
  "find_spec (h_admin sample_handler \<noteq> None) (h_profile sample_handler) ''stacks.status'' \<noteq> None \<and>
   (\<exists>rs. sent (snd (call_tool sample_core sample_tools sample_handler (\<lambda>_. False)
       (sample_call ''stacks.status'') (initial_world ()))) = sent (initial_world ()) @ rs \<and>
     list_all (\<lambda>r. rq_family r = ''read'' \<and>
       rq_credentials r = cl_credentials (h_read sample_handler)) rs)"
proof -
  have "case find_spec (h_admin sample_handler \<noteq> None) (h_profile sample_handler) ''stacks.status'' of
      None \<Rightarrow> False | Some spec \<Rightarrow> read_only (spec_behavior spec)" by code_simp
  then show ?thesis
    using read_tools_only_read [where h = sample_handler and params = "sample_call ''stacks.status''"
      and env = sample_core and te = sample_tools and ct = "\<lambda>_. False" and w = "initial_world ()"]
    by (simp add: sample_call_def del: not_None_eq split: option.splits)
qed

end
