(* ===== verification/Triples.thy ===== *)
theory Triples
  imports Api_Inventory
begin

text \<open>
  Triples for effectful computations: from a state that satisfies the precondition, a
  computation that returns ends in the postcondition of its value, and one that fails, is
  dropped or panics ends in the postcondition of that exit. \<open>safe\<close> is the triple of the
  computations that never panic, keep the deadline in force and an invariant of the file store,
  are dropped by a timeout only under one, and fail only with errors of a given kind.
\<close>

definition lands ::
  "('a \<Rightarrow> 'f world \<Rightarrow> bool) \<Rightarrow> ('e exn \<Rightarrow> 'f world \<Rightarrow> bool) \<Rightarrow> ('e exn + 'a) \<times> 'f world \<Rightarrow> bool" where
  "lands Q R rw \<longleftrightarrow> (case rw of (r, w) \<Rightarrow> (case r of Inr y \<Rightarrow> Q y w | Inl x \<Rightarrow> R x w))"

definition triple ::
  "('f world \<Rightarrow> bool) \<Rightarrow> ('f, 'e, 'a) io \<Rightarrow> ('a \<Rightarrow> 'f world \<Rightarrow> bool) \<Rightarrow> ('e exn \<Rightarrow> 'f world \<Rightarrow> bool) \<Rightarrow> bool"
where
  "triple P m Q R \<longleftrightarrow> (\<forall>w. P w \<longrightarrow> lands Q R (m w))"

lemma lands_simps [simp]:
  "lands Q R (Inr y, w) = Q y w" "lands Q R (Inl x, w) = R x w"
  by (simp_all add: lands_def)

lemma lands_mono:
  assumes "lands Q R rw" "\<And>y w. Q y w \<Longrightarrow> Q' y w" "\<And>x w. R x w \<Longrightarrow> R' x w"
  shows "lands Q' R' rw"
proof (cases rw)
  case (Pair r w)
  with assms show ?thesis by (cases r) simp_all
qed

lemma lands_conj:
  "lands (\<lambda>y w. Q y w \<and> Q' y w) (\<lambda>x w. R x w \<and> R' x w) rw \<longleftrightarrow> lands Q R rw \<and> lands Q' R' rw"
  by (simp add: lands_def split: prod.split sum.split)

text \<open>What the combinators need: weakest preconditions.\<close>

lemma lands_bind: "lands Q R (bind_io m f w) = lands (\<lambda>y w'. lands Q R (f y w')) R (m w)"
  by (simp add: bind_io_def lands_def split: prod.split sum.split)

lemma lands_or_else: "lands Q R (or_else h m w) =
  lands Q (\<lambda>x w'. case x of Fail e \<Rightarrow> lands (\<lambda>g. R (Fail g)) R (h e w') | TimedOut \<Rightarrow> R TimedOut w'
     | Ended \<Rightarrow> R Ended w' | Panic \<Rightarrow> R Panic w') (m w)"
  by (simp add: or_else_def lands_def split: prod.split sum.split exn.split)

lemma lands_lift: "lands Q R (lift r w) = (case r of Inr y \<Rightarrow> Q y w | Inl e \<Rightarrow> R (Fail e) w)"
  by (cases r) simp_all

lemma tripleI: "(\<And>w. P w \<Longrightarrow> lands Q R (m w)) \<Longrightarrow> triple P m Q R"
  by (simp add: triple_def)

lemma tripleD: "triple P m Q R \<Longrightarrow> P w \<Longrightarrow> lands Q R (m w)"
  by (simp add: triple_def)

lemma triple_conseq:
  assumes "triple P m Q R" "\<And>w. P' w \<Longrightarrow> P w" "\<And>y w. Q y w \<Longrightarrow> Q' y w" "\<And>x w. R x w \<Longrightarrow> R' x w"
  shows "triple P' m Q' R'"
  by (rule tripleI, rule lands_mono, rule tripleD [OF assms(1)]) (use assms in simp_all)

lemma triple_conj:
  assumes "triple P m Q R" "triple P' m Q' R'"
  shows "triple (\<lambda>w. P w \<and> P' w) m (\<lambda>y w. Q y w \<and> Q' y w) (\<lambda>x w. R x w \<and> R' x w)"
  by (rule tripleI) (simp add: lands_conj tripleD [OF assms(1)] tripleD [OF assms(2)])

lemma triple_ret: "(\<And>w. P w \<Longrightarrow> Q x w) \<Longrightarrow> triple P (ret x) Q R"
  by (simp add: triple_def)

lemma triple_fail: "(\<And>w. P w \<Longrightarrow> R (Fail e) w) \<Longrightarrow> triple P (fail e) Q R"
  by (simp add: triple_def)

lemma triple_lift:
  "(\<And>x w. r = Inr x \<Longrightarrow> P w \<Longrightarrow> Q x w) \<Longrightarrow> (\<And>e w. r = Inl e \<Longrightarrow> P w \<Longrightarrow> R (Fail e) w) \<Longrightarrow>
     triple P (lift r) Q R"
  by (cases r) (simp_all add: triple_ret triple_fail)

lemma triple_bind:
  assumes m: "triple P m M R" and f: "\<And>x. triple (M x) (f x) Q R"
  shows "triple P (bind_io m f) Q R"
proof (rule tripleI)
  fix w assume "P w"
  show "lands Q R (bind_io m f w)"
    unfolding lands_bind by (rule lands_mono [OF tripleD [OF m \<open>P w\<close>]]) (rule tripleD [OF f])
qed

lemma triple_or_else:
  assumes m: "triple P m Q S"
    and h: "\<And>e. triple (S (Fail e)) (h e) (\<lambda>g. R (Fail g)) R"
    and other: "\<And>w. S TimedOut w \<Longrightarrow> R TimedOut w" "\<And>w. S Ended w \<Longrightarrow> R Ended w"
      "\<And>w. S Panic w \<Longrightarrow> R Panic w"
  shows "triple P (or_else h m) Q R"
proof (rule tripleI)
  fix w assume "P w"
  have "case x of Fail e \<Rightarrow> lands (\<lambda>g. R (Fail g)) R (h e w') | TimedOut \<Rightarrow> R TimedOut w'
     | Ended \<Rightarrow> R Ended w' | Panic \<Rightarrow> R Panic w'" if "S x w'" for x w'
    using that by (cases x) (simp_all add: other tripleD [OF h])
  note exits = this
  show "lands Q R (or_else h m w)"
    unfolding lands_or_else by (rule lands_mono [OF tripleD [OF m \<open>P w\<close>]], assumption, rule exits)
qed

section \<open>Safe computations\<close>

named_theorems safe_intros \<open>safe computations, composed\<close>

definition in_force :: "nat option \<Rightarrow> ('f \<Rightarrow> bool) \<Rightarrow> 'f world \<Rightarrow> bool" where
  "in_force t F w \<longleftrightarrow> timeout_at w = t \<and> F (store w)"

definition safe_exit :: "nat option \<Rightarrow> ('e \<Rightarrow> bool) \<Rightarrow> 'e exn \<Rightarrow> bool" where
  "safe_exit t E x \<longleftrightarrow> (case x of Fail e \<Rightarrow> E e | TimedOut \<Rightarrow> t \<noteq> None | Ended \<Rightarrow> True | Panic \<Rightarrow> False)"

lemma safe_exit_simps [simp]:
  "safe_exit t E (Fail e) = E e" "safe_exit t E TimedOut = (t \<noteq> None)" "safe_exit t E Ended"
  "\<not> safe_exit t E Panic"
  by (simp_all add: safe_exit_def)

definition safe ::
  "nat option \<Rightarrow> ('f \<Rightarrow> bool) \<Rightarrow> ('a \<Rightarrow> bool) \<Rightarrow> ('e \<Rightarrow> bool) \<Rightarrow> ('f, 'e, 'a) io \<Rightarrow> bool" where
  "safe t F G E m \<longleftrightarrow> triple (in_force t F) m
     (\<lambda>y w. in_force t F w \<and> G y) (\<lambda>x w. in_force t F w \<and> safe_exit t E x)"

abbreviation anything :: "'a \<Rightarrow> bool" where "anything \<equiv> \<lambda>_. True"

lemma safeI:
  "(\<And>w. in_force t F w \<Longrightarrow>
      lands (\<lambda>y w. in_force t F w \<and> G y) (\<lambda>x w. in_force t F w \<and> safe_exit t E x) (m w)) \<Longrightarrow>
     safe t F G E m"
  by (simp add: safe_def triple_def)

lemma safeD:
  "safe t F G E m \<Longrightarrow> in_force t F w \<Longrightarrow>
     lands (\<lambda>y w. in_force t F w \<and> G y) (\<lambda>x w. in_force t F w \<and> safe_exit t E x) (m w)"
  by (simp add: safe_def triple_def)

lemma safe_exit_mono: "safe_exit t E x \<Longrightarrow> (\<And>e. E e \<Longrightarrow> E' e) \<Longrightarrow> safe_exit t E' x"
  by (cases x) simp_all

lemma safe_conseq:
  assumes "safe t F G E m" "\<And>x. G x \<Longrightarrow> G' x" "\<And>e. E e \<Longrightarrow> E' e"
  shows "safe t F G' E' m"
  using assms(1) unfolding safe_def
  by (rule triple_conseq) (use assms(2) safe_exit_mono [OF _ assms(3)] in auto)

lemma safe_weaken: "safe t F G E m \<Longrightarrow> safe t F anything E m"
  by (erule safe_conseq) auto

lemma safe_retG: "G x \<Longrightarrow> safe t F G E (ret x)"
  by (rule safeI) simp

lemma safe_fail: "E e \<Longrightarrow> safe t F G E (fail e)"
  by (rule safeI) simp

lemma safe_lift:
  "(\<And>x. r = Inr x \<Longrightarrow> G x) \<Longrightarrow> (\<And>e. r = Inl e \<Longrightarrow> E e) \<Longrightarrow> safe t F G E (lift r)"
  by (cases r) (simp_all add: safe_retG safe_fail)

lemma safe_now [safe_intros]: "safe t F anything E (get_now env)"
  by (rule safeI) (simp add: get_now_def in_force_def)

lemma safe_ret [safe_intros]: "safe t F anything E (ret x)"
  by (simp add: safe_retG)

lemma safe_bindG:
  assumes "safe t F M E m" "\<And>x. M x \<Longrightarrow> safe t F G E (f x)"
  shows "safe t F G E (bind_io m f)"
  unfolding safe_def
  by (rule triple_bind [OF assms(1) [unfolded safe_def]], rule tripleI) (simp add: safeD [OF assms(2)])

lemma safe_bind [safe_intros]:
  "safe t F anything E m \<Longrightarrow> (\<And>x. safe t F G E (f x)) \<Longrightarrow> safe t F G E (bind_io m f)"
  by (rule safe_bindG)

lemma safe_or_else:
  assumes "safe t F G E' m" "\<And>e. E' e \<Longrightarrow> safe t F E E (h e)"
  shows "safe t F G E (or_else h m)"
  unfolding safe_def
proof (rule triple_or_else [OF assms(1) [unfolded safe_def]])
  fix e
  show "triple (\<lambda>w. in_force t F w \<and> safe_exit t E' (Fail e)) (h e)
      (\<lambda>g w. in_force t F w \<and> safe_exit t E (Fail g)) (\<lambda>x w. in_force t F w \<and> safe_exit t E x)"
    by (rule tripleI) (use safeD [OF assms(2)] in simp)
qed simp_all

lemma safe_if [safe_intros]: "safe t F G E m \<Longrightarrow> safe t F G E m' \<Longrightarrow> safe t F G E (if b then m else m')"
  by simp

lemma safe_split [safe_intros]:
  "(\<And>a b. x = (a, b) \<Longrightarrow> safe t F G E (f a b)) \<Longrightarrow> safe t F G E (case x of (a, b) \<Rightarrow> f a b)"
  by (cases x) simp

text \<open>A computation that on each state behaves as some safe one is safe.\<close>

lemma safe_pointwise:
  assumes "\<And>w. \<exists>m'. safe t F G E m' \<and> m w = m' w"
  shows "safe t F G E m"
proof (rule safeI)
  fix w assume w: "in_force t F w"
  obtain m' where "safe t F G E m'" "m w = m' w" using assms by blast
  with safeD [OF this(1) w]
  show "lands (\<lambda>y w. in_force t F w \<and> G y) (\<lambda>x w. in_force t F w \<and> safe_exit t E x) (m w)" by simp
qed

lemma safe_with_timeout:
  assumes m: "\<And>d. safe (Some d) F G E m" and e: "E e"
  shows "safe t F G E (with_timeout env d e m)"
proof (rule safeI)
  fix w assume w: "in_force t F w"
  let ?d = "now env (steps w) + d"
  obtain q v where q: "m (w\<lparr>timeout_at := Some ?d, steps := Suc (steps w)\<rparr>) = (q, v)" by fastforce
  have "in_force (Some ?d) F (w\<lparr>timeout_at := Some ?d, steps := Suc (steps w)\<rparr>)"
    using w by (simp add: in_force_def)
  from safeD [OF m this] have v: "lands (\<lambda>y w. in_force (Some ?d) F w \<and> G y)
      (\<lambda>x w. in_force (Some ?d) F w \<and> safe_exit (Some ?d) E x) (q, v)"
    unfolding q .
  show "lands (\<lambda>y w. in_force t F w \<and> G y) (\<lambda>x w. in_force t F w \<and> safe_exit t E x)
      (with_timeout env d e m w)"
  proof (cases q)
    case (Inl x)
    with q v w e show ?thesis by (cases x) (simp_all add: with_timeout_def in_force_def)
  next
    case (Inr y)
    with q v w show ?thesis by (simp add: with_timeout_def in_force_def)
  qed
qed

section \<open>Core's answers\<close>

text \<open>
  The contract of the HTTP client: a response has a 16-bit status. Under it every upstream
  failure has one.
\<close>

definition statuses_bounded :: "env \<Rightarrow> bool" where
  "statuses_bounded env \<longleftrightarrow> (\<forall>log rq. case send env log rq of NoReply \<Rightarrow> True
     | Reply status chunks complete \<Rightarrow> status \<le> u16_max)"

definition status_bounded :: "api_error \<Rightarrow> bool" where
  "status_bounded e \<longleftrightarrow> (case e of Upstream f \<Rightarrow> uf_status f \<le> u16_max | _ \<Rightarrow> True)"

lemma from_response_status: "uf_status (from_response build de status request bytes cs) = status"
  by (simp add: from_response_def Let_def split: option.split prod.split)

lemma receive_status:
  "receive env creds variant params status chunks complete = Inl e \<Longrightarrow> status \<le> u16_max \<Longrightarrow>
     status_bounded e"
  by (auto simp: receive_def status_bounded_def from_response_status without_body_def
      split: option.splits if_splits)

lemma safe_post_once:
  assumes "statuses_bounded env"
  shows "safe t F anything status_bounded (post_once env c family variant params dec)"
proof (rule safeI)
  fix w
  assume w: "in_force t F w"
  have s: "send env log rq = Reply status chunks complete \<Longrightarrow> status \<le> u16_max"
    for log rq status chunks complete
    using assms [unfolded statuses_bounded_def, rule_format, of log rq] by simp
  have e: "rbind (receive env creds variant params status chunks complete)
      (\<lambda>bytes. ok_or IncompatibleResponse (dec bytes)) = Inl e \<Longrightarrow> status \<le> u16_max \<Longrightarrow> status_bounded e"
    for creds status chunks complete e
    using receive_status [of env creds variant params status chunks complete]
    by (auto simp: rbind_def ok_or_def split: sum.splits option.splits simp: status_bounded_def)
  let ?w = "\<lambda>endpoint. w\<lparr>sent := sent w @ [make_request c endpoint family variant params],
      steps := Suc (steps w)\<rparr>"
  have w': "in_force t F (?w endpoint)" for endpoint
    using w by (simp add: in_force_def)
  have x: "safe_exit t status_bounded x" if "interruption env w = Some x" for x
    using that w by (auto simp: interruption_def in_force_def split: option.splits if_splits)
  have basic: "status_bounded (InvalidConfiguration m)" "status_bounded Unavailable" for m
    by (simp_all add: status_bounded_def)
  show "lands (\<lambda>y w. in_force t F w \<and> True) (\<lambda>x w. in_force t F w \<and> safe_exit t status_bounded x)
      (post_once env c family variant params dec w)"
  proof (cases "url_join env (cl_base_url c) family")
    case None
    with w basic show ?thesis by (simp add: post_once_def)
  next
    case (Some endpoint)
    show ?thesis
    proof (cases "interruption env w :: api_error exn option")
      case (Some x')
      with \<open>url_join env _ _ = _\<close> w' x show ?thesis by (simp add: post_once_def Let_def)
    next
      case None
      with \<open>url_join env _ _ = _\<close> w' basic show ?thesis
        by (cases "send env (sent w) (make_request c endpoint family variant params)")
          (auto simp: post_once_def Let_def lands_lift split: sum.split dest: s e)
    qed
  qed
qed

lemma safe_post [safe_intros]:
  assumes "statuses_bounded env"
  shows "safe t F anything status_bounded (post env c family variant params retry dec)"
proof (rule safeI)
  fix w
  let ?p = "post_once env c family variant params dec"
  let ?lands = "lands (\<lambda>y w. in_force t F w \<and> True) (\<lambda>x w. in_force t F w \<and> safe_exit t status_bounded x)"
  assume w: "in_force t F w"
  from post_cases [of env c family variant params retry dec w]
  show "?lands (post env c family variant params retry dec w)"
  proof
    assume "post env c family variant params retry dec w = ?p w"
    with safeD [OF safe_post_once [OF assms] w] show ?thesis by simp
  next
    assume "\<exists>e w'. ?p w = (Inl (Fail e), w') \<and> retry \<and> retryable e \<and>
      post env c family variant params retry dec w = ?p w'"
    then obtain e w' where e: "?p w = (Inl (Fail e), w')"
      "post env c family variant params retry dec w = ?p w'" by blast
    have "in_force t F w'"
      using safeD [OF safe_post_once [OF assms] w, of c family variant params dec] e(1) by simp
    from safeD [OF safe_post_once [OF assms] this] e(2) show ?thesis by simp
  qed
qed

end
