(* ===== verification/Mcp_Safety.thy ===== *)
theory Mcp_Safety
  imports Mcp_Calls Triples
begin

text \<open>
  No tool call panics. The panics of the code are its \<open>expect\<close>s: the permits of the file
  service, which its contract excludes, and the error data read back when it carries a
  credential file, which is always readable because the handler wrote it
  (\<open>presentable\<close>). The lemmas compose over the operations like the code does; the file
  service enters through the contract \<open>credential_files\<close>.
\<close>

section \<open>Errors without data\<close>

definition plain :: "mcp_error + 'a \<Rightarrow> bool" where
  "plain r \<longleftrightarrow> (\<forall>e. r = Inl e \<longrightarrow> err_data e = None)"

named_theorems plain_intros \<open>results whose errors carry no data\<close>

lemma plain_basic [plain_intros]:
  "plain (Inr x)" "plain (Inl (invalid_params m None))" "plain (Inl (invalid_request m None))"
  "plain (ok_or (invalid_params m None) y)" "plain (ok_or (invalid_request m None) y)"
  "plain (ensure b (invalid_params m None))"
  by (auto simp: plain_def invalid_params_def invalid_request_def ok_or_def ensure_def
      split: option.splits)

lemma plain_rbind [plain_intros]: "plain r \<Longrightarrow> (\<And>x. plain (f x)) \<Longrightarrow> plain (rbind r f)"
  by (cases r) (auto simp: plain_def rbind_def)

lemma plain_if [plain_intros]: "(b \<Longrightarrow> plain r) \<Longrightarrow> (\<not> b \<Longrightarrow> plain s) \<Longrightarrow> plain (if b then r else s)"
  by simp

lemma plain_option [plain_intros]:
  "plain r \<Longrightarrow> (\<And>x. plain (f x)) \<Longrightarrow> plain (case y of None \<Rightarrow> r | Some x \<Rightarrow> f x)"
  by (cases y) auto

lemma plain_validators [plain_intros]:
  "plain (parse de params)" "plain (window_validate win)" "plain (validate_limit n)"
  "plain (validate_query q)" "plain (validate_selector sel)" "plain (validate_write_content c)"
  "plain (validate_write_path p)"
  unfolding parse_def window_validate_def validate_limit_def validate_query_def
    validate_selector_def validate_write_content_def validate_write_path_def
  by (intro plain_intros)+

lemma plain_services [plain_intros]: "plain (validate_services ss)"
  by (induction ss) (auto intro: plain_intros)

lemma plain_paths [plain_intros]: "plain (validate_paths ps)"
  by (induction ps) (auto intro: plain_intros)

lemma plain_inputs [plain_intros]:
  "plain (validate_search input)" "plain (validate_command cmd)" "plain (validate_log_tail tail)"
  "plain (validated_query f)" "plain (search_items items input view)"
  "plain (check_opt validate_write_path x)" "plain (check_opt (\<lambda>ps. if b ps
     then Inl (invalid_params m None) else validate_paths ps) y)"
  "plain (validate_optional_command c)"
  unfolding validate_search_def validate_command_def validate_log_tail_def validated_query_def
    search_items_def check_opt_def validate_optional_command_def Let_def
  by (intro plain_intros)+

lemma plain_select [plain_intros]: "plain (select_resource items sel)"
  unfolding select_resource_def by (auto intro!: plain_intros split: list.split)

lemma plain_config_patch [plain_intros]: "plain (config_patch input)"
  unfolding config_patch_def Let_def by (intro plain_intros)

section \<open>Requests\<close>

lemma safe_core_version [safe_intros]:
  assumes "statuses_bounded env"
  shows "safe t F anything status_bounded (core_2_3_or_later env c)"
proof (rule safe_pointwise)
  fix w
  have refresh: "safe t F anything status_bounded (refresh_core_version env c)"
    unfolding refresh_core_version_def api_version_def
  proof (intro safe_intros safe_lift assms)
    fix b s
    show "safe t F anything status_bounded (\<lambda>w. (Inr b, w\<lparr>core_version := (core_version w)(cl_role c :=
          Some \<lparr> at_least_2_3 = b, cv_expires_at = s + core_version_cache_ttl \<rparr>)\<rparr>))"
      by (rule safeI) (simp add: in_force_def)
  qed (auto simp: status_bounded_def ok_or_def split: option.splits)
  then have "safe t F anything status_bounded (bind_io (get_now env) (\<lambda>t.
      if t < cv_expires_at v then ret (at_least_2_3 v) else refresh_core_version env c))" for v
    by (intro safe_intros)
  with refresh show "\<exists>m'. safe t F anything status_bounded m' \<and> core_2_3_or_later env c w = m' w"
    unfolding core_2_3_or_later_def by (cases "core_version w (cl_role c)") auto
qed

lemma status_bounded_simps [simp]:
  "status_bounded IncompatibleResponse" "status_bounded InventoryPaginationUnsupported"
  "status_bounded InventorySelectorTooBroad" "status_bounded (InvalidConfiguration m)"
  by (simp_all add: status_bounded_def)

lemma safe_scan_pages:
  assumes "statuses_bounded env"
  shows "safe t F anything status_bounded (scan_pages env c variant dec sel pages matches)"
proof -
  have page: "safe t F anything status_bounded (inventory_page env c variant dec q n)" for q n
    unfolding inventory_page_def
    by (intro safe_intros safe_lift assms)
      (auto simp: check_page_def rbind_def ok_or_def split: if_splits sum.splits option.splits)
  show ?thesis
    by (induction pages arbitrary: matches)
      (auto simp: Let_def intro!: safe_fail safe_bind page safe_split safe_ret)
qed

lemma safe_inventory [safe_intros]:
  assumes "statuses_bounded env"
  shows "safe t F anything status_bounded (inventory env c variant dec request)"
proof -
  have page: "safe t F anything status_bounded (inventory_page env c variant dec q n)" for t q n
    unfolding inventory_page_def
    by (intro safe_intros safe_lift assms)
      (auto simp: check_page_def rbind_def ok_or_def split: if_splits sum.splits option.splits)
  have legacy: "safe t F anything status_bounded (bind_io (legacy_read env c variant dec) (\<lambda>items.
      lift (from_legacy items request')))" for t request'
    unfolding legacy_read_def
    by (intro safe_intros safe_lift assms)
      (auto simp: from_legacy_def split: inventory_request.splits nat.splits)
  have versioned: "safe t F anything status_bounded (versioned_inventory env c variant dec request)" for t
    unfolding versioned_inventory_def native_inventory_def
    by (intro safe_intros assms)
      (auto intro: page legacy safe_scan_pages assms safe_fail split: inventory_request.splits nat.splits)
  then have "safe t F anything status_bounded (inventory_inner env c variant dec request)" for t
    unfolding inventory_inner_def
    by (cases request) (auto intro!: safe_intros assms safe_fail)
  then show ?thesis
    unfolding inventory_def by (cases request) (auto intro: safe_with_timeout)
qed

lemma safe_api [safe_intros]:
  assumes "statuses_bounded env"
  shows "safe t F anything status_bounded (servers_inventory env c request)"
    "safe t F anything status_bounded (stacks_inventory env c request)"
    "safe t F anything status_bounded (deployments_inventory env c request)"
    "safe t F anything status_bounded (builds_inventory env c request)"
    "safe t F anything status_bounded (repos_inventory env c request)"
    "safe t F anything status_bounded (api_version env c)"
    "safe t F anything status_bounded (api_networks env c srv)"
    "safe t F anything status_bounded (api_network env c srv nw)"
    "safe t F anything status_bounded (api_operations_query env c page query)"
    "safe t F anything status_bounded (api_update env c operation_id)"
    "safe t F anything status_bounded (api_stack_detail env c sel)"
    "safe t F anything status_bounded (api_stack_log env c sel services tail timestamps)"
    "safe t F anything status_bounded (api_update_logs env c operation_id)"
    "safe t F anything status_bounded (api_execute env c a target)"
    "safe t F anything status_bounded (api_update_stack env c target patch)"
    "safe t F anything status_bounded (api_write_stack_file env c target file_path contents)"
  unfolding servers_inventory_def stacks_inventory_def deployments_inventory_def
    builds_inventory_def repos_inventory_def api_version_def api_networks_def api_network_def
    api_operations_query_def api_update_def api_stack_detail_def api_stack_log_def
    api_update_logs_def api_execute_def api_update_stack_def api_write_stack_file_def
  by (intro safe_intros assms)+

section \<open>Presentable errors\<close>

text \<open>If the error carries a credential file, its data can be read back.\<close>

definition presentable :: "mcp_error \<Rightarrow> bool" where
  "presentable e \<longleftrightarrow> (carries_file e \<longrightarrow> Option.bind (err_data e) de_credential_failure_data \<noteq> None)"

lemma presentable_plain: "err_data e = None \<Longrightarrow> presentable e"
  by (simp add: presentable_def carries_file_def)

lemma plain_presentable: "plain r \<Longrightarrow> r = Inl e \<Longrightarrow> presentable e"
  by (simp add: plain_def presentable_plain)

lemma presentable_same_data: "err_data e = err_data e' \<Longrightarrow> presentable e \<longleftrightarrow> presentable e'"
  by (simp add: presentable_def carries_file_def)

lemma de_all_map: "(\<And>x. x \<in> set xs \<Longrightarrow> d (f x) = Some (g x)) \<Longrightarrow> de_all d (map f xs) = Some (map g xs)"
  by (induction xs) auto

lemma de_text_roundtrip: "de_text (text_json t) = Some t"
  using de_all_map [of _ de_str JStr "\<lambda>x. x"]
  by (cases t) (simp_all add: de_text_def field_req_def de_list_def de_str_def as_str_def)

lemma de_diagnostic_roundtrip: "de_diagnostic (diagnostic_json d) = Some d"
  using de_all_map [of "dg_trace d" de_text text_json "\<lambda>x. x"]
  by (simp add: de_diagnostic_def diagnostic_json_def open_struct_def field_req_def de_list_def
      de_text_roundtrip)

text \<open>The upstream object, with or without a file, is read back.\<close>

lemma de_or_null: "(\<And>y. d (f y) = Some y) \<Longrightarrow> (\<And>y. f y \<noteq> JNull) \<Longrightarrow> de_option d (or_null f x) = Some x"
  by (cases x) (simp_all add: de_option_def or_null_def)

lemma upstream_lookup:
  "map_of (upstream_fields f) ''httpStatus'' = Some (JInt (int (uf_status f)))"
  "map_of (upstream_fields f) ''request'' = Some (JStr (uf_request f))"
  "map_of (upstream_fields f) ''diagnostic'' = Some (or_null diagnostic_json (uf_diagnostic f))"
  "map_of (upstream_fields f) ''diagnosticUnavailable'' = Some (or_null JStr (uf_diagnostic_unavailable f))"
  "map_of (upstream_fields f) ''credentialValuesPresent'' = Some (or_null JBool (uf_credential_values_present f))"
  "map_of (upstream_fields f) ''untrusted'' = Some (JBool True)"
  "map_of (upstream_fields f) ''diagnosticFile'' = None"
  "map_of (upstream_fields f) ''diagnosticFileUnavailable'' = None"
  by (simp_all add: upstream_fields_def)

lemma de_atoms: "de_str (JStr x) = Some x" "de_bool (JBool b) = Some b"
  "de_option de_str (JStr x) = Some (Some x)"
  by (simp_all add: de_str_def as_str_def de_bool_def as_bool_def de_option_def)

lemma de_scalars: "de_option de_str (or_null JStr x) = Some x" "de_option de_bool (or_null JBool b) = Some b"
  "de_option de_diagnostic (or_null diagnostic_json d) = Some d"
proof -
  show "de_option de_str (or_null JStr x) = Some x" "de_option de_bool (or_null JBool b) = Some b"
    by (rule de_or_null; simp add: de_atoms)+
  show "de_option de_diagnostic (or_null diagnostic_json d) = Some d"
    by (rule de_or_null) (simp add: de_diagnostic_roundtrip, simp add: diagnostic_json_def)
qed

lemma de_file:
  "(case fv_size v of None \<Rightarrow> True | Some k \<Rightarrow> k \<le> u64_max) \<Longrightarrow>
     de_option de_file_value (file_value_json v) = Some (Some v)"
  using de_file_value_roundtrip [of v]
  by (cases "file_value_json v = JNull") (simp_all add: de_option_def, simp add: file_value_json_def)

definition readable_upstream :: "obj \<Rightarrow> bool" where
  "readable_upstream fs \<longleftrightarrow> de_upstream_diagnostic (JObj fs) \<noteq> None"

lemma readable_upstream_fields:
  assumes "uf_status f \<le> u16_max"
  shows "readable_upstream (upstream_fields f)"
    "readable_upstream (jset ''diagnosticFileUnavailable'' (JStr why) (upstream_fields f))"
    "(case fv_size file_value of None \<Rightarrow> True | Some k \<Rightarrow> k \<le> u64_max) \<Longrightarrow>
       readable_upstream (jset ''diagnosticFile'' (file_value_json file_value) (upstream_fields f))"
  using assms
  by (simp_all add: readable_upstream_def de_upstream_diagnostic_def open_struct_def map_of_jset
      field_req_def field_opt_def field_def_def upstream_lookup de_scalars de_uint_def
      de_atoms de_file)

lemma readable_data:
  assumes "map_of fs ''upstream'' = Some (JObj up)" "readable_upstream up"
    and "list_all (\<lambda>k. case map_of fs k of None \<Rightarrow> True | Some j \<Rightarrow> \<exists>v. j = JStr v)
       [''outcome'', ''target'', ''reconcileWith'']"
    and "list_all (\<lambda>k. case map_of fs k of None \<Rightarrow> True | Some j \<Rightarrow> \<exists>v. j = JBool v)
       [''retrySafe'', ''operationIdAvailable'', ''operatorVerificationRequired'']"
  shows "de_credential_failure_data (JObj fs) \<noteq> None"
proof -
  have s: "field_opt de_str k fs \<noteq> None" if "k \<in> {''outcome'', ''target'', ''reconcileWith''}" for k
    using assms(3) that
    by (auto simp: field_opt_def field_def_def de_option_def de_str_def as_str_def split: option.splits)
  have b: "field_opt de_bool k fs \<noteq> None"
    if "k \<in> {''retrySafe'', ''operationIdAvailable'', ''operatorVerificationRequired''}" for k
    using assms(4) that
    by (auto simp: field_opt_def field_def_def de_option_def de_bool_def as_bool_def split: option.splits)
  from assms(1,2) obtain u where "field_req de_upstream_diagnostic ''upstream'' fs = Some u"
    by (auto simp: field_req_def readable_upstream_def)
  with s [of "''outcome''"] s [of "''target''"] s [of "''reconcileWith''"] b [of "''retrySafe''"]
    b [of "''operationIdAvailable''"] b [of "''operatorVerificationRequired''"]
  show ?thesis by (auto simp: de_credential_failure_data_def open_struct_def)
qed

lemma presentable_upstream:
  "readable_upstream fs \<Longrightarrow> presentable (upstream_error message fs)"
  unfolding presentable_def upstream_error_def internal_error_def
  using readable_data [of "[(''upstream'', JObj fs)]" fs] by simp

text \<open>Reconciliation data on top of an error's data keep it readable.\<close>

lemma map_of_reconciliation:
  "map_of (jset_all (reconciliation target tool) fs) = (map_of fs)(''outcome'' \<mapsto> JStr ''unknown'',
     ''target'' \<mapsto> JStr target, ''retrySafe'' \<mapsto> JBool False, ''operationIdAvailable'' \<mapsto> JBool False,
     ''reconcileWith'' \<mapsto> JStr tool, ''operatorVerificationRequired'' \<mapsto> JBool True)"
  by (simp add: jset_all_def reconciliation_def map_of_jset)

definition from_handler :: "mcp_error \<Rightarrow> bool" where
  "from_handler e \<longleftrightarrow> err_data e = None \<or>
     (\<exists>up. err_data e = Some (JObj [(''upstream'', JObj up)]) \<and> readable_upstream up)"

lemma from_handler_presentable: "from_handler e \<Longrightarrow> presentable e"
  using readable_data [of "[(''upstream'', JObj up)]" up for up]
  by (auto simp: from_handler_def presentable_def carries_file_def)

lemma presentable_reconciled:
  assumes "from_handler e"
  shows "presentable (e\<lparr>err_message := m,
    err_data := Some (JObj (jset_all (reconciliation target tool) (data_fields (err_data e))))\<rparr>)"
proof (cases "err_data e")
  case None
  then show ?thesis
    by (simp add: presentable_def carries_file_def jget_def map_of_reconciliation data_fields_def)
next
  case (Some d)
  with assms obtain up where up: "d = JObj [(''upstream'', JObj up)]" "readable_upstream up"
    by (auto simp: from_handler_def)
  with Some readable_data [of "jset_all (reconciliation target tool) [(''upstream'', JObj up)]" up]
  show ?thesis by (auto simp: presentable_def map_of_reconciliation data_fields_def)
qed

section \<open>The tools\<close>

lemma safe_plain [safe_intros]: "plain r \<Longrightarrow> safe t F anything presentable (lift r)"
  by (rule safe_lift) (auto intro: plain_presentable)

lemma safe_structured [safe_intros]: "safe t F anything E (structured out)"
  unfolding structured_def by (rule safe_ret)

lemma safe_admin [safe_intros]: "safe t F anything presentable (admin_client env h)"
proof (rule safeI)
  fix w
  assume w: "in_force t F w"
  have "presentable ended_error"
    by (simp add: presentable_def carries_file_def ended_error_def internal_error_def jget_def)
  moreover have "presentable (invalid_request m None)" for m
    by (rule presentable_plain) (simp add: invalid_request_def)
  ultimately show "lands (\<lambda>y w. in_force t F w \<and> True) (\<lambda>x w. in_force t F w \<and> safe_exit t presentable x)
      (admin_client env h w)"
    using w by (auto simp: admin_client_def Let_def lands_lift in_force_def ok_or_def budget_check_def
        split: option.splits sum.splits if_splits)
qed

lemma safe_map_io [safe_intros]:
  "(\<And>x. safe t F anything E (f x)) \<Longrightarrow> safe t F anything E (map_io f xs)"
  by (induction xs) (auto intro!: safe_intros)

text \<open>A handler whose file service, if it has one, is a provider of the contract.\<close>

locale tool_files = credential_files begin

definition served :: "'a handler \<Rightarrow> bool" where
  "served h \<longleftrightarrow> (case h_files h of None \<Rightarrow> True | Some (owner, service) \<Rightarrow> service = ops)"

lemma safe_publish:
  "safe t invar (\<lambda>r. case r of Inr f \<Rightarrow> (case fv_size f of None \<Rightarrow> True | Some k \<Rightarrow> k \<le> u64_max)
     | Inl e \<Rightarrow> err_data e = None) E (publish_file env owner ops name mime bytes)"
proof (rule safeI)
  fix w
  assume w: "in_force t invar w"
  obtain r s where r: "publish (\<lambda>i. now env (steps w + i)) owner name mime bytes (store w) = (r, s)"
    by fastforce
  from w have i: "invar (store w)" by (simp add: in_force_def)
  have "invar s" using publish_invar [OF i r] .
  with w r publish_size [OF i] publish_answers [OF i]
  show "lands (\<lambda>y w. in_force t invar w \<and> (case y of Inr f \<Rightarrow> (case fv_size f of None \<Rightarrow> True | Some k \<Rightarrow> k \<le> u64_max)
     | Inl e \<Rightarrow> err_data e = None)) (\<lambda>x w. in_force t invar w \<and> safe_exit t E x)
      (publish_file env owner ops name mime bytes w)"
    by (cases r) (fastforce simp: publish_file_def in_force_def)+
qed

lemma safe_take [safe_intros]: "safe t invar anything presentable (take_file env owner ops uri)"
proof (rule safeI)
  fix w
  assume w: "in_force t invar w"
  obtain r s where r: "take (\<lambda>i. now env (steps w + i)) owner uri (store w) = (r, s)"
    by fastforce
  from w have i: "invar (store w)" by (simp add: in_force_def)
  have "invar s" using take_invar [OF i r] .
  with w r take_answers [OF i] presentable_plain
  show "lands (\<lambda>y w. in_force t invar w \<and> True) (\<lambda>x w. in_force t invar w \<and> safe_exit t presentable x)
      (take_file env owner ops uri w)"
    by (cases r) (fastforce simp: take_file_def in_force_def)+
qed

lemma safe_to_mcp_error:
  assumes "served h" "status_bounded e"
  shows "safe t invar from_handler E (to_mcp_error env h e)"
proof (cases e)
  case (Upstream f)
  obtain document f' where f: "take_credential_document f = (document, f')" by fastforce
  then have "uf_status f' \<le> u16_max"
    using assms(2) Upstream by (auto simp: status_bounded_def take_credential_document_def)
  note up = readable_upstream_fields [OF this]
  have h: "from_handler (upstream_error m fs)" if "readable_upstream fs" for m fs
    using that by (simp add: from_handler_def upstream_error_def internal_error_def)
  have p: "safe t invar from_handler E (bind_io
      (publish_file env owner ops ''komodo-diagnostic.txt'' ''text/plain'' bytes)
      (\<lambda>r. ret (upstream_error m (case r of
         Inr v \<Rightarrow> jset ''diagnosticFile'' (file_value_json v) (upstream_fields f')
       | Inl _ \<Rightarrow> jset ''diagnosticFileUnavailable''
           (JStr ''native file capacity unavailable'') (upstream_fields f')))))" for m owner bytes
    by (rule safe_bindG [OF safe_publish], rule safe_retG, rule h)
      (auto intro: up split: sum.splits option.splits)
  show ?thesis
    using Upstream f assms(1) p up
    by (cases document; cases "h_files h")
      (auto simp: to_mcp_error_def Let_def served_def intro!: safe_retG h)
qed (auto simp: to_mcp_error_def Let_def from_handler_def internal_error_def intro: safe_retG)

lemma safe_failures:
  assumes "served h" "status_bounded e"
  shows "safe t invar presentable presentable (to_mcp_error env h e)"
    "safe t invar presentable presentable (mutation_error env h target tool e)"
    "safe t invar presentable presentable (operation_lookup_error env h e)"
proof -
  note mcp = safe_to_mcp_error [OF assms]
  show "safe t invar presentable presentable (to_mcp_error env h e)"
    by (rule safe_conseq [OF mcp]) (auto intro: from_handler_presentable)
  show "safe t invar presentable presentable (mutation_error env h target tool e)"
    unfolding mutation_error_def Let_def
    by (rule safe_bindG [OF mcp], rule safe_retG)
      (auto intro: from_handler_presentable presentable_reconciled)
  show "safe t invar presentable presentable (operation_lookup_error env h e)"
    unfolding operation_lookup_error_def Let_def
    by (rule safe_bindG [OF mcp], rule safe_retG)
      (auto dest: from_handler_presentable simp: presentable_def carries_file_def)
qed

lemma safe_map_api [safe_intros]:
  "served h \<Longrightarrow> safe t invar anything status_bounded m \<Longrightarrow>
     safe t invar anything presentable (map_api env h m)"
  unfolding map_api_def by (rule safe_or_else, assumption) (rule safe_failures)

lemma safe_lookup [safe_intros]:
  "served h \<Longrightarrow> safe t invar anything status_bounded m \<Longrightarrow>
     safe t invar anything presentable (or_else (operation_lookup_error env h) m)"
  by (rule safe_or_else, assumption) (rule safe_failures)

lemma safe_submit [safe_intros]:
  "served h \<Longrightarrow> (\<And>a. safe t invar anything status_bounded (request a)) \<Longrightarrow>
     safe t invar anything presentable (submit env h target tool request)"
  unfolding submit_def
  by (intro safe_bind safe_admin, rule safe_or_else, assumption) (rule safe_failures)

lemma safe_publications [safe_intros]:
  assumes "served h"
  shows "safe t invar anything E (publish_document env h doc name)"
    "safe t invar anything E (publish_optional env h d name)"
    "safe t invar anything E (project_operation env te h p item)"
    "safe t invar anything presentable (normalize_webhook_secret env secret (h_files h))"
    "safe t invar anything presentable (webhook_secret_text env h input)"
proof -
  have p: "safe t invar anything E (publish_file env owner service name mime bytes)"
    if "h_files h = Some (owner, service)" for E :: "mcp_error \<Rightarrow> bool" and owner service name mime bytes
    using that assms by (auto simp: served_def intro: safe_weaken [OF safe_publish])
  have d: "safe t invar anything E (publish_document env h doc name)" for E :: "mcp_error \<Rightarrow> bool" and doc name
    unfolding publish_document_def Let_def
    by (auto split: option.split intro!: safe_intros p)
  then have o: "safe t invar anything E (publish_optional env h d name)" for E :: "mcp_error \<Rightarrow> bool" and d name
    unfolding publish_optional_def by (auto split: option.split intro!: safe_intros)
  show "safe t invar anything E (publish_document env h doc name)"
    "safe t invar anything E (publish_optional env h d name)" by (rule d, rule o)
  show "safe t invar anything E (project_operation env te h p item)"
    unfolding project_operation_def publish_operation_def Let_def by (intro safe_intros o)
  have transport: "presentable file_transport_error"
    by (rule presentable_plain) (simp add: file_transport_error_def invalid_params_def)
  have s: "safe t invar anything presentable (bind_io (publish_file env owner ops name mime bytes)
      (\<lambda>r. bind_io (lift r) (\<lambda>file. ret (f file))))" for owner name mime bytes and f :: "file_value \<Rightarrow> 'v"
    by (rule safe_bindG [OF safe_publish], rule safe_bind [OF safe_lift safe_ret])
      (auto split: sum.splits intro: presentable_plain)
  show "safe t invar anything presentable (normalize_webhook_secret env secret (h_files h))"
    unfolding normalize_webhook_secret_def
    using assms by (auto simp: served_def split: option.splits intro!: safe_intros safe_fail transport s)
  show "safe t invar anything presentable (webhook_secret_text env h input)"
    unfolding webhook_secret_text_def
    using assms by (auto simp: served_def split: webhook_secret_input.split option.splits
        intro!: safe_intros safe_fail transport plain_intros)
qed

lemma safe_select_from [safe_intros]:
  assumes "served h" "\<And>request. safe t invar anything status_bounded (list_fn env (h_read h) request)"
  shows "safe t invar anything presentable (select_from env h list_fn sel)"
  unfolding select_from_def by (intro safe_intros plain_intros assms)

lemma safe_inventory_tool [safe_intros]:
  assumes "served h" "\<And>request. safe t invar anything status_bounded (list_fn env (h_read h) request)"
  shows "safe t invar anything presentable (search_tool env h list_fn view strip out params)"
    "safe t invar anything presentable (status_tool env h list_fn view strip out1 params)"
  unfolding search_tool_def status_tool_def by (intro safe_intros plain_intros assms)+

lemma safe_selected_detail [safe_intros]:
  "served h \<Longrightarrow> statuses_bounded env \<Longrightarrow> safe t invar anything presentable (selected_detail env h sel)"
  unfolding selected_detail_def by (intro safe_intros)

lemma safe_update_config [safe_intros]:
  "served h \<Longrightarrow> statuses_bounded env \<Longrightarrow>
     safe t invar anything presentable (update_config env h sel patch applied tool)"
  unfolding update_config_def resolve_stack_id_def by (intro safe_intros)

lemma safe_mutation_target [safe_intros]:
  "served h \<Longrightarrow> statuses_bounded env \<Longrightarrow>
     safe t invar anything presentable (mutation_target env h a sel)"
  unfolding mutation_target_def by (intro safe_intros)

lemma safe_run_tool:
  assumes "served h" "statuses_bounded env"
  shows "safe t invar anything presentable (run_tool env te h kind params)"
proof -
  note defs = system_status_def search_servers_def server_status_tool_def search_stacks_def
    stack_status_tool_def search_deployments_def deployment_status_tool_def search_builds_def
    build_status_tool_def search_repos_def repo_status_tool_def search_networks_def read_network_def
    stack_diagnostics_tool_def stack_config_read_def stack_compose_read_def
    stack_environment_read_def stack_commands_read_def stack_webhook_status_def
    stack_webhook_secret_read_def stack_logs_tail_def search_operations_def
    operation_status_tool_def operation_logs_read_def mutate_def stack_config_patch_tool_def
    stack_compose_write_def stack_environment_write_def stack_commands_write_def
    stack_file_write_def stack_webhook_update_def stack_webhook_secret_write_def
    resolve_stack_id_def
  show ?thesis
    by (cases kind; simp only: run_tool.simps defs Let_def)
      (intro safe_intros plain_intros assms)+
qed

lemma safe_dispatch:
  assumes "served h" "statuses_bounded env"
  shows "safe t invar anything presentable (dispatch env te h params)"
proof -
  have "presentable method_not_found"
    by (rule presentable_plain) (simp add: method_not_found_def)
  then show ?thesis
    unfolding dispatch_def
    by (auto split: option.split intro!: safe_bind safe_run_tool safe_ret safe_fail assms)
qed

text \<open>A call answers or fails, and its failures never carry a credential file.\<close>

lemma finish_call_answers:
  assumes l: "lands (\<lambda>y w. in_force None invar w \<and> True)
      (\<lambda>x w. in_force None invar w \<and> safe_exit None presentable x) (r, w)"
    and finish: "finish_call (r, w) = (q, w')"
  shows "timeout_at w' = None \<and> invar (store w') \<and>
    (case q of Inr _ \<Rightarrow> True | Inl x \<Rightarrow> \<exists>e. x = Fail e \<and> \<not> carries_file e)"
proof -
  have "w' = w" using finish by (metis finish_call_snd snd_conv)
  moreover have "in_force None invar w" using l by (cases r) simp_all
  moreover have "\<not> carries_file ended_error"
    by (simp add: carries_file_def ended_error_def internal_error_def jget_def)
  moreover from finish have "case q of Inr _ \<Rightarrow> True | Inl x \<Rightarrow> \<exists>e. x = Fail e \<and> \<not> carries_file e"
    by (cases rule: finish_call_cases) (use l \<open>\<not> carries_file ended_error\<close> in \<open>auto simp: presentable_def\<close>)
  ultimately show ?thesis by (simp add: in_force_def)
qed

lemma call_tool_answers:
  assumes "served h" "statuses_bounded env" "timeout_at w = None" "invar (store w)"
    and call: "call_tool env te h ct params w = (r, w')"
  shows "timeout_at w' = None \<and> invar (store w') \<and>
    (case r of Inr _ \<Rightarrow> True | Inl x \<Rightarrow> \<exists>e. x = Fail e \<and> \<not> carries_file e)"
proof (cases rule: call_tool_cases [of env te h ct params w])
  case (refused v)
  with assms(3,4) call show ?thesis
    by (auto simp: carries_file_def ended_error_def internal_error_def jget_def)
next
  case (run w1 r1 v)
  have "served (invocation h ct)" "statuses_bounded (call_env env h ct)"
    using assms(1,2) by (simp_all add: served_def statuses_bounded_def call_env_def)
  moreover have "in_force None invar w1" using run(2,5) assms(3,4) by (simp add: in_force_def)
  ultimately have "lands (\<lambda>y w. in_force None invar w \<and> True)
      (\<lambda>x w. in_force None invar w \<and> safe_exit None presentable x) (r1, v)"
    using safeD [OF safe_dispatch] run(8) by metis
  then show ?thesis using run(9) call by (intro finish_call_answers) simp_all
qed

end

end
