(* ===== verification/Mcp_Submissions.thy ===== *)
theory Mcp_Submissions
  imports Mcp_Calls
begin

text \<open>
  What the mutation of a call is: \<open>requests\<close> states it per tool, and the lemmas follow the
  selector from the arguments through the listing of Core (\<open>gives\<close>: what a computation
  returns) to the request that is sent (\<open>sends_only\<close>: what it sends besides reads).
\<close>

section \<open>The request a mutation sends\<close>

text \<open>The selector argument of a call.\<close>

definition selector_argument :: "call_params \<Rightarrow> string option" where
  "selector_argument params =
     Option.bind (cp_arguments params) (\<lambda>fs. Option.bind (map_of fs ''selector'') as_str)"

text \<open>
  \<open>target\<close> is the id of a resource in a listing Core answered, and the selector is this id or
  the resource's name.
\<close>

definition listed ::
  "(string \<Rightarrow> 'i resource_list_item list option) \<Rightarrow> string \<Rightarrow> string \<Rightarrow> bool" where
  "listed dec selector target \<longleftrightarrow> (\<exists>bytes items item. dec bytes = Some items \<and> item \<in> set items \<and>
     ri_id item = target \<and> (target = selector \<or> eq_ignore_ascii_case (ri_name item) selector))"

definition action_listed :: "env \<Rightarrow> action \<Rightarrow> string \<Rightarrow> string \<Rightarrow> bool" where
  "action_listed env a selector target =
     (if a \<in> {DeployStack, RestartStack, StopStack} then listed (dec_stacks env) selector target
      else if a \<in> {DeployDeployment, RestartDeployment} then listed (dec_deployments env) selector target
      else if a \<in> {RunBuild, CancelBuild} then listed (dec_builds env) selector target
      else listed (dec_repos env) selector target)"

definition executes :: "env \<Rightarrow> action \<Rightarrow> string \<Rightarrow> http_request \<Rightarrow> bool" where
  "executes env a selector rq \<longleftrightarrow> (\<exists>target. action_listed env a selector target \<and>
     rq_family rq = ''execute'' \<and> rq_variant rq = action_variant a \<and>
     rq_params rq = execute_params a target)"

definition updates :: "env \<Rightarrow> string list \<Rightarrow> string \<Rightarrow> http_request \<Rightarrow> bool" where
  "updates env keys selector rq \<longleftrightarrow> (\<exists>target patch. listed (dec_stacks env) selector target \<and>
     rq_family rq = ''write'' \<and> rq_variant rq = ''UpdateStack'' \<and>
     rq_params rq = JObj [(''id'', JStr target), (''config'', JObj (patch_fields patch))] \<and>
     patch_fields patch \<noteq> [] \<and> fst ` set (patch_fields patch) \<subseteq> set keys)"

definition writes_file :: "env \<Rightarrow> string \<Rightarrow> http_request \<Rightarrow> bool" where
  "writes_file env selector rq \<longleftrightarrow> (\<exists>target path contents. listed (dec_stacks env) selector target \<and>
     rq_family rq = ''write'' \<and> rq_variant rq = ''WriteStackFileContents'' \<and>
     rq_params rq = JObj [(''stack'', JStr target), (''file_path'', JStr path), (''contents'', JStr contents)])"

text \<open>The mutation of each tool, and none for the tools that read.\<close>

fun requests :: "env \<Rightarrow> tool_kind \<Rightarrow> string \<Rightarrow> http_request \<Rightarrow> bool" where
  "requests env StacksDeploy = executes env DeployStack"
| "requests env StacksRestart = executes env RestartStack"
| "requests env StacksStop = executes env StopStack"
| "requests env DeploymentsDeploy = executes env DeployDeployment"
| "requests env DeploymentsRestart = executes env RestartDeployment"
| "requests env BuildsRun = executes env RunBuild"
| "requests env BuildsCancel = executes env CancelBuild"
| "requests env ReposPull = executes env PullRepo"
| "requests env StacksConfigPatch =
     updates env [''files_on_host'', ''run_directory'', ''file_paths'', ''env_file_path'']"
| "requests env StacksComposeWrite = updates env [''file_contents'']"
| "requests env StacksEnvironmentWrite = updates env [''environment'']"
| "requests env StacksCommandsWrite = updates env [''pre_deploy'', ''post_deploy'']"
| "requests env StacksFileWrite = writes_file env"
| "requests env StacksWebhookUpdate = updates env [''webhook_enabled'', ''webhook_force_deploy'']"
| "requests env StacksWebhookSecretWrite = updates env [''webhook_secret'']"
| "requests env _ = (\<lambda>_ _. False)"

section \<open>What a computation returns\<close>

named_theorems gives_intros \<open>what values computations return, composed\<close>

definition gives :: "('f, 'e, 'a) io \<Rightarrow> ('a \<Rightarrow> bool) \<Rightarrow> bool" where
  "gives m G \<longleftrightarrow> (\<forall>w y w'. m w = (Inr y, w') \<longrightarrow> G y)"

lemma givesI: "(\<And>w y w'. m w = (Inr y, w') \<Longrightarrow> G y) \<Longrightarrow> gives m G"
  by (simp add: gives_def)

lemma givesD: "gives m G \<Longrightarrow> m w = (Inr y, w') \<Longrightarrow> G y"
  unfolding gives_def by blast

lemma gives_anything: "gives m (\<lambda>_. True)"
  by (simp add: gives_def)

lemma gives_basic: "G x \<Longrightarrow> gives (ret x) G" "gives (fail e) G" "gives (lift r) (\<lambda>y. r = Inr y)"
  by (auto simp: gives_def)

lemma gives_bind: "gives m M \<Longrightarrow> (\<And>x. M x \<Longrightarrow> gives (f x) G) \<Longrightarrow> gives (bind_io m f) G"
  by (rule givesI) (auto simp: bind_io_Inr dest!: givesD)

lemma gives_or_else: "gives m G \<Longrightarrow> gives (or_else h m) G"
  by (rule givesI) (auto simp: or_else_def split: prod.splits sum.splits exn.splits dest: givesD)

lemma gives_post: "gives (post env c family variant params retry dec) (\<lambda>y. \<exists>bytes. dec bytes = Some y)"
proof (rule givesI)
  fix w y w'
  have once: "\<exists>bytes. dec bytes = Some y"
    if "post_once env c family variant params dec v = (Inr y, v')" for v v'
    using that by (auto simp: post_once_def Let_def rbind_Inr_iff ok_or_def
        split: option.splits http_reply.splits)
  assume "post env c family variant params retry dec w = (Inr y, w')"
  with post_cases [of env c family variant params retry dec w] once
  show "\<exists>bytes. dec bytes = Some y" by metis
qed

lemma gives_with_timeout: "gives m G \<Longrightarrow> gives (with_timeout env d e m) G"
  by (rule givesI) (auto simp: with_timeout_def Let_def split: prod.splits sum.splits exn.splits dest: givesD)

definition from_core :: "(string \<Rightarrow> 'i resource_list_item list option) \<Rightarrow> 'i resource_list_item set" where
  "from_core dec = {item. \<exists>bytes items. dec bytes = Some items \<and> item \<in> set items}"

abbreviation page_from_core ::
  "(string \<Rightarrow> 'i resource_list_item list option) \<Rightarrow> 'i inventory_page_rec \<Rightarrow> bool" where
  "page_from_core dec p \<equiv> set (ip_items p) \<subseteq> from_core dec"

lemma gives_listing:
  "gives (post env c family variant params retry dec) (\<lambda>items. set items \<subseteq> from_core dec)"
  by (rule givesI) (drule givesD [OF gives_post], auto simp: from_core_def)

lemma gives_inventory_page: "gives (inventory_page env c variant dec q n) (page_from_core dec)"
  unfolding inventory_page_def
proof (rule gives_bind [OF gives_listing])
  fix items
  assume "set items \<subseteq> from_core dec"
  then show "gives (lift (check_page n items)) (page_from_core dec)"
    by (intro givesI) (auto simp: check_page_def rbind_Inr_iff split: if_splits)
qed

lemma collect_exact_subset: "collect_exact sel ms items = (ms', full) \<Longrightarrow> set ms' \<subseteq> set ms \<union> set items"
proof (induction items arbitrary: ms)
  case (Cons i rest)
  show ?case
  proof (cases "eq_ignore_ascii_case (ri_name i) sel \<and> length (ms @ [i]) \<noteq> 2")
    case True
    with Cons.prems have "collect_exact sel (ms @ [i]) rest = (ms', full)" by (simp add: Let_def)
    from Cons.IH [OF this] show ?thesis by auto
  next
    case False
    with Cons.prems Cons.IH [of ms] show ?thesis by (auto simp: Let_def split: if_splits)
  qed
qed simp

lemma gives_scan_pages:
  "set matches \<subseteq> from_core dec \<Longrightarrow>
     gives (scan_pages env c variant dec sel pages matches) (page_from_core dec)"
proof (induction pages arbitrary: matches)
  case Nil
  show ?case unfolding scan_pages.simps by (rule gives_basic)
next
  case (Cons page pages)
  have "set ms \<subseteq> from_core dec"
    if "page_from_core dec response" "collect_exact sel matches (ip_items response) = (ms, full)"
    for response ms full
    using collect_exact_subset [OF that(2)] that(1) Cons.prems by blast
  note found = this
  show ?case
    unfolding scan_pages.simps
    by (rule gives_bind [OF gives_inventory_page])
      (use found Cons.IH in \<open>simp split: prod.split add: gives_basic(1)\<close>, use found Cons.IH in blast)
qed

lemma gives_inventory: "gives (inventory env c variant dec request) (page_from_core dec)"
proof -
  have legacy: "gives (bind_io (legacy_read env c variant dec) (\<lambda>items.
      lift (from_legacy items r))) (page_from_core dec)" for r
    unfolding legacy_read_def
  proof (rule gives_bind [OF gives_listing])
    fix items
    assume "set items \<subseteq> from_core dec"
    then show "gives (lift (from_legacy items r)) (page_from_core dec)"
      by (intro givesI) (auto simp: from_legacy_def split: inventory_request.splits nat.splits)
  qed
  have native: "gives (native_inventory env c variant dec r) (page_from_core dec)" for r
    unfolding native_inventory_def
    by (cases r) (auto intro: gives_inventory_page gives_scan_pages)
  have versioned: "gives (versioned_inventory env c variant dec r) (page_from_core dec)" for r
    unfolding versioned_inventory_def
    by (rule gives_bind [OF gives_anything])
      (auto intro: native legacy gives_basic split: inventory_request.split nat.split)
  have page: "gives (ret \<lparr> ip_items = items, ip_next_page = None \<rparr>) (page_from_core dec)"
    if "set items \<subseteq> from_core dec" for items
    using that by (intro gives_basic) simp
  have "gives (inventory_inner env c variant dec request) (page_from_core dec)"
    unfolding inventory_inner_def
    by (cases request; simp) (auto intro!: gives_bind [OF gives_listing] simp: versioned page gives_basic)
  then show ?thesis
    unfolding inventory_def by (cases request) (auto intro: gives_with_timeout)
qed

text \<open>A selected resource is listed and named by the selector.\<close>

lemma select_resource_listed:
  assumes "select_resource items selector = Inr item" "set items \<subseteq> from_core dec"
  shows "listed dec selector (ri_id item)"
proof -
  have "item \<in> set items \<and> (ri_id item = selector \<or> eq_ignore_ascii_case (ri_name item) selector)"
  proof (cases "find (\<lambda>i. ri_id i = selector) items")
    case (Some i)
    with assms(1) have "i = item" by (auto simp: select_resource_def rbind_Inr_iff)
    with Some show ?thesis by (auto simp: find_Some_iff)
  next
    case None
    with assms(1) have "filter (\<lambda>i. eq_ignore_ascii_case (ri_name i) selector) items = [item]"
      by (auto simp: select_resource_def rbind_Inr_iff split: list.splits)
    then have "item \<in> set (filter (\<lambda>i. eq_ignore_ascii_case (ri_name i) selector) items)" by simp
    then show ?thesis by simp
  qed
  with assms(2) show ?thesis unfolding listed_def from_core_def by blast
qed

lemma gives_select_from:
  assumes "\<And>request. gives (list_fn env (h_read h) request) (page_from_core dec)"
  shows "gives (select_from env h list_fn selector) (\<lambda>item. listed dec selector (ri_id item))"
  unfolding select_from_def map_api_def
proof (rule gives_bind [OF gives_or_else [OF assms]])
  fix page
  assume p: "page_from_core dec page"
  show "gives (lift (select_resource (ip_items page) selector)) (\<lambda>item. listed dec selector (ri_id item))"
    by (rule givesI) (use select_resource_listed [OF _ p] in simp)
qed

lemma gives_inventories:
  "gives (stacks_inventory env c request) (page_from_core (dec_stacks env))"
  "gives (deployments_inventory env c request) (page_from_core (dec_deployments env))"
  "gives (builds_inventory env c request) (page_from_core (dec_builds env))"
  "gives (repos_inventory env c request) (page_from_core (dec_repos env))"
  unfolding stacks_inventory_def deployments_inventory_def builds_inventory_def repos_inventory_def
  by (rule gives_inventory)+

lemma gives_selected_id:
  assumes "\<And>request. gives (list_fn env (h_read h) request) (page_from_core dec)"
  shows "gives (bind_io (select_from env h list_fn selector) (\<lambda>item. ret (ri_id item)))
     (listed dec selector)"
  by (rule gives_bind, rule gives_select_from, rule assms, rule gives_basic)

lemma gives_mutation_target: "gives (mutation_target env h a selector) (action_listed env a selector)"
proof -
  have "gives (bind_io (select_from env h stacks_inventory selector) (\<lambda>item. ret (ri_id item)))
      (listed (dec_stacks env) selector)"
    "gives (bind_io (select_from env h deployments_inventory selector) (\<lambda>item. ret (ri_id item)))
      (listed (dec_deployments env) selector)"
    "gives (bind_io (select_from env h builds_inventory selector) (\<lambda>item. ret (ri_id item)))
      (listed (dec_builds env) selector)"
    "gives (bind_io (select_from env h repos_inventory selector) (\<lambda>item. ret (ri_id item)))
      (listed (dec_repos env) selector)"
    by (rule gives_selected_id, rule gives_inventories)+
  then show ?thesis
    unfolding mutation_target_def by (cases a) (simp_all add: action_listed_def [abs_def])
qed

lemma gives_resolve: "gives (resolve_stack_id env h selector) (listed (dec_stacks env) selector)"
  unfolding resolve_stack_id_def by (rule gives_selected_id, rule gives_inventories)

section \<open>What a computation sends besides reads\<close>

definition sends_only :: "(http_request \<Rightarrow> bool) \<Rightarrow> ('f, 'e, 'a) io \<Rightarrow> bool" where
  "sends_only P m \<longleftrightarrow> (\<forall>w. \<exists>rs. sent (snd (m w)) = sent w @ rs \<and>
     (\<forall>r \<in> set rs. rq_family r \<noteq> ''read'' \<longrightarrow> P r))"

lemma sends_onlyI:
  "(\<And>w. \<exists>rs. sent (snd (m w)) = sent w @ rs \<and> (\<forall>r \<in> set rs. rq_family r \<noteq> ''read'' \<longrightarrow> P r)) \<Longrightarrow>
     sends_only P m"
  by (simp add: sends_only_def)

lemma sends_onlyD:
  "sends_only P m \<Longrightarrow> m w = (r, w') \<Longrightarrow>
     \<exists>rs. sent w' = sent w @ rs \<and> (\<forall>r \<in> set rs. rq_family r \<noteq> ''read'' \<longrightarrow> P r)"
  unfolding sends_only_def by (metis snd_conv)

lemma sends_only_reads:
  assumes "reads_only c m"
  shows "sends_only P m"
proof (rule sends_onlyI)
  fix w
  obtain r w' where "m w = (r, w')" by fastforce
  with reads_onlyD [OF assms this]
  show "\<exists>rs. sent (snd (m w)) = sent w @ rs \<and> (\<forall>r \<in> set rs. rq_family r \<noteq> ''read'' \<longrightarrow> P r)"
    by (auto simp: read_traffic_def is_read_def list_all_iff)
qed

lemma sends_only_mute: "mute m \<Longrightarrow> sends_only P m"
  by (rule sends_only_reads, rule mute_reads_only)

lemma sends_only_bind:
  assumes m: "sends_only P m" "gives m G" and f: "\<And>x. G x \<Longrightarrow> sends_only P (f x)"
  shows "sends_only P (bind_io m f)"
proof (rule sends_onlyI)
  fix w
  let ?good = "\<lambda>v v'. \<exists>rs. sent v' = sent v @ rs \<and> (\<forall>r \<in> set rs. rq_family r \<noteq> ''read'' \<longrightarrow> P r)"
  show "?good w (snd (bind_io m f w))"
  proof (cases rule: bind_io_cases [of m w f])
    case (1 e w')
    from sends_onlyD [OF m(1) 1(1)] show ?thesis unfolding 1(2) by simp
  next
    case (2 x w')
    obtain r w'' where r: "f x w' = (r, w'')" by fastforce
    obtain rs where rs: "sent w' = sent w @ rs" "\<forall>r \<in> set rs. rq_family r \<noteq> ''read'' \<longrightarrow> P r"
      using sends_onlyD [OF m(1) 2(1)] by blast
    obtain rs' where "sent w'' = sent w' @ rs'" "\<forall>r \<in> set rs'. rq_family r \<noteq> ''read'' \<longrightarrow> P r"
      using sends_onlyD [OF f [OF givesD [OF m(2) 2(1)]] r] by blast
    with rs r show ?thesis unfolding 2(2) by (auto intro!: exI [of _ "rs @ rs'"])
  qed
qed

lemma sends_only_or_else:
  assumes m: "sends_only P m" and h: "\<And>e. mute (h e)"
  shows "sends_only P (or_else h m)"
proof (rule sends_onlyI)
  fix w
  show "\<exists>rs. sent (snd (or_else h m w)) = sent w @ rs \<and> (\<forall>r \<in> set rs. rq_family r \<noteq> ''read'' \<longrightarrow> P r)"
  proof (cases rule: or_else_cases [of m w h])
    case (1 r w')
    from sends_onlyD [OF m 1(1)] show ?thesis unfolding 1(2) .
  next
    case (2 e w')
    have "sent (snd (h e w')) = sent w'" using h by (simp add: mute_def no_traffic_def)
    with sends_onlyD [OF m 2(1)] show ?thesis unfolding 2(2) by simp
  qed
qed

lemma sends_only_post:
  assumes "\<And>r. rq_family r = family \<Longrightarrow> rq_variant r = variant \<Longrightarrow> rq_params r = params \<Longrightarrow> P r"
  shows "sends_only P (post env c family variant params retry dec)"
proof (rule sends_onlyI)
  fix w :: "'f world"
  obtain n where "sent (snd (post env c family variant params retry dec w)) = sent w @
       (case url_join env (cl_base_url c) family of None \<Rightarrow> []
        | Some endpoint \<Rightarrow> replicate n (make_request c endpoint family variant params))"
    using post_sent by blast
  then show "\<exists>rs. sent (snd (post env c family variant params retry dec w)) = sent w @ rs \<and>
      (\<forall>r \<in> set rs. rq_family r \<noteq> ''read'' \<longrightarrow> P r)"
    using assms by (auto simp: make_request_def split: option.splits)
qed

lemma sends_only_submit:
  "(\<And>a. sends_only P (request a)) \<Longrightarrow> sends_only P (submit env h target tool request)"
  unfolding submit_def
  by (rule sends_only_bind [OF sends_only_mute [OF mute_admin_client] gives_anything],
      rule sends_only_or_else) (simp, rule mute_mutation_error)

section \<open>The mutation of each tool\<close>

lemma parsed_selector:
  "parse de_selector_input params = Inr i1 \<Longrightarrow> selector_argument params = Some (sel_selector i1)"
  "parse de_config_patch_input params = Inr i2 \<Longrightarrow> selector_argument params = Some (cpi_selector i2)"
  "parse de_compose_write_input params = Inr i3 \<Longrightarrow> selector_argument params = Some (cwi_selector i3)"
  "parse de_environment_write_input params = Inr i4 \<Longrightarrow> selector_argument params = Some (ewi_selector i4)"
  "parse de_commands_write_input params = Inr i5 \<Longrightarrow> selector_argument params = Some (cmw_selector i5)"
  "parse de_file_write_input params = Inr i6 \<Longrightarrow> selector_argument params = Some (fwi_selector i6)"
  "parse de_webhook_update_input params = Inr i7 \<Longrightarrow> selector_argument params = Some (wu_selector i7)"
  "parse (de_webhook_secret_write_input d) params = Inr i8 \<Longrightarrow>
     selector_argument params = Some (wsw_selector i8)"
  unfolding de_selector_input_def de_config_patch_input_def de_compose_write_input_def
    de_environment_write_input_def de_commands_write_input_def de_file_write_input_def
    de_webhook_update_input_def de_webhook_secret_write_input_def
  by (auto simp: parse_def selector_argument_def as_struct_def ok_or_def bind_eq_Some_conv field_req_def
      de_str_def split: option.splits if_splits)

lemma patch_keys:
  "patch_fields (default_patch\<lparr>p_file_contents := a\<rparr>) = opt_field ''file_contents'' JStr a"
  "patch_fields (default_patch\<lparr>p_environment := b\<rparr>) = opt_field ''environment'' JStr b"
  "patch_fields (default_patch\<lparr>p_pre_deploy := c, p_post_deploy := d\<rparr>) =
     opt_field ''pre_deploy'' command_json c @ opt_field ''post_deploy'' command_json d"
  "patch_fields (default_patch\<lparr>p_webhook_enabled := e, p_webhook_force_deploy := f\<rparr>) =
     opt_field ''webhook_enabled'' JBool e @ opt_field ''webhook_force_deploy'' JBool f"
  "patch_fields (default_patch\<lparr>p_webhook_secret := g\<rparr>) = opt_field ''webhook_secret'' JStr g"
  "patch_fields (default_patch\<lparr>p_files_on_host := i, p_run_directory := j, p_file_paths := k,
     p_env_file_path := l\<rparr>) = opt_field ''files_on_host'' JBool i @
     opt_field ''run_directory'' JStr j @ opt_field ''file_paths'' (\<lambda>ps. JArr (map JStr ps)) k @
     opt_field ''env_file_path'' JStr l"
  by (simp_all add: patch_fields_def default_patch_def opt_field_def)

lemma opt_field_cases: "opt_field k f x = (case x of None \<Rightarrow> [] | Some v \<Rightarrow> [(k, f v)])"
  by (simp add: opt_field_def)

lemma sends_only_structured: "sends_only P (structured out)"
  by (rule sends_only_mute, rule mute_structured)

lemma sends_only_lift: "sends_only P (lift r)"
  by (rule sends_only_mute, rule mute_basic)

text \<open>A validation, with what it establishes.\<close>

lemma sends_only_check:
  "(\<And>x. r = Inr x \<Longrightarrow> sends_only P (f x)) \<Longrightarrow> sends_only P (bind_io (lift r) f)"
  by (rule sends_only_bind [OF sends_only_lift gives_basic(3)])

lemma sends_only_update:
  assumes "patch_fields patch \<noteq> []" "fst ` set (patch_fields patch) \<subseteq> set keys"
  shows "sends_only (updates env keys selector) (update_config env h selector patch applied tool)"
  unfolding update_config_def
proof (rule sends_only_bind [OF sends_only_reads [OF reads_only_resolve] gives_resolve])
  fix target
  assume t: "listed (dec_stacks env) selector target"
  have "sends_only (updates env keys selector) (api_update_stack env a target patch)" for a
    unfolding api_update_stack_def
    by (rule sends_only_post) (use t assms in \<open>auto simp: updates_def\<close>)
  then show "sends_only (updates env keys selector) (bind_io (submit env h target tool
      (\<lambda>admin. api_update_stack env admin target patch)) (\<lambda>_. structured
        (ConfigWriteOutput \<lparr>cwr_target = target, cwr_applied = applied\<rparr>)))"
    by (intro sends_only_bind [OF sends_only_submit gives_anything] sends_only_structured)
qed

lemma sends_only_mutate:
  "sends_only (\<lambda>r. \<exists>selector. selector_argument params = Some selector \<and> executes env a selector r)
     (mutate env h a params)"
  unfolding mutate_def
proof (intro sends_only_check sends_only_bind [OF sends_only_reads [OF reads_only_mutation_target]
      gives_mutation_target] sends_only_bind [OF sends_only_submit gives_anything] sends_only_structured)
  fix input u target admin
  assume "parse de_selector_input params = Inr input" "action_listed env a (sel_selector input) target"
  then show "sends_only (\<lambda>r. \<exists>selector. selector_argument params = Some selector \<and> executes env a selector r)
      (api_execute env admin a target)"
    unfolding api_execute_def
    by (intro sends_only_post) (auto simp: parsed_selector executes_def)
qed

abbreviation argument_updates :: "env \<Rightarrow> string list \<Rightarrow> call_params \<Rightarrow> http_request \<Rightarrow> bool" where
  "argument_updates env keys params r \<equiv>
     \<exists>selector. selector_argument params = Some selector \<and> updates env keys selector r"

lemma sends_only_mono: "sends_only P m \<Longrightarrow> (\<And>r. P r \<Longrightarrow> Q r) \<Longrightarrow> sends_only Q m"
  unfolding sends_only_def by meson

lemma sends_only_argument_update:
  assumes "selector_argument params = Some selector" "patch_fields patch \<noteq> []"
    "fst ` set (patch_fields patch) \<subseteq> set keys"
  shows "sends_only (argument_updates env keys params) (update_config env h selector patch applied tool)"
  by (rule sends_only_mono [OF sends_only_update [OF assms(2,3)]]) (use assms(1) in blast)

lemma config_patch_keys:
  assumes "config_patch input = Inr (patch, applied)"
  shows "patch_fields patch \<noteq> []"
    "fst ` set (patch_fields patch) \<subseteq>
       set [''files_on_host'', ''run_directory'', ''file_paths'', ''env_file_path'']"
  using assms
  by (auto simp: config_patch_def rbind_Inr_iff Let_def applied_if_def patch_keys opt_field_cases
      split: option.splits if_splits)

lemma sends_only_config_patch:
  "sends_only (argument_updates env [''files_on_host'', ''run_directory'', ''file_paths'', ''env_file_path''] params)
     (stack_config_patch_tool env h params)"
  unfolding stack_config_patch_tool_def
  by (intro sends_only_check, split prod.split, intro allI impI sends_only_argument_update)
    (simp_all only: parsed_selector config_patch_keys not_False_eq_True)

lemma sends_only_writes:
  "sends_only (argument_updates env [''file_contents''] params) (stack_compose_write env h params)"
  "sends_only (argument_updates env [''environment''] params) (stack_environment_write env h params)"
  "sends_only (argument_updates env [''pre_deploy'', ''post_deploy''] params) (stack_commands_write env h params)"
  "sends_only (argument_updates env [''webhook_enabled'', ''webhook_force_deploy''] params)
     (stack_webhook_update env h params)"
  unfolding stack_compose_write_def stack_environment_write_def stack_commands_write_def
    stack_webhook_update_def Let_def
  by (intro sends_only_check sends_only_argument_update;
      auto simp: parsed_selector patch_keys opt_field_cases applied_if_def ensure_def
        split: option.splits if_splits)+

lemma sends_only_secret_write:
  "sends_only (argument_updates env [''webhook_secret''] params) (stack_webhook_secret_write env te h params)"
  unfolding stack_webhook_secret_write_def
  by (intro sends_only_check sends_only_bind [OF sends_only_mute [OF mute_admin_client] gives_anything]
      sends_only_bind [OF sends_only_reads [OF reads_only_webhook_text] gives_anything]
      sends_only_argument_update)
    (auto simp: parsed_selector patch_keys opt_field_cases)

lemma sends_only_file_write:
  "sends_only (\<lambda>r. \<exists>selector. selector_argument params = Some selector \<and> writes_file env selector r)
     (stack_file_write env h params)"
  unfolding stack_file_write_def
proof (intro sends_only_check sends_only_bind [OF sends_only_reads [OF reads_only_resolve] gives_resolve]
    sends_only_bind [OF sends_only_submit gives_anything] sends_only_structured)
  fix input u u1 u2 target admin
  assume "parse de_file_write_input params = Inr input" "listed (dec_stacks env) (fwi_selector input) target"
  then show "sends_only (\<lambda>r. \<exists>selector. selector_argument params = Some selector \<and> writes_file env selector r)
      (api_write_stack_file env admin target (fwi_file_path input) (fwi_contents input))"
    unfolding api_write_stack_file_def
    by (intro sends_only_post) (auto simp: parsed_selector writes_file_def)
qed

lemma sends_only_run_tool:
  "sends_only (\<lambda>r. \<exists>selector. selector_argument params = Some selector \<and> requests env kind selector r)
     (run_tool env te h kind params)"
  by (cases kind)
    (simp_all add: sends_only_mutate sends_only_config_patch sends_only_writes sends_only_secret_write
      sends_only_file_write reads_only_tools [THEN sends_only_reads]
      reads_only_inventory_tools [THEN sends_only_reads])

lemma requests_call_env [simp]: "requests (call_env env h ct) kind = requests env kind"
  by (cases kind) (simp_all add: call_env_def executes_def [abs_def] updates_def [abs_def]
      writes_file_def [abs_def] action_listed_def)

text \<open>
  C2: Whatever a call sends besides reads is the mutation of its tool: the action or the
  write the tool names, addressed to the id of a resource in a listing of Core whose id or
  name the selector argument is, and a configuration write sets at least one field and only
  the fields of its tool.
\<close>

theorem mutations_hit_the_selected_resource:
  assumes "call_tool env te h ct params w = (r, w')"
    and "rq \<in> set (drop (length (sent w)) (sent w'))" and "rq_family rq \<noteq> ''read''"
  shows "\<exists>spec selector. find_spec (h_admin h \<noteq> None) (h_profile h) (cp_name params) = Some spec \<and>
    selector_argument params = Some selector \<and> requests env (spec_kind spec) selector rq"
proof (cases rule: call_tool_cases [of env te h ct params w])
  case (refused v)
  with assms(1,2) show ?thesis by simp
next
  case (run w1 r1 v)
  then have v: "v = w'" using assms(1) by (metis finish_call_snd snd_conv)
  show ?thesis
  proof (cases "find_spec (h_admin h \<noteq> None) (h_profile h) (cp_name params)")
    case None
    with run(8) have "v = w1" by (simp add: dispatch_def del: not_None_eq)
    with v run(1) assms(2) show ?thesis by simp
  next
    case (Some spec)
    have "sends_only (\<lambda>r. \<exists>selector. selector_argument params = Some selector \<and>
        requests env (spec_kind spec) selector r) (dispatch (call_env env h ct) te (invocation h ct) params)"
      using Some sends_only_run_tool [of params "call_env env h ct" "spec_kind spec" te "invocation h ct"]
        sends_only_bind [OF _ gives_anything sends_only_mute [OF mute_basic(1)]]
      by (simp add: dispatch_def del: not_None_eq)
    from sends_onlyD [OF this run(8)] obtain rs where "sent v = sent w1 @ rs"
      "\<forall>r \<in> set rs. rq_family r \<noteq> ''read'' \<longrightarrow> (\<exists>selector. selector_argument params = Some selector \<and>
        requests env (spec_kind spec) selector r)" by blast
    with Some v run(1) assms(2,3) show ?thesis by simp
  qed
qed

theorem mutations_hit_the_selected_resource_witness:
  "\<exists>spec selector. find_spec (h_admin sample_handler \<noteq> None) (h_profile sample_handler)
      (cp_name (sample_call ''stacks.deploy'')) = Some spec \<and>
    selector_argument (sample_call ''stacks.deploy'') = Some selector \<and>
    requests sample_core (spec_kind spec) selector (make_request sample_client
      (sample_url\<lparr>url_path := ''/execute''\<rparr>) ''execute'' ''DeployStack'' (execute_params DeployStack ''s1''))"
  (is "\<exists>spec selector. _ \<and> _ \<and> requests _ _ _ ?rq")
proof (rule mutations_hit_the_selected_resource)
  let ?run = "call_tool sample_core sample_tools sample_handler (\<lambda>_. False)
      (sample_call ''stacks.deploy'') (initial_world ())"
  show "?run = (fst ?run, snd ?run)" by simp
  have "last (sent (snd ?run)) = ?rq \<and> sent (snd ?run) \<noteq> []" by code_simp
  then show "?rq \<in> set (drop (length (sent (initial_world ()))) (sent (snd ?run)))"
    by (metis drop0 initial_world_def last_in_set list.size(3) world.select_convs(1))
  show "rq_family ?rq \<noteq> ''read''" by (simp add: make_request_def)
qed

end
