(* ===== verification/Mcp_Outcomes.thy ===== *)
theory Mcp_Outcomes
  imports Mcp_Safety Mcp_Submissions
begin

text \<open>
  What the caller of a tool is told when a mutation was sent and the call failed: that the
  outcome is unknown and a retry unsafe, or that Core refused the request. \<open>discloses\<close> is the
  triple of the computations with this property; it composes like the code does.
\<close>

section \<open>Errors that tell the outcome\<close>

definition unknown_outcome :: "json \<Rightarrow> bool" where
  "unknown_outcome d \<longleftrightarrow> jget ''outcome'' d = Some (JStr ''unknown'') \<and>
     jget ''retrySafe'' d = Some (JBool False)"

definition core_refused :: "json \<Rightarrow> bool" where
  "core_refused d \<longleftrightarrow> (\<exists>up status. jget ''upstream'' d = Some up \<and>
     jget ''httpStatus'' up = Some (JInt status) \<and> status \<in> {401, 403, 404})"

definition tells :: "mcp_error \<Rightarrow> bool" where
  "tells e \<longleftrightarrow> (\<exists>d. err_data e = Some d \<and> (unknown_outcome d \<or> core_refused d))"

text \<open>The same of the data of an error that was turned into an answer.\<close>

definition data_tells :: "credential_failure_data \<Rightarrow> bool" where
  "data_tells data \<longleftrightarrow> cfd_outcome data = Some ''unknown'' \<and> cfd_retry_safe data = Some False \<or>
     ud_http_status (cfd_upstream data) \<in> {401, 403, 404}"

lemma ended_error_tells: "tells ended_error"
  by (simp add: tells_def ended_error_def internal_error_def unknown_outcome_def jget_def)

text \<open>Reading the data back keeps what it tells.\<close>

lemma de_upstream_status:
  assumes "de_upstream_diagnostic j = Some ud" "jget ''httpStatus'' j = Some (JInt status)"
  shows "int (ud_http_status ud) = status"
proof -
  obtain fs where fs: "j = JObj fs"
    using assms(2) by (cases j) (simp_all add: jget_def)
  with assms(1) obtain n where "field_req (de_uint u16_max) ''httpStatus'' fs = Some n" "ud_http_status ud = n"
    by (auto simp: de_upstream_diagnostic_def open_struct_def bind_eq_Some_conv)
  with assms(2) fs show ?thesis
    by (auto simp: field_req_def jget_def de_uint_def split: if_splits)
qed

lemma de_tells:
  assumes "de_credential_failure_data d = Some data" "unknown_outcome d \<or> core_refused d"
  shows "data_tells data"
proof -
  obtain fs where fs: "d = JObj fs"
    using assms(2) by (cases d) (simp_all add: unknown_outcome_def core_refused_def jget_def)
  from assms(1) obtain up oc rs where d: "field_req de_upstream_diagnostic ''upstream'' fs = Some up"
    "field_opt de_str ''outcome'' fs = Some oc" "field_opt de_bool ''retrySafe'' fs = Some rs"
    "cfd_upstream data = up" "cfd_outcome data = oc" "cfd_retry_safe data = rs"
    by (auto simp: fs de_credential_failure_data_def open_struct_def bind_eq_Some_conv)
  from assms(2) show ?thesis
  proof
    assume "unknown_outcome d"
    with d fs show ?thesis
      by (auto simp: unknown_outcome_def data_tells_def jget_def field_opt_def field_def_def
          de_option_def de_str_def as_str_def de_bool_def as_bool_def)
  next
    assume "core_refused d"
    then obtain j status where "map_of fs ''upstream'' = Some j" "jget ''httpStatus'' j = Some (JInt status)"
      "status \<in> {401, 403, 404}" by (auto simp: core_refused_def fs jget_def)
    with d de_upstream_status [of j up status] show ?thesis
      by (auto simp: field_req_def data_tells_def)
  qed
qed

section \<open>Failures of the submission\<close>

text \<open>What a failed mutation was answered with, when it was sent.\<close>

definition refused_or_unknown :: "api_error \<Rightarrow> bool" where
  "refused_or_unknown e \<longleftrightarrow> mutation_outcome_unknown e \<or>
     (\<exists>f. e = Upstream f \<and> uf_status f \<in> {401, 403, 404})"

definition only_reads :: "http_request list \<Rightarrow> 'f world \<Rightarrow> bool" where
  "only_reads s0 w \<longleftrightarrow> (\<exists>rs. sent w = s0 @ rs \<and> list_all (\<lambda>r. rq_family r = ''read'') rs)"

lemma only_reads_sent: "sent w' = sent w \<Longrightarrow> only_reads s0 w' = only_reads s0 w"
  by (simp add: only_reads_def)

lemma reads_keep:
  assumes "reads_only c m" "only_reads s0 w" "m w = (r, w')"
  shows "only_reads s0 w'"
proof -
  obtain rs where "sent w' = sent w @ rs" "list_all (is_read c) rs"
    using reads_onlyD [OF assms(1,3)] by (auto simp: read_traffic_def)
  moreover obtain rs0 where "sent w = s0 @ rs0" "list_all (\<lambda>r. rq_family r = ''read'') rs0"
    using assms(2) by (auto simp: only_reads_def)
  ultimately show ?thesis
    unfolding only_reads_def
    by (intro exI [of _ "rs0 @ rs"]) (auto simp: list_all_iff is_read_def)
qed

lemma triple_reads:
  fixes m :: "('f, 'e, 'a) io"
  assumes "reads_only c m"
  shows "triple (only_reads s0) m (\<lambda>_. only_reads s0) (\<lambda>_. only_reads s0)"
proof (rule tripleI)
  fix w :: "'f world"
  assume w: "only_reads s0 w"
  obtain q w' where q: "m w = (q, w')" by fastforce
  from reads_keep [OF assms w q] q show "lands (\<lambda>_. only_reads s0) (\<lambda>_. only_reads s0) (m w)"
    by (cases q) simp_all
qed

lemma post_once_fails:
  assumes "post_once env c family variant params dec w = (Inl (Fail e), w')"
  shows "sent w' = sent w \<or> refused_or_unknown e"
proof (cases "url_join env (cl_base_url c) family")
  case None
  with assms show ?thesis by (simp add: post_once_def)
next
  case (Some endpoint)
  have r: "refused_or_unknown e"
    if "rbind (receive env cs variant params status chunks complete)
        (\<lambda>bytes. ok_or IncompatibleResponse (dec bytes)) = Inl e" for cs status chunks complete
    using that
    by (auto simp: rbind_def ok_or_def receive_def refused_or_unknown_def
        split: sum.splits option.splits if_splits)
  have "refused_or_unknown Unavailable" by (simp add: refused_or_unknown_def)
  with assms Some r show ?thesis
    by (auto simp: post_once_def Let_def lift_def interruption_def fail_def ret_def
        split: option.splits http_reply.splits sum.splits if_splits)
qed

text \<open>Up to the error, nothing but reads was sent, or the error tells the outcome.\<close>

definition disclosed :: "http_request list \<Rightarrow> mcp_error exn \<Rightarrow> 'f world \<Rightarrow> bool" where
  "disclosed s0 x w \<longleftrightarrow> (case x of Fail e \<Rightarrow> only_reads s0 w \<or> tells e | _ \<Rightarrow> True)"

definition discloses :: "('f, mcp_error, 'a) io \<Rightarrow> bool" where
  "discloses m \<longleftrightarrow> (\<forall>s0. triple (only_reads s0) m (\<lambda>_ _. True) (disclosed s0))"

lemma disclosesD: "discloses m \<Longrightarrow> triple (only_reads s0) m (\<lambda>_ _. True) (disclosed s0)"
  by (simp add: discloses_def)

definition discloses_api :: "('f, api_error, 'a) io \<Rightarrow> bool" where
  "discloses_api m \<longleftrightarrow> (\<forall>w e w'. m w = (Inl (Fail e), w') \<longrightarrow> sent w' = sent w \<or> refused_or_unknown e)"

lemma discloses_api_mutations:
  "discloses_api (api_execute env c a target)"
  "discloses_api (api_update_stack env c target patch)"
  "discloses_api (api_write_stack_file env c target file_path contents)"
proof -
  have "post env c family variant params False dec = post_once env c family variant params dec"
    for family variant params and dec :: "string \<Rightarrow> 'v option"
    by (rule ext) (use post_cases [of env c family variant params False dec] in auto)
  then show "discloses_api (api_execute env c a target)"
    "discloses_api (api_update_stack env c target patch)"
    "discloses_api (api_write_stack_file env c target file_path contents)"
    unfolding discloses_api_def api_execute_def api_update_stack_def api_write_stack_file_def
    using post_once_fails by (metis (no_types))+
qed

section \<open>What the errors of the handler tell\<close>

lemma mute_sent: "mute m \<Longrightarrow> sent (snd (m w)) = sent w"
  by (simp add: mute_def no_traffic_def)

lemma upstream_error_data: "err_data (upstream_error m fs) = Some (JObj [(''upstream'', JObj fs)])"
  by (simp add: upstream_error_def internal_error_def)

lemma to_mcp_error_status:
  assumes "to_mcp_error env h (Upstream f) w = (Inr g, w')"
  shows "\<exists>up. err_data g = Some (JObj [(''upstream'', JObj up)]) \<and>
    map_of up ''httpStatus'' = Some (JInt (int (uf_status f)))"
proof -
  obtain document f' where f: "take_credential_document f = (document, f')" by fastforce
  then have "uf_status f' = uf_status f" by (auto simp: take_credential_document_def)
  then have up: "map_of (upstream_fields f') ''httpStatus'' = Some (JInt (int (uf_status f)))"
    by (simp add: upstream_lookup)
  have published: "\<exists>v. g = upstream_error m (jset ''diagnosticFile'' v (upstream_fields f')) \<or>
      g = upstream_error m (jset ''diagnosticFileUnavailable'' v (upstream_fields f'))"
    if "bind_io (publish_file env owner ops name mime bytes) (\<lambda>r. ret (upstream_error m (case r of
         Inr v \<Rightarrow> jset ''diagnosticFile'' (file_value_json v) (upstream_fields f')
       | Inl _ \<Rightarrow> jset ''diagnosticFileUnavailable'' (JStr why) (upstream_fields f')))) w = (Inr g, w')"
    for owner ops name mime bytes m why
    using that unfolding bind_io_Inr
    by (elim exE conjE) (rename_tac r v, case_tac r; auto)
  from assms f up show ?thesis
    by (cases document; cases "h_files h")
      (auto simp: to_mcp_error_def Let_def upstream_error_data map_of_jset dest!: published)
qed

lemma mutation_error_tells:
  assumes "refused_or_unknown e" "mutation_error env h target tool e w = (Inr g, w')"
  shows "tells g"
proof -
  obtain q v where q: "to_mcp_error env h e w = (Inr q, v)" and g: "g =
      (if mutation_outcome_unknown e then q\<lparr>
         err_message := ''Komodo mutation outcome is unknown; reconcile before any new write'',
         err_data := Some (JObj (jset_all (reconciliation target tool) (data_fields (err_data q))))\<rparr>
       else q)"
    using assms(2) by (auto simp: mutation_error_def Let_def bind_io_Inr ret_def)
  show ?thesis
  proof (cases "mutation_outcome_unknown e")
    case True
    then show ?thesis
      by (simp add: g tells_def unknown_outcome_def jget_def map_of_reconciliation)
  next
    case False
    with assms(1) obtain f where f: "e = Upstream f" "uf_status f \<in> {401, 403, 404}"
      by (auto simp: refused_or_unknown_def)
    from to_mcp_error_status [OF q [unfolded f(1)]] f(2) False show ?thesis
      by (auto simp: g tells_def core_refused_def jget_def)
  qed
qed

lemma discloses_reads: "reads_only c m \<Longrightarrow> discloses m"
  unfolding discloses_def
  by (intro allI triple_conseq [OF triple_reads]) (auto simp: disclosed_def split: exn.splits)

lemma discloses_bind:
  assumes "reads_only c m" "\<And>x. discloses (f x)"
  shows "discloses (bind_io m f)"
  unfolding discloses_def
proof (intro allI triple_bind)
  fix s0
  show "triple (only_reads s0) m (\<lambda>_. only_reads s0) (disclosed s0)"
    by (rule triple_conseq [OF triple_reads [OF assms(1)]]) (auto simp: disclosed_def split: exn.splits)
  show "triple (only_reads s0) (f x) (\<lambda>_ _. True) (disclosed s0)" for x
    using assms(2) by (simp add: discloses_def)
qed

lemma discloses_then: "discloses m \<Longrightarrow> discloses (bind_io m (\<lambda>x. structured (g x)))"
  unfolding discloses_def structured_def
  by (intro allI triple_bind) (auto intro: triple_ret)

lemma discloses_split:
  "(\<And>a b. x = (a, b) \<Longrightarrow> discloses (f a b)) \<Longrightarrow> discloses (case x of (a, b) \<Rightarrow> f a b)"
  by (cases x) simp

lemma discloses_submit:
  fixes request :: "client \<Rightarrow> ('f, api_error, 'a) io"
  assumes "\<And>a. discloses_api (request a)"
  shows "discloses (submit env h target tool request)"
  unfolding submit_def
proof (rule discloses_bind [OF mute_reads_only [OF mute_admin_client]])
  fix a
  show "discloses (or_else (mutation_error env h target tool) (request a))"
    unfolding discloses_def
  proof (intro allI tripleI)
    fix s0 and w :: "'f world"
    assume w: "only_reads s0 w"
    obtain r w' where r: "request a w = (r, w')" by fastforce
    show "lands (\<lambda>_ _. True) (disclosed s0) (or_else (mutation_error env h target tool) (request a) w)"
    proof (cases "\<exists>e. r = Inl (Fail e)")
      case True
      then obtain e where e: "r = Inl (Fail e)" by blast
      with assms r have d: "sent w' = sent w \<or> refused_or_unknown e"
        by (auto simp: discloses_api_def)
      obtain q v where q: "mutation_error env h target tool e w' = (q, v)" by fastforce
      have v: "sent v = sent w'" using mute_sent [OF mute_mutation_error, of env h target tool e w'] q by simp
      show ?thesis
      proof (cases q)
        case (Inr g)
        with d v mutation_error_tells [of e env h target tool w' g v] q w
        have "only_reads s0 v \<or> tells g" by (auto simp: only_reads_sent [of v w])
        with r e q Inr show ?thesis by (simp add: or_else_def disclosed_def)
      next
        case (Inl x)
        have "\<exists>y. x = Panic" using Inl q
          by (auto simp: mutation_error_def Let_def bind_io_def ret_def to_mcp_error_def publish_file_def
              split: prod.splits sum.splits option.splits api_error.splits exn.splits)
        with r e q Inl show ?thesis by (auto simp: or_else_def disclosed_def)
      qed
    next
      case False
      with r show ?thesis
        by (cases r) (auto simp: or_else_def disclosed_def split: exn.splits)
    qed
  qed
qed

lemma discloses_update_config: "discloses (update_config env h selector patch applied tool)"
  unfolding update_config_def
  by (intro discloses_bind [OF reads_only_resolve] discloses_then discloses_submit discloses_api_mutations)

lemma discloses_mutations:
  "discloses (mutate env h a params)" "discloses (stack_file_write env h params)"
  unfolding mutate_def stack_file_write_def
  by (intro discloses_bind [where c = "cl_credentials (h_read h)"] discloses_then discloses_submit
      discloses_api_mutations traffic_intros)+

lemma discloses_config_tools:
  "discloses (stack_config_patch_tool env h params)" "discloses (stack_compose_write env h params)"
  "discloses (stack_environment_write env h params)" "discloses (stack_commands_write env h params)"
  "discloses (stack_webhook_update env h params)" "discloses (stack_webhook_secret_write env te h params)"
  unfolding stack_config_patch_tool_def stack_compose_write_def stack_environment_write_def
    stack_commands_write_def stack_webhook_update_def stack_webhook_secret_write_def Let_def
  by (intro discloses_bind [where c = "cl_credentials (h_read h)"] discloses_split
      discloses_update_config traffic_intros)+

lemma discloses_run_tool: "discloses (run_tool env te h kind params)"
  by (cases kind)
    (simp_all add: discloses_mutations discloses_config_tools reads_only_tools [THEN discloses_reads]
      reads_only_inventory_tools [THEN discloses_reads])

lemma discloses_dispatch: "discloses (dispatch env te h params)"
proof (cases "find_spec (h_admin h \<noteq> None) (h_profile h) (cp_name params)")
  case None
  have "discloses (fail method_not_found)"
    by (rule discloses_reads, rule mute_reads_only, rule mute_basic)
  with None show ?thesis by (simp add: dispatch_def del: not_None_eq)
next
  case (Some spec)
  have "discloses (bind_io (run_tool env te h (spec_kind spec) params) (\<lambda>r. ret (trust_annotated r)))"
    unfolding discloses_def
    by (intro allI triple_bind [OF disclosesD [OF discloses_run_tool]]) (auto intro: triple_ret)
  with Some show ?thesis by (simp add: dispatch_def del: not_None_eq)
qed

lemmas tool_defs = system_status_def search_servers_def server_status_tool_def search_stacks_def
  stack_status_tool_def search_deployments_def deployment_status_tool_def search_builds_def
  build_status_tool_def search_repos_def repo_status_tool_def search_networks_def read_network_def
  stack_diagnostics_tool_def stack_config_read_def stack_compose_read_def
  stack_environment_read_def stack_commands_read_def stack_webhook_status_def
  stack_webhook_secret_read_def stack_logs_tail_def search_operations_def
  operation_status_tool_def operation_logs_read_def mutate_def stack_config_patch_tool_def
  stack_compose_write_def stack_environment_write_def stack_commands_write_def
  stack_file_write_def stack_webhook_update_def stack_webhook_secret_write_def
  update_config_def search_tool_def status_tool_def

lemma gives_split: "(\<And>a b. gives (f a b) G) \<Longrightarrow> gives (case x of (a, b) \<Rightarrow> f a b) G"
  by (cases x) simp

text \<open>Only a failure is an answer that is an error.\<close>

lemma gives_no_error:
  "gives (run_tool env te h kind params) (\<lambda>r. \<not> cr_is_error r)"
proof -
  have s: "gives (structured out) (\<lambda>r. \<not> cr_is_error r)" for out
    unfolding structured_def by (rule gives_basic) simp
  show ?thesis
    by (cases kind; simp only: run_tool.simps tool_defs Let_def) (intro gives_bind [OF gives_anything] s gives_split)+
qed

section \<open>Whole calls\<close>

definition result_tells :: "call_result \<Rightarrow> bool" where
  "result_tells r \<longleftrightarrow> (\<exists>code message data.
     cr_output r = CredentialFailureOutput code message data \<and> data_tells data)"

lemma finish_call_tells:
  assumes "finish_call (r1, w) = (r, w')"
    and "case r1 of Inr result \<Rightarrow> \<not> cr_is_error result | Inl (Fail e) \<Rightarrow> tells e | _ \<Rightarrow> True"
  shows "case r of Inr result \<Rightarrow> cr_is_error result \<longrightarrow> result_tells result
    | Inl (Fail e) \<Rightarrow> tells e | _ \<Rightarrow> True"
  using assms(1)
proof (cases rule: finish_call_cases)
  case (answered e d data)
  with assms(2) de_tells have "data_tells data" by (auto simp: tells_def)
  with answered show ?thesis by (auto simp: result_tells_def failure_answer_def)
qed (use assms(2) ended_error_tells in simp_all)

lemma call_tool_tells:
  assumes call: "call_tool env te h ct params w = (r, w')"
    and sent: "rq \<in> set (drop (length (sent w)) (sent w'))" "rq_family rq \<noteq> ''read''"
  shows "case r of Inr result \<Rightarrow> cr_is_error result \<longrightarrow> result_tells result
    | Inl (Fail e) \<Rightarrow> tells e | _ \<Rightarrow> True"
proof (cases rule: call_tool_cases [of env te h ct params w])
  case (refused v)
  with call sent(1) show ?thesis by simp
next
  case (run w1 r1 v)
  then have v: "v = w'" and r: "finish_call (r1, w') = (r, w')"
    using call by (metis finish_call_snd snd_conv)+
  have start: "only_reads (sent w) w1" using run(1) by (simp add: only_reads_def)
  have mutated: "\<not> only_reads (sent w) w'"
    using sent by (auto simp: only_reads_def list_all_iff)
  from tripleD [OF disclosesD [OF discloses_dispatch
      [of "call_env env h ct" te "invocation h ct" params]] start] have l: "lands (\<lambda>_ _. True) (disclosed (sent w)) (r1, w')"
    unfolding run(8) v .
  from r show ?thesis
  proof (rule finish_call_tells)
    show "case r1 of Inr result \<Rightarrow> \<not> cr_is_error result | Inl (Fail e) \<Rightarrow> tells e | _ \<Rightarrow> True"
    proof (cases r1)
      case (Inr result)
      from dispatch_Inr [OF run(8) [unfolded Inr]] obtain spec p u where
        "find_spec (h_admin h \<noteq> None) (h_profile h) (cp_name params) = Some spec"
        "run_tool (call_env env h ct) te (invocation h ct) (spec_kind spec) params w1 = (Inr p, u)"
        "result = trust_annotated p"
        by auto
      with givesD [OF gives_no_error] Inr show ?thesis by (simp add: trust_annotated_def)
    next
      case (Inl x)
      with l mutated show ?thesis by (cases x) (simp_all add: disclosed_def)
    qed
  qed
qed

end
