(* ===== verification/Server_Calls.thy ===== *)
theory Server_Calls
  imports Mcp_Outcomes Server_Transfers
begin

text \<open>
  Tool calls over the server's own file service: the facts proved of any provider of the
  contract \<open>credential_files\<close>, at the interpretation \<open>server_files\<close> of the transfer store.
\<close>

interpretation server_tools: tool_files "publish_bytes fx" take_bytes held_file_of "files_ok fx"
  for fx
  by unfold_locales

text \<open>A handler as the server builds it: without file service, or with the transfer store.\<close>

definition server_handler :: "file_env \<Rightarrow> transfer_files handler \<Rightarrow> bool" where
  "server_handler fx h \<longleftrightarrow> (case h_files h of None \<Rightarrow> True
     | Some (owner, service) \<Rightarrow> service = transfer_ops fx)"

lemma server_handler_served: "server_handler fx h \<Longrightarrow> server_tools.served fx h"
  by (auto simp: server_handler_def server_tools.served_def transfer_ops_def split: option.splits)

text \<open>Concrete values for the examples: a Core that answers every mutation with status 500.\<close>

definition failing_core :: env where
  "failing_core = sample_core\<lparr>send := (\<lambda>_ rq. if rq_family rq = ''read'' then Reply 200 [''ok''] True
     else Reply 500 [''out of disk''] True)\<rparr>"

definition sample_server_handler :: "transfer_files handler" where
  "sample_server_handler = with_credential_files ''alice''
     (transfer_ops sample_file_env)
     (handler_new (sample_client\<lparr>cl_role := ReadClient\<rparr>) sample_client)"

definition failing_call :: "(mcp_error exn + call_result) \<times> transfer_files world" where
  "failing_call = call_tool failing_core sample_tools sample_server_handler (\<lambda>_. False)
     (sample_call ''stacks.deploy'') (initial_world default_transfer_files)"

definition failing_request :: http_request where
  "failing_request = make_request sample_client (sample_url\<lparr>url_path := ''/execute''\<rparr>) ''execute''
     ''DeployStack'' (execute_params DeployStack ''s1'')"

lemma failing_setup:
  "server_handler sample_file_env sample_server_handler" "statuses_bounded failing_core"
  "timeout_at (initial_world default_transfer_files) = None"
  "files_ok sample_file_env (store (initial_world default_transfer_files))"
  by (simp_all add: server_handler_def sample_server_handler_def with_credential_files_def
      statuses_bounded_def failing_core_def initial_world_def default_files_ok u16_max_def)

lemma failing_run:
  "call_tool failing_core sample_tools sample_server_handler (\<lambda>_. False)
     (sample_call ''stacks.deploy'') (initial_world default_transfer_files) =
   (fst failing_call, snd failing_call)"
  by (simp add: failing_call_def)

lemma failing_sent:
  "failing_request \<in> set (drop (length (sent (initial_world default_transfer_files))) (sent (snd failing_call)))"
proof -
  have "last (sent (snd failing_call)) = failing_request \<and> sent (snd failing_call) \<noteq> []" by code_simp
  then show ?thesis by (metis drop0 initial_world_def last_in_set list.size(3) world.select_convs(1))
qed

text \<open>
  C7: No tool call panics, and none ends without an answer: it returns a result or an error,
  it keeps the invariant of the file store, and no error carries a credential file, so the
  data of a failure that does was read back and turned into an answer.
\<close>

theorem calls_never_panic:
  assumes "server_handler fx h" "statuses_bounded env" "timeout_at w = None" "files_ok fx (store w)"
    and "call_tool env te h ct params w = (r, w')"
  shows "files_ok fx (store w') \<and> timeout_at w' = None \<and>
    ((\<exists>result. r = Inr result) \<or> (\<exists>e. r = Inl (Fail e) \<and> carries_file e = False))"
  using server_tools.call_tool_answers [OF server_handler_served [OF assms(1)] assms(2-5)]
  by (cases r) auto

theorem calls_never_panic_witness:
  "files_ok sample_file_env (store (snd failing_call)) \<and> timeout_at (snd failing_call) = None \<and>
    ((\<exists>result. fst failing_call = Inr result) \<or>
     (\<exists>e. fst failing_call = Inl (Fail e) \<and> carries_file e = False))"
  by (rule calls_never_panic [OF failing_setup failing_run])

text \<open>
  C6: When a call sent a mutation and did not succeed, its caller is told: the error, or the
  answer it was turned into, says that the outcome is unknown and a retry is not safe, or
  that Core refused the request (status 401, 403 or 404).
\<close>

theorem failed_mutations_reported:
  assumes "server_handler fx h" "statuses_bounded env" "timeout_at w = None" "files_ok fx (store w)"
    and "call_tool env te h ct params w = (r, w')"
    and "rq \<in> set (drop (length (sent w)) (sent w'))" "rq_family rq \<noteq> ''read''"
  shows "(\<exists>result. r = Inr result \<and> cr_is_error result = False) \<or>
    (\<exists>result. r = Inr result \<and> result_tells result) \<or> (\<exists>e. r = Inl (Fail e) \<and> tells e)"
  using server_tools.call_tool_answers [OF server_handler_served [OF assms(1)] assms(2-5)]
    call_tool_tells [OF assms(5-7)]
  by (cases r) auto

theorem failed_mutations_reported_witness:
  "(\<exists>result. fst failing_call = Inr result \<and> cr_is_error result = False) \<or>
    (\<exists>result. fst failing_call = Inr result \<and> result_tells result) \<or>
    (\<exists>e. fst failing_call = Inl (Fail e) \<and> tells e)"
  by (rule failed_mutations_reported [OF failing_setup failing_run failing_sent])
    (simp add: failing_request_def make_request_def)

end
