(* ===== verification/Server_Auth.thy ===== *)
theory Server_Auth
  imports Server_Transfers Api_Client
begin

text \<open>
  Gateway authentication (\<open>crates/komodo-server/src/auth.rs\<close>): the bearer rotation set, the
  verification of the forwarded identity token, the cache of the identity service's keys with
  its refresh gate, and the middleware that admits a request only with all of them. The
  \<open>jsonwebtoken\<close> and \<open>subtle\<close> crates and the derived deserialiser of the key set are
  parameters (\<open>jwt_env\<close>); what the checks rely on is \<open>jwt_documented\<close>.
\<close>

definition mcp_server_name :: string where "mcp_server_name = ''komodo''"
definition identity_header :: string where "identity_header = ''x-mcp-identity''"
definition minimum_bearer_bytes :: nat where "minimum_bearer_bytes = 32"
definition maximum_jwks_bytes :: nat where "maximum_jwks_bytes = 64 * 1024"
definition maximum_identity_actor_bytes :: nat where "maximum_identity_actor_bytes = 256"
definition clock_skew_seconds :: int where "clock_skew_seconds = 30"
definition maximum_identity_token_age_seconds :: int where "maximum_identity_token_age_seconds = 240"
definition maximum_identity_token_lifetime_seconds :: int where
  "maximum_identity_token_lifetime_seconds = 300"
definition minimum_jwks_refresh_interval :: nat where "minimum_jwks_refresh_interval = secs 30"

datatype auth_config_error =
    InvalidBearer | DuplicateBearers | UnsafeJwksUrl | InvalidIdentitySettings | IdentityClient

section \<open>What the crates provide\<close>

datatype jwt_algorithm =
    HS256 | HS384 | HS512 | ES256 | ES384 | RS256 | RS384 | RS512 | PS256 | PS384 | PS512 | EdDSA

record jwt_header =
  jh_alg :: jwt_algorithm
  jh_kid :: "string option"

record jwt_validation =
  va_algorithm :: jwt_algorithm
  va_issuers :: "string list"
  va_audiences :: "string list"
  va_required :: "string list"
  va_leeway :: nat

record identity_claims =
  ic_sub :: string
  ic_iat :: int
  ic_exp :: int
  ic_groups :: "string list"
  ic_actor :: string

text \<open>
  \<open>'s\<close> is the key set, \<open>'k\<close> a key of it and \<open>'d\<close> a decoding key. \<open>jwt_decode\<close> reads the
  system clock itself; its last argument is what it reads, in seconds.
\<close>

record ('s, 'k, 'd) jwt_env =
  ct_eq :: "string \<Rightarrow> string \<Rightarrow> bool"
  jwt_header_of :: "string \<Rightarrow> jwt_header option"
  jwks_of :: "string \<Rightarrow> 's option"
  jwks_find :: "'s \<Rightarrow> string \<Rightarrow> 'k option"
  decoding_key :: "'k \<Rightarrow> 'd option"
  jwt_decode :: "string \<Rightarrow> 'd \<Rightarrow> jwt_validation \<Rightarrow> int \<Rightarrow> identity_claims option"

section \<open>Gateway bearers\<close>

record gateway_bearers =
  gb_current :: string
  gb_previous :: "string option"

definition validate_bearer :: "string \<Rightarrow> auth_config_error + unit" where
  "validate_bearer v =
     (if length v < minimum_bearer_bytes \<or> list_ex is_ascii_whitespace v then Inl InvalidBearer
      else Inr ())"

definition constant_time_equal :: "('s, 'k, 'd) jwt_env \<Rightarrow> string \<Rightarrow> string \<Rightarrow> bool" where
  "constant_time_equal jx left right =
     (if length left \<noteq> length right then False else ct_eq jx left right)"

definition bearers_from_protected ::
  "('s, 'k, 'd) jwt_env \<Rightarrow> string \<Rightarrow> string option \<Rightarrow> auth_config_error + gateway_bearers" where
  "bearers_from_protected jx current previous =
     rbind (validate_bearer current) (\<lambda>_.
     rbind (case previous of None \<Rightarrow> Inr ()
       | Some p \<Rightarrow> rbind (validate_bearer p) (\<lambda>_.
           if constant_time_equal jx current p then Inl DuplicateBearers else Inr ())) (\<lambda>_.
     Inr \<lparr> gb_current = current, gb_previous = previous \<rparr>))"

definition bearers_accept :: "('s, 'k, 'd) jwt_env \<Rightarrow> gateway_bearers \<Rightarrow> string \<Rightarrow> bool" where
  "bearers_accept jx b supplied =
     (let current = constant_time_equal jx supplied (gb_current b);
          previous = (case gb_previous b of None \<Rightarrow> False
            | Some v \<Rightarrow> constant_time_equal jx supplied v)
      in current \<or> previous)"

section \<open>The identity verifier\<close>

record verifier_settings =
  is_jwks_url :: url
  is_issuer :: string
  is_actor :: string
  is_request_timeout :: nat
  is_cache_ttl :: nat

definition validate_jwks_url :: "url \<Rightarrow> auth_config_error + unit" where
  "validate_jwks_url u =
     (if url_username u = [] \<and> url_password u = None \<and> url_query u = None \<and> url_fragment u = None \<and>
         (url_scheme u = ''https'' \<or> url_scheme u = ''http'' \<and> is_private_host u)
      then Inr () else Inl UnsafeJwksUrl)"

text \<open>\<open>CachedKeys\<close> and the state behind the two locks: the cache, and the time of the next fetch.\<close>

record 's cached_keys =
  ck_keys :: 's
  ck_expires_at :: nat

record 's key_cache =
  kc_cache :: "'s cached_keys option"
  kc_refresh_after :: "nat option"

definition empty_key_cache :: "'s key_cache" where
  "empty_key_cache = \<lparr> kc_cache = None, kc_refresh_after = None \<rparr>"

text \<open>\<open>IdentityVerifier::new\<close>; \<open>built\<close> says whether the HTTP client builder succeeded.\<close>

definition verifier_new ::
  "bool \<Rightarrow> verifier_settings \<Rightarrow> auth_config_error + verifier_settings \<times> 's key_cache" where
  "verifier_new built v =
     rbind (validate_jwks_url (is_jwks_url v)) (\<lambda>_.
     if trim (is_issuer v) = [] \<or> trim (is_actor v) \<noteq> is_actor v \<or> is_actor v = [] \<or>
        maximum_identity_actor_bytes < length (is_actor v) \<or> has_control (is_actor v) \<or>
        is_request_timeout v = 0 \<or> secs 30 < is_request_timeout v \<or>
        is_cache_ttl v = 0 \<or> secs 3600 < is_cache_ttl v
     then Inl InvalidIdentitySettings
     else if \<not> built then Inl IdentityClient
     else Inr (v, empty_key_cache))"

datatype identity_error = IdentityInvalid | KeyUnavailable | IdentityUnavailable

record principal =
  pr_subject :: string
  pr_groups :: "string list"

section \<open>The keys of the identity service\<close>

definition cached_key ::
  "('s, 'k, 'd) jwt_env \<Rightarrow> string \<Rightarrow> nat \<Rightarrow> 's key_cache \<Rightarrow> 'k option" where
  "cached_key jx key_id t st =
     (case kc_cache st of None \<Rightarrow> None
      | Some cache \<Rightarrow>
          if t < ck_expires_at cache then jwks_find jx (ck_keys cache) key_id else None)"

text \<open>\<open>fetch_keys\<close> on the identity service's reply.\<close>

definition fetch_keys :: "('s, 'k, 'd) jwt_env \<Rightarrow> http_reply \<Rightarrow> identity_error + 's" where
  "fetch_keys jx reply =
     (case reply of NoReply \<Rightarrow> Inl IdentityUnavailable
      | Reply status chunks complete \<Rightarrow>
          if \<not> status_is_success status then Inl IdentityUnavailable
          else (case read_body maximum_jwks_bytes [] chunks of
              None \<Rightarrow> Inl IdentityUnavailable
            | Some body \<Rightarrow> if \<not> complete then Inl IdentityUnavailable
                else ok_or IdentityUnavailable (jwks_of jx body)))"

text \<open>
  The section of \<open>key\<close> under the refresh lock, up to the fetch: \<open>Some r\<close> when it answers
  \<open>r\<close>, \<open>None\<close> when the keys are fetched. \<open>clk i\<close> is the instant of its \<open>i\<close>-th clock read.
\<close>

definition begin_refresh ::
  "('s, 'k, 'd) jwt_env \<Rightarrow> verifier_settings \<Rightarrow> string \<Rightarrow> (nat \<Rightarrow> nat) \<Rightarrow> 's key_cache
    \<Rightarrow> (identity_error + 'k) option \<times> 's key_cache" where
  "begin_refresh jx v key_id clk st =
     (case cached_key jx key_id (clk 0) st of
        Some k \<Rightarrow> (Some (Inr k), st)
      | None \<Rightarrow>
          let t = clk 1 in
          if (case kc_refresh_after st of None \<Rightarrow> False | Some after \<Rightarrow> t < after)
          then (Some (Inl KeyUnavailable), st)
          else (None, st\<lparr>kc_refresh_after := Some (t + min minimum_jwks_refresh_interval (is_cache_ttl v))\<rparr>))"

text \<open>The rest of it, once the reply is there.\<close>

definition finish_refresh ::
  "('s, 'k, 'd) jwt_env \<Rightarrow> verifier_settings \<Rightarrow> string \<Rightarrow> http_reply \<Rightarrow> nat \<Rightarrow> 's key_cache
    \<Rightarrow> (identity_error + 'k) \<times> 's key_cache" where
  "finish_refresh jx v key_id reply t st =
     (case fetch_keys jx reply of
        Inl e \<Rightarrow> (Inl e, st)
      | Inr keys \<Rightarrow>
          (ok_or KeyUnavailable (jwks_find jx keys key_id),
           st\<lparr>kc_cache := Some \<lparr> ck_keys = keys, ck_expires_at = t + is_cache_ttl v \<rparr>\<rparr>))"

text \<open>\<open>key\<close> when no other request is between its two lookups.\<close>

definition key_lookup ::
  "('s, 'k, 'd) jwt_env \<Rightarrow> verifier_settings \<Rightarrow> string \<Rightarrow> (nat \<Rightarrow> nat) \<Rightarrow> http_reply \<Rightarrow> 's key_cache
    \<Rightarrow> (identity_error + 'k) \<times> 's key_cache" where
  "key_lookup jx v key_id clk reply st =
     (case cached_key jx key_id (clk 0) st of
        Some k \<Rightarrow> (Inr k, st)
      | None \<Rightarrow>
          (case begin_refresh jx v key_id (\<lambda>i. clk (Suc i)) st of
             (Some r, st') \<Rightarrow> (r, st')
           | (None, st') \<Rightarrow> finish_refresh jx v key_id reply (clk 3) st'))"

section \<open>The identity token\<close>

text \<open>\<open>unix_timestamp\<close>: the seconds since the epoch, unless the clock is set before it.\<close>

definition unix_timestamp :: "nat option \<Rightarrow> identity_error + int" where
  "unix_timestamp clock = ok_or IdentityInvalid (map_option (\<lambda>s. min (int s) i64_max) clock)"

definition identity_validation :: "verifier_settings \<Rightarrow> jwt_validation" where
  "identity_validation v = \<lparr> va_algorithm = EdDSA, va_issuers = [is_issuer v],
     va_audiences = [mcp_server_name],
     va_required = [''exp'', ''iss'', ''aud'', ''sub'', ''iat''],
     va_leeway = nat \<bar>clock_skew_seconds\<bar> \<rparr>"

text \<open>The claims the code checks itself; true when the token is refused.\<close>

definition claims_refused :: "verifier_settings \<Rightarrow> int \<Rightarrow> identity_claims \<Rightarrow> bool" where
  "claims_refused v t c =
     (let valid_lifetime = (case i64_checked_sub (ic_exp c) (ic_iat c) of None \<Rightarrow> False
        | Some lifetime \<Rightarrow> 1 \<le> lifetime \<and> lifetime \<le> maximum_identity_token_lifetime_seconds)
      in ic_sub c = [] \<or> ic_actor c \<noteq> is_actor v \<or>
         ic_iat c < i64_saturating_sub t
           (i64_saturating_add maximum_identity_token_age_seconds clock_skew_seconds) \<or>
         i64_saturating_add t clock_skew_seconds < ic_iat c \<or>
         i64_saturating_add t
           (i64_saturating_add maximum_identity_token_lifetime_seconds clock_skew_seconds) < ic_exp c \<or>
         \<not> valid_lifetime \<or> 256 < length (ic_groups c) \<or>
         list_ex (\<lambda>g. 256 < length g) (ic_groups c))"

text \<open>
  \<open>verify_with_time\<close>. \<open>answer\<close> is what awaiting \<open>key\<close> yields for a key id; \<open>decoded_at\<close> is
  the time the crate reads, \<open>clock\<close> what \<open>SystemTime::now()\<close> gives afterwards.
\<close>

definition verify_with_time ::
  "('s, 'k, 'd) jwt_env \<Rightarrow> verifier_settings \<Rightarrow> (string \<Rightarrow> identity_error + 'k) \<Rightarrow> int \<Rightarrow> nat option
    \<Rightarrow> string \<Rightarrow> int option \<Rightarrow> identity_error + principal" where
  "verify_with_time jx v answer decoded_at clock token timestamp =
     rbind (ok_or IdentityInvalid (jwt_header_of jx token)) (\<lambda>header.
     if jh_alg header \<noteq> EdDSA then Inl IdentityInvalid else
     rbind (ok_or IdentityInvalid (jh_kid header)) (\<lambda>key_id.
     rbind (answer key_id) (\<lambda>key.
     rbind (ok_or IdentityInvalid (decoding_key jx key)) (\<lambda>decoding.
     rbind (ok_or IdentityInvalid (jwt_decode jx token decoding (identity_validation v) decoded_at)) (\<lambda>claims.
     rbind (case timestamp of Some s \<Rightarrow> Inr s | None \<Rightarrow> unix_timestamp clock) (\<lambda>t.
     if claims_refused v t claims then Inl IdentityInvalid
     else Inr \<lparr> pr_subject = ic_sub claims, pr_groups = ic_groups claims \<rparr>))))))"

definition verify_identity ::
  "('s, 'k, 'd) jwt_env \<Rightarrow> verifier_settings \<Rightarrow> (string \<Rightarrow> identity_error + 'k) \<Rightarrow> int \<Rightarrow> nat option
    \<Rightarrow> string \<Rightarrow> identity_error + principal" where
  "verify_identity jx v answer decoded_at clock token =
     verify_with_time jx v answer decoded_at clock token None"

section \<open>The middleware\<close>

text \<open>A header map: the values of a name (in lower case), in order.\<close>

type_synonym headers = "string \<Rightarrow> string list"

definition header_value :: "headers \<Rightarrow> string \<Rightarrow> string option" where
  "header_value h name = (case h name of [] \<Rightarrow> None | v # _ \<Rightarrow> Some v)"

record ingress_auth =
  ia_bearers :: gateway_bearers
  ia_verifier :: verifier_settings
  ia_allowed_hosts :: "string list"
  ia_allowed_origins :: "string list"

datatype ingress_failure = Unauthorized | InvalidOrigin

definition authenticate ::
  "('s, 'k, 'd) jwt_env \<Rightarrow> ingress_auth \<Rightarrow> (string \<Rightarrow> identity_error + 'k) \<Rightarrow> int \<Rightarrow> nat option
    \<Rightarrow> headers \<Rightarrow> ingress_failure + principal" where
  "authenticate jx auth answer decoded_at clock h =
     rbind (ok_or Unauthorized (map_option to_ascii_lowercase
       (Option.bind (header_value h ''host'') header_str))) (\<lambda>host.
     if \<not> list_ex (\<lambda>allowed. allowed = host) (ia_allowed_hosts auth) then Inl Unauthorized else
     rbind (case header_value h ''origin'' of None \<Rightarrow> Inr ()
       | Some raw \<Rightarrow> rbind (ok_or InvalidOrigin (header_str raw)) (\<lambda>origin.
           ensure (list_ex (\<lambda>allowed. allowed = origin) (ia_allowed_origins auth)) InvalidOrigin)) (\<lambda>_.
     rbind (ok_or Unauthorized (Option.bind (Option.bind (header_value h ''authorization'') header_str)
       (strip_prefix ''Bearer ''))) (\<lambda>token.
     if \<not> bearers_accept jx (ia_bearers auth) token then Inl Unauthorized else
     rbind (ok_or Unauthorized (Option.bind (header_value h identity_header) header_str)) (\<lambda>identity.
     map_err (\<lambda>_. Unauthorized)
       (verify_identity jx (ia_verifier auth) answer decoded_at clock identity)))))"

text \<open>\<open>require_gateway\<close>: the principal the next service runs with, or the response sent instead.\<close>

definition gateway_refusal :: "ingress_failure \<Rightarrow> nat \<times> string" where
  "gateway_refusal f = (case f of
       InvalidOrigin \<Rightarrow> (403, ''gateway origin is not allowed'')
     | Unauthorized \<Rightarrow> (401, ''gateway authentication required''))"

definition require_gateway ::
  "('s, 'k, 'd) jwt_env \<Rightarrow> ingress_auth \<Rightarrow> (string \<Rightarrow> identity_error + 'k) \<Rightarrow> int \<Rightarrow> nat option
    \<Rightarrow> headers \<Rightarrow> (nat \<times> string) + principal" where
  "require_gateway jx auth answer decoded_at clock h =
     map_err gateway_refusal (authenticate jx auth answer decoded_at clock h)"

section \<open>What the parameters are documented to do\<close>

text \<open>
  \<open>subtle\<close> compares slices of equal length; a decoded token is signed by the key with the
  algorithm asked for, names an accepted issuer and audience, and had not expired by more than
  the leeway. \<open>signs d token c\<close> says that the owner of \<open>d\<close> signed the claims \<open>c\<close> as \<open>token\<close>,
  \<open>issuer\<close> and \<open>audience\<close> what the token says of itself.
\<close>

definition jwt_documented ::
  "('s, 'k, 'd) jwt_env \<Rightarrow> ('d \<Rightarrow> string \<Rightarrow> identity_claims \<Rightarrow> bool) \<Rightarrow> (string \<Rightarrow> string)
    \<Rightarrow> (string \<Rightarrow> string list) \<Rightarrow> bool" where
  "jwt_documented jx signs issuer audience \<longleftrightarrow>
     (\<forall>a b. length a = length b \<longrightarrow> ct_eq jx a b = (a = b)) \<and>
     (\<forall>token d va t c. jwt_decode jx token d va t = Some c \<longrightarrow>
        signs d token c \<and> issuer token \<in> set (va_issuers va) \<and>
        (\<exists>a \<in> set (audience token). a \<in> set (va_audiences va)) \<and>
        t \<le> ic_exp c + int (va_leeway va) \<and> is_i64 (ic_iat c) \<and> is_i64 (ic_exp c))"

lemma constant_time_equal_iff:
  "jwt_documented jx signs issuer audience \<Longrightarrow> constant_time_equal jx a b \<longleftrightarrow> a = b"
  by (auto simp: constant_time_equal_def jwt_documented_def)

lemma decode_documented:
  assumes "jwt_documented jx signs issuer audience" "jwt_decode jx token d va t = Some c"
  shows "signs d token c" "issuer token \<in> set (va_issuers va)"
    "\<exists>a \<in> set (audience token). a \<in> set (va_audiences va)" "t \<le> ic_exp c + int (va_leeway va)"
    "is_i64 (ic_iat c)" "is_i64 (ic_exp c)"
  using assms by (simp_all add: jwt_documented_def)

lemma bearers_accept_iff:
  assumes "jwt_documented jx signs issuer audience"
  shows "bearers_accept jx b s \<longleftrightarrow> s = gb_current b \<or> gb_previous b = Some s"
  using constant_time_equal_iff [OF assms] by (auto simp: bearers_accept_def split: option.splits)

lemma bearers_from_protected_Inr:
  assumes "bearers_from_protected jx current previous = Inr b"
  shows "b = \<lparr> gb_current = current, gb_previous = previous \<rparr>"
    "validate_bearer current = Inr ()" "previous = Some p \<Longrightarrow> validate_bearer p = Inr ()"
  using assms by (auto simp: bearers_from_protected_def rust_results split: option.splits)

lemma validate_bearer_Inr:
  "validate_bearer v = Inr u \<longleftrightarrow> 32 \<le> length v \<and> \<not> list_ex is_ascii_whitespace v"
  by (auto simp: validate_bearer_def minimum_bearer_bytes_def)

lemma verifier_new_Inr:
  assumes "verifier_new built v = Inr (v', st)"
  shows "v' = v" "st = empty_key_cache" "0 < is_cache_ttl v" "is_cache_ttl v \<le> secs 3600"
    "is_actor v \<noteq> []" "is_issuer v \<noteq> []"
proof -
  have "trim [] = []" by (simp add: trim_def trim_start_def trim_end_def drop_ws.simps)
  with assms show "v' = v" "st = empty_key_cache" "0 < is_cache_ttl v" "is_cache_ttl v \<le> secs 3600"
    "is_actor v \<noteq> []" "is_issuer v \<noteq> []"
    by (auto simp: verifier_new_def rust_results split: if_splits)
qed

section \<open>Fresh claims\<close>

text \<open>
  At the time \<open>t\<close>: issued at most 270 seconds ago and at most 30 seconds ahead, valid for one
  to 300 seconds, for the configured actor, with a subject.
\<close>

definition claims_fresh :: "verifier_settings \<Rightarrow> int \<Rightarrow> identity_claims \<Rightarrow> bool" where
  "claims_fresh v t c \<longleftrightarrow>
     t - 270 \<le> ic_iat c \<and> ic_iat c \<le> t + 30 \<and> ic_iat c < ic_exp c \<and>
     ic_exp c \<le> ic_iat c + 300 \<and> ic_exp c \<le> t + 330 \<and>
     ic_actor c = is_actor v \<and> ic_sub c \<noteq> [] \<and>
     length (ic_groups c) \<le> 256 \<and> list_all (\<lambda>g. length g \<le> 256) (ic_groups c)"

text \<open>The saturating comparisons of the code decide it, also at the ends of the 64-bit range.\<close>

lemma claims_refused_iff:
  assumes "0 \<le> t" "t \<le> i64_max" "is_i64 (ic_iat c)" "is_i64 (ic_exp c)"
  shows "claims_refused v t c \<longleftrightarrow> \<not> claims_fresh v t c"
proof -
  have sub: "i64_saturating_sub t 270 = t - 270"
    using assms(1,2) by (simp add: i64_saturating_sub_def i64_clamp_def i64_min_def i64_max_def)
  have add: "x \<le> i64_saturating_add t n \<longleftrightarrow> x \<le> t + n" if "is_i64 x" "0 \<le> n" for x n
    using that assms(1) by (auto simp: i64_saturating_add_def i64_clamp_def is_i64_def i64_min_def i64_max_def)
  have sums: "i64_saturating_add 240 30 = 270" "i64_saturating_add 300 30 = 330"
    by (simp_all add: i64_saturating_add_def i64_clamp_def i64_min_def i64_max_def)
  have life: "(case i64_checked_sub (ic_exp c) (ic_iat c) of None \<Rightarrow> False
      | Some lifetime \<Rightarrow> 1 \<le> lifetime \<and> lifetime \<le> 300) \<longleftrightarrow>
      ic_iat c < ic_exp c \<and> ic_exp c \<le> ic_iat c + 300"
    using assms(3,4) by (auto simp: i64_checked_sub_def is_i64_def i64_min_def i64_max_def)
  show ?thesis
    unfolding claims_refused_def claims_fresh_def Let_def clock_skew_seconds_def
      maximum_identity_token_age_seconds_def maximum_identity_token_lifetime_seconds_def sums sub life
    using add [OF assms(3), of 30] add [OF assms(4), of 330]
    by (auto simp: not_le list_all_iff list_ex_iff)
qed

end
