(* ===== verification/Server_Identity.thy ===== *)
theory Server_Identity
  imports Server_Auth
begin

text \<open>
  The key cache of \<open>auth.rs\<close> under concurrent requests, and what authentication guarantees.
  The atomic sections of \<open>key\<close> are the steps of a relation: a lookup, the section under the
  refresh lock up to the fetch, the section after it. The refresh lock is held across the
  fetch. From the runs follow the provenance and the age of every key a request is given, the
  rate of the fetches, and with them what is known of an admitted request.
\<close>

section \<open>Runs of the key cache\<close>

record 's key_system =
  ks_cache :: "'s key_cache"
  ks_fetching :: "string option"
  ks_time :: nat

text \<open>
  Events, with the instant they happen at and the key id of the request: it is answered, it
  sends the fetch, it is answered from the reply, it is dropped while it holds the lock.
\<close>

datatype 'k key_event =
    Answered nat string "identity_error + 'k"
  | FetchStarted nat string
  | FetchAnswered nat string http_reply "identity_error + 'k"
  | FetchDropped string

inductive key_step ::
  "('s, 'k, 'd) jwt_env \<Rightarrow> verifier_settings \<Rightarrow> 's key_system \<Rightarrow> 'k key_event \<Rightarrow> 's key_system \<Rightarrow> bool"
  for jx v where
  looked_up: "ks_time y \<le> t \<Longrightarrow> cached_key jx kid t (ks_cache y) = Some k \<Longrightarrow>
    key_step jx v y (Answered t kid (Inr k)) (y\<lparr>ks_time := t\<rparr>)"
| answered: "ks_fetching y = None \<Longrightarrow> ks_time y \<le> clk 0 \<Longrightarrow> clk 0 \<le> clk 1 \<Longrightarrow>
    begin_refresh jx v kid clk (ks_cache y) = (Some r, st) \<Longrightarrow>
    key_step jx v y (Answered (clk 0) kid r) (y\<lparr>ks_cache := st, ks_time := clk 0\<rparr>)"
| fetch: "ks_fetching y = None \<Longrightarrow> ks_time y \<le> clk 0 \<Longrightarrow> clk 0 \<le> clk 1 \<Longrightarrow>
    begin_refresh jx v kid clk (ks_cache y) = (None, st) \<Longrightarrow>
    key_step jx v y (FetchStarted (clk 1) kid)
      (y\<lparr>ks_cache := st, ks_fetching := Some kid, ks_time := clk 1\<rparr>)"
| fetched: "ks_fetching y = Some kid \<Longrightarrow> ks_time y \<le> t \<Longrightarrow>
    finish_refresh jx v kid reply t (ks_cache y) = (r, st) \<Longrightarrow>
    key_step jx v y (FetchAnswered t kid reply r)
      (y\<lparr>ks_cache := st, ks_fetching := None, ks_time := t\<rparr>)"
| dropped: "ks_fetching y = Some kid \<Longrightarrow>
    key_step jx v y (FetchDropped kid) (y\<lparr>ks_fetching := None\<rparr>)"

text \<open>Runs from a verifier the constructor accepted; the latest event comes first.\<close>

inductive key_run ::
  "('s, 'k, 'd) jwt_env \<Rightarrow> verifier_settings \<Rightarrow> 'k key_event list \<Rightarrow> 's key_system \<Rightarrow> bool"
  for jx v where
  start: "verifier_new built v = Inr (v, st) \<Longrightarrow>
    key_run jx v [] \<lparr> ks_cache = st, ks_fetching = None, ks_time = 0 \<rparr>"
| step: "key_run jx v tr y \<Longrightarrow> key_step jx v y e y' \<Longrightarrow> key_run jx v (e # tr) y'"

inductive_cases key_stepE: "key_step jx v y e y'"

lemma begin_refresh_cases:
  assumes "begin_refresh jx v kid clk st = (r, st')"
  obtains (cached) k where "r = Some (Inr k)" "st' = st" "cached_key jx kid (clk 0) st = Some k"
  | (refused) after where "r = Some (Inl KeyUnavailable)" "st' = st"
      "kc_refresh_after st = Some after" "clk 1 < after"
  | (fetch) "r = None" "kc_cache st' = kc_cache st"
      "kc_refresh_after st' = Some (clk 1 + min minimum_jwks_refresh_interval (is_cache_ttl v))"
      "\<forall>after. kc_refresh_after st = Some after \<longrightarrow> after \<le> clk 1"
  using assms by (auto simp: begin_refresh_def Let_def split: option.splits if_splits)

lemma finish_refresh_cases:
  assumes "finish_refresh jx v kid reply t st = (r, st')"
  obtains (failed) e where "r = Inl e" "st' = st"
  | (loaded) keys where "fetch_keys jx reply = Inr keys" "r = ok_or KeyUnavailable (jwks_find jx keys kid)"
      "st' = st\<lparr>kc_cache := Some \<lparr> ck_keys = keys, ck_expires_at = t + is_cache_ttl v \<rparr>\<rparr>"
  using assms by (auto simp: finish_refresh_def split: sum.splits)

lemma key_step_time: "key_step jx v y e y' \<Longrightarrow> ks_time y \<le> ks_time y'"
  by (erule key_step.cases) auto

section \<open>Where keys come from\<close>

text \<open>
  A key set that a successful reply carried; a key of one whose reply came at most the cache
  lifetime before \<open>t\<close>.
\<close>

definition loaded_at :: "('s, 'k, 'd) jwt_env \<Rightarrow> 'k key_event list \<Rightarrow> nat \<Rightarrow> 's \<Rightarrow> bool" where
  "loaded_at jx tr t keys \<longleftrightarrow>
     (\<exists>kid reply r. FetchAnswered t kid reply r \<in> set tr \<and> fetch_keys jx reply = Inr keys)"

definition published_key ::
  "('s, 'k, 'd) jwt_env \<Rightarrow> verifier_settings \<Rightarrow> 'k key_event list \<Rightarrow> nat \<Rightarrow> string \<Rightarrow> 'k \<Rightarrow> bool" where
  "published_key jx v tr t kid k \<longleftrightarrow>
     (\<exists>t0 keys. loaded_at jx tr t0 keys \<and> jwks_find jx keys kid = Some k \<and>
        t0 \<le> t \<and> t < t0 + is_cache_ttl v)"

definition answers_in :: "'k key_event list \<Rightarrow> nat \<Rightarrow> string \<Rightarrow> identity_error + 'k \<Rightarrow> bool" where
  "answers_in tr t kid r \<longleftrightarrow>
     Answered t kid r \<in> set tr \<or> (\<exists>reply. FetchAnswered t kid reply r \<in> set tr)"

lemma loaded_at_mono: "loaded_at jx tr t keys \<Longrightarrow> loaded_at jx (e # tr) t keys"
  by (auto simp: loaded_at_def)

lemma published_key_mono: "published_key jx v tr t kid k \<Longrightarrow> published_key jx v (e # tr) t kid k"
  unfolding published_key_def by (blast intro: loaded_at_mono)

definition cache_loaded ::
  "('s, 'k, 'd) jwt_env \<Rightarrow> verifier_settings \<Rightarrow> 'k key_event list \<Rightarrow> 's key_system \<Rightarrow> bool" where
  "cache_loaded jx v tr y \<longleftrightarrow> 0 < is_cache_ttl v \<and>
     (\<forall>c. kc_cache (ks_cache y) = Some c \<longrightarrow>
        (\<exists>t0 \<le> ks_time y. loaded_at jx tr t0 (ck_keys c) \<and> ck_expires_at c = t0 + is_cache_ttl v))"

lemma cached_key_published:
  assumes "cache_loaded jx v tr y" "ks_time y \<le> t" "cached_key jx kid t (ks_cache y) = Some k"
  shows "published_key jx v tr t kid k"
proof -
  obtain c where c: "kc_cache (ks_cache y) = Some c" "t < ck_expires_at c"
    "jwks_find jx (ck_keys c) kid = Some k"
    using assms(3) by (auto simp: cached_key_def split: option.splits if_splits)
  with assms(1) obtain t0 where t0: "t0 \<le> ks_time y" "loaded_at jx tr t0 (ck_keys c)"
    "ck_expires_at c = t0 + is_cache_ttl v"
    by (auto simp: cache_loaded_def)
  with assms(2) c have "t0 \<le> t" "t < t0 + is_cache_ttl v" by auto
  with t0(2) c(3) show ?thesis unfolding published_key_def by blast
qed

lemma cache_loaded_cong:
  assumes "cache_loaded jx v tr y" "kc_cache (ks_cache y') = kc_cache (ks_cache y)"
    "ks_time y \<le> ks_time y'"
  shows "cache_loaded jx v (e # tr) y'"
  using assms unfolding cache_loaded_def by (metis le_trans loaded_at_mono)

lemma key_step_loaded:
  assumes "key_step jx v y e y'" "cache_loaded jx v tr y"
  shows "cache_loaded jx v (e # tr) y'"
  using assms
proof (cases rule: key_step.cases)
  case (fetched kid t reply r st)
  from fetched(5) show ?thesis
  proof (cases rule: finish_refresh_cases)
    case (failed x)
    with fetched assms(2) show ?thesis by (intro cache_loaded_cong [of jx v tr y]) auto
  next
    case (loaded keys)
    have "loaded_at jx (e # tr) t keys" using fetched(1) loaded(1) by (auto simp: loaded_at_def)
    with fetched loaded assms(2) show ?thesis by (auto simp: cache_loaded_def)
  qed
next
  case (answered clk kid r st)
  from answered(6) have "st = ks_cache y" by (rule begin_refresh_cases) auto
  with answered assms(2) show ?thesis by (intro cache_loaded_cong [of jx v tr y]) auto
next
  case (fetch clk kid st)
  from fetch(6) have "kc_cache st = kc_cache (ks_cache y)" by (rule begin_refresh_cases) auto
  with fetch assms(2) show ?thesis by (intro cache_loaded_cong [of jx v tr y]) auto
qed (intro cache_loaded_cong [of jx v tr y], auto)+

lemma key_run_loaded: "key_run jx v tr y \<Longrightarrow> cache_loaded jx v tr y"
proof (induction rule: key_run.induct)
  case (start built st)
  from verifier_new_Inr(2,3) [OF start] show ?case by (simp add: cache_loaded_def empty_key_cache_def)
qed (rule key_step_loaded)

lemma key_step_published:
  assumes s: "key_step jx v y e y'" and ok: "cache_loaded jx v tr y"
    and a: "answers_in [e] t kid (Inr k)"
  shows "published_key jx v (e # tr) t kid k"
  using s
proof (cases rule: key_step.cases)
  case (looked_up t' kid' k')
  with a cached_key_published [OF ok looked_up(3,4)] show ?thesis
    by (simp add: answers_in_def published_key_mono)
next
  case (answered clk kid' r st)
  with a have e: "t = clk 0" "kid' = kid" "r = Inr k" by (simp_all add: answers_in_def)
  from answered(6) have "cached_key jx kid (clk 0) (ks_cache y) = Some k"
    using e by (cases rule: begin_refresh_cases) auto
  from cached_key_published [OF ok answered(4) this] e(1) show ?thesis
    by (simp add: published_key_mono)
next
  case (fetched kid' t' reply r st)
  with a have e: "t = t'" "kid' = kid" "r = Inr k" by (simp_all add: answers_in_def)
  from fetched(5) obtain keys where keys: "fetch_keys jx reply = Inr keys" "jwks_find jx keys kid = Some k"
    using e by (cases rule: finish_refresh_cases) auto
  then have "loaded_at jx (e # tr) t keys" using fetched(1) e(1) by (auto simp: loaded_at_def)
  moreover have "0 < is_cache_ttl v" using ok by (simp add: cache_loaded_def)
  ultimately show ?thesis
    unfolding published_key_def using keys(2) by (intro exI [of _ t] exI [of _ keys]) simp
qed (use a in \<open>simp_all add: answers_in_def\<close>)

lemma keys_published:
  "key_run jx v tr y \<Longrightarrow> answers_in tr t kid (Inr k) \<Longrightarrow> published_key jx v tr t kid k"
proof (induction arbitrary: t kid k rule: key_run.induct)
  case (start built st)
  then show ?case by (simp add: answers_in_def)
next
  case (step tr y e y')
  show ?case
  proof (cases "answers_in [e] t kid (Inr k)")
    case True
    with key_step_published [OF step(2) key_run_loaded [OF step(1)]] show ?thesis .
  next
    case False
    with step(4) have "answers_in tr t kid (Inr k)" by (auto simp: answers_in_def)
    from step(3) [OF this] show ?thesis by (rule published_key_mono)
  qed
qed

section \<open>How often they are fetched\<close>

definition refresh_interval :: "verifier_settings \<Rightarrow> nat" where
  "refresh_interval v = min minimum_jwks_refresh_interval (is_cache_ttl v)"

text \<open>The instants of the fetches, the latest first.\<close>

fun fetch_time :: "'k key_event \<Rightarrow> nat list" where
  "fetch_time (FetchStarted t kid) = [t]"
| "fetch_time _ = []"

definition fetch_times :: "'k key_event list \<Rightarrow> nat list" where
  "fetch_times tr = concat (map fetch_time tr)"

definition spaced :: "nat \<Rightarrow> nat list \<Rightarrow> bool" where
  "spaced d ts \<longleftrightarrow> sorted_wrt (\<lambda>later earlier. earlier + d \<le> later) ts"

lemma fetch_times_simps [simp]: "fetch_times [] = []" "fetch_times (e # tr) = fetch_time e @ fetch_times tr"
  by (simp_all add: fetch_times_def)

lemma spaced_span: "spaced d (t # ts) \<Longrightarrow> last (t # ts) + length ts * d \<le> t"
proof (induction ts arbitrary: t)
  case (Cons u us)
  then have "last (u # us) + length us * d \<le> u" "u + d \<le> t" by (auto simp: spaced_def)
  then show ?case by simp
qed simp

lemma spaced_count:
  assumes "spaced d ts" "0 < d"
  shows "length (filter (\<lambda>t. a \<le> t \<and> t \<le> b) ts) \<le> Suc ((b - a) div d)"
proof (cases "filter (\<lambda>t. a \<le> t \<and> t \<le> b) ts")
  case (Cons u us)
  have "spaced d (u # us)"
    using assms(1) Cons [symmetric] by (simp add: spaced_def sorted_wrt_filter)
  note span = spaced_span [OF this]
  have "set (u # us) \<subseteq> {a..b}" unfolding Cons [symmetric] by auto
  then have "last (u # us) \<in> {a..b}" "u \<in> {a..b}" using last_in_set [of "u # us"] by auto
  with span have "length us * d \<le> b - a" by auto
  then have "length us * d div d \<le> (b - a) div d" by (rule div_le_mono)
  with assms(2) have "length us \<le> (b - a) div d" by simp
  with Cons show ?thesis by simp
qed simp

text \<open>The gate is the earliest instant of the next fetch.\<close>

definition gate_ok :: "verifier_settings \<Rightarrow> 'k key_event list \<Rightarrow> 's key_system \<Rightarrow> bool" where
  "gate_ok v tr y \<longleftrightarrow> spaced (refresh_interval v) (fetch_times tr) \<and>
     (\<forall>t \<in> set (fetch_times tr). \<exists>after. kc_refresh_after (ks_cache y) = Some after \<and>
        t + refresh_interval v \<le> after)"

lemma gate_ok_cong:
  "gate_ok v tr y \<Longrightarrow> kc_refresh_after (ks_cache y') = kc_refresh_after (ks_cache y) \<Longrightarrow>
    fetch_time e = [] \<Longrightarrow> gate_ok v (e # tr) y'"
  by (simp add: gate_ok_def)

lemma key_step_gate:
  assumes "key_step jx v y e y'" "gate_ok v tr y"
  shows "gate_ok v (e # tr) y'"
  using assms
proof (cases rule: key_step.cases)
  case (answered clk kid r st)
  from answered(6) have "st = ks_cache y" by (rule begin_refresh_cases) auto
  with answered assms(2) show ?thesis by (intro gate_ok_cong [of v tr y]) auto
next
  case (fetch clk kid st)
  from fetch(6) have gate: "kc_refresh_after st = Some (clk 1 + refresh_interval v)"
    and open_: "\<forall>after. kc_refresh_after (ks_cache y) = Some after \<longrightarrow> after \<le> clk 1"
    by (rule begin_refresh_cases; simp add: refresh_interval_def)+
  have "\<forall>t \<in> set (fetch_times tr). t + refresh_interval v \<le> clk 1"
    using assms(2) open_ unfolding gate_ok_def by (metis le_trans)
  with assms(2) fetch gate show ?thesis by (fastforce simp: gate_ok_def spaced_def)
next
  case (fetched kid t reply r st)
  from fetched(5) have "kc_refresh_after st = kc_refresh_after (ks_cache y)"
    by (rule finish_refresh_cases) auto
  with fetched assms(2) show ?thesis by (intro gate_ok_cong [of v tr y]) auto
qed (intro gate_ok_cong [of v tr y], auto)+

lemma key_run_gate: "key_run jx v tr y \<Longrightarrow> gate_ok v tr y"
proof (induction rule: key_run.induct)
  case (start built st)
  then show ?case by (simp add: gate_ok_def spaced_def)
qed (rule key_step_gate)

text \<open>The lock admits one fetch at a time.\<close>

fun fetch_ended :: "'k key_event \<Rightarrow> bool" where
  "fetch_ended (FetchAnswered t kid reply r) = True"
| "fetch_ended (FetchDropped kid) = True"
| "fetch_ended _ = False"

lemma key_run_lock:
  "key_run jx v tr y \<Longrightarrow> length (fetch_times tr) =
     length (filter fetch_ended tr) + (if ks_fetching y = None then 0 else 1)"
proof (induction rule: key_run.induct)
  case (step tr y e y')
  from step(2,3) show ?case by (cases rule: key_step.cases) auto
qed simp

section \<open>A concrete identity service\<close>

text \<open>
  A service that publishes one key, a token signed with it, and the parts of a run in which a
  request waits for the fetch: the inputs the examples are evaluated at.
\<close>

definition sample_claims :: identity_claims where
  "sample_claims = \<lparr> ic_sub = ''alice'', ic_iat = 1000, ic_exp = 1240, ic_groups = [''ops''],
     ic_actor = ''gateway'' \<rparr>"

definition sample_jwt :: "(string, string, string) jwt_env" where
  "sample_jwt = \<lparr> ct_eq = (\<lambda>a b. a = b),
     jwt_header_of = (\<lambda>t. if t = ''token'' then Some \<lparr> jh_alg = EdDSA, jh_kid = Some ''k1'' \<rparr> else None),
     jwks_of = (\<lambda>b. if b = ''keys'' then Some ''set'' else None),
     jwks_find = (\<lambda>s k. if k = ''k1'' then Some ''key'' else None),
     decoding_key = (\<lambda>k. Some k),
     jwt_decode = (\<lambda>t d va at.
       if t = ''token'' \<and> d = ''key'' \<and> ''issuer'' \<in> set (va_issuers va) \<and>
          mcp_server_name \<in> set (va_audiences va) \<and> at \<le> 1240 + int (va_leeway va)
       then Some sample_claims else None) \<rparr>"

definition sample_verifier :: verifier_settings where
  "sample_verifier = \<lparr> is_jwks_url = plain_url ''https'' (HostDomain ''id.example.net''),
     is_issuer = ''issuer'', is_actor = ''gateway'', is_request_timeout = secs 3,
     is_cache_ttl = secs 300 \<rparr>"

definition sample_bearer :: string where "sample_bearer = replicate 32 CHR ''s''"

definition sample_auth :: ingress_auth where
  "sample_auth = \<lparr> ia_bearers = \<lparr> gb_current = sample_bearer, gb_previous = None \<rparr>,
     ia_verifier = sample_verifier, ia_allowed_hosts = [''komodo-mcp''], ia_allowed_origins = [] \<rparr>"

definition sample_headers :: headers where
  "sample_headers = (\<lambda>name. if name = ''host'' then [''Komodo-MCP'']
     else if name = ''authorization'' then [''Bearer '' @ sample_bearer]
     else if name = identity_header then [''token''] else [])"

definition sample_keys_reply :: http_reply where "sample_keys_reply = Reply 200 [''ke'', ''ys''] True"

definition sample_key_trace :: "string key_event list" where
  "sample_key_trace = [FetchAnswered 2 ''k1'' sample_keys_reply (Inr ''key''), FetchStarted 1 ''k1'']"

definition sample_key_system :: "string key_system" where
  "sample_key_system = \<lparr>
     ks_cache = \<lparr> kc_cache = Some \<lparr> ck_keys = ''set'', ck_expires_at = 2 + secs 300 \<rparr>,
       kc_refresh_after = Some (1 + secs 30) \<rparr>,
     ks_fetching = None, ks_time = 2 \<rparr>"

lemma sample_documented:
  "jwt_documented sample_jwt (\<lambda>d t c. d = ''key'' \<and> t = ''token'' \<and> c = sample_claims)
     (\<lambda>_. ''issuer'') (\<lambda>_. [mcp_server_name])"
  by (auto simp: jwt_documented_def sample_jwt_def sample_claims_def is_i64_def i64_min_def i64_max_def
    split: if_splits)

lemma sample_verifier_new: "verifier_new True sample_verifier = Inr (sample_verifier, empty_key_cache :: string key_cache)"
  by code_simp

lemma sample_begin:
  "begin_refresh sample_jwt sample_verifier ''k1'' (\<lambda>_. 1) empty_key_cache =
     (None, \<lparr> kc_cache = None, kc_refresh_after = Some (1 + secs 30) \<rparr>)"
  "finish_refresh sample_jwt sample_verifier ''k1'' sample_keys_reply 2
      \<lparr> kc_cache = None, kc_refresh_after = Some (1 + secs 30) \<rparr> =
     (Inr ''key'', ks_cache sample_key_system)"
  by code_simp+

lemma sample_key_run: "key_run sample_jwt sample_verifier sample_key_trace sample_key_system"
proof -
  let ?y0 = "\<lparr> ks_cache = empty_key_cache, ks_fetching = None, ks_time = 0 \<rparr> :: string key_system"
  let ?y1 = "\<lparr> ks_cache = \<lparr> kc_cache = None, kc_refresh_after = Some (1 + secs 30) \<rparr>,
    ks_fetching = Some ''k1'', ks_time = 1 \<rparr> :: string key_system"
  have 0: "key_run sample_jwt sample_verifier [] ?y0"
    by (rule key_run.start [OF sample_verifier_new])
  have "key_step sample_jwt sample_verifier ?y0 (FetchStarted 1 ''k1'') ?y1"
    using key_step.fetch [of ?y0 "\<lambda>_. 1" sample_jwt sample_verifier "''k1''"] sample_begin(1) by simp
  from key_run.step [OF 0 this]
  have 1: "key_run sample_jwt sample_verifier [FetchStarted 1 ''k1''] ?y1" .
  have "key_step sample_jwt sample_verifier ?y1
      (FetchAnswered 2 ''k1'' sample_keys_reply (Inr ''key'')) sample_key_system"
    using key_step.fetched [of ?y1 "''k1''" 2 sample_jwt sample_verifier sample_keys_reply] sample_begin(2)
    by (simp add: sample_key_system_def)
  from key_run.step [OF 1 this] show ?thesis by (simp add: sample_key_trace_def)
qed

section \<open>Authenticated requests\<close>

text \<open>
  What is known of a request with the headers \<open>h\<close> that continues as the principal \<open>p\<close>, when its
  key was looked up at the instant \<open>t\<close> of the run \<open>tr\<close> and the clock showed \<open>clock\<close>.
\<close>

definition authenticated_request ::
  "('s, 'k, 'd) jwt_env \<Rightarrow> ('d \<Rightarrow> string \<Rightarrow> identity_claims \<Rightarrow> bool) \<Rightarrow> (string \<Rightarrow> string)
    \<Rightarrow> (string \<Rightarrow> string list) \<Rightarrow> ingress_auth \<Rightarrow> string \<Rightarrow> string option \<Rightarrow> 'k key_event list \<Rightarrow> nat
    \<Rightarrow> nat option \<Rightarrow> headers \<Rightarrow> principal \<Rightarrow> bool" where
  "authenticated_request jx signs issuer audience auth current previous tr t clock h p \<longleftrightarrow>
   (\<exists>host secret token kid k d c s.
    header_value h ''host'' = Some host \<and> to_ascii_lowercase host \<in> set (ia_allowed_hosts auth) \<and>
    (\<forall>origin. header_value h ''origin'' = Some origin \<longrightarrow> origin \<in> set (ia_allowed_origins auth)) \<and>
    header_value h ''authorization'' = Some (''Bearer '' @ secret) \<and>
    (secret = current \<or> previous = Some secret) \<and> 32 \<le> length secret \<and>
    header_value h identity_header = Some token \<and>
    published_key jx (ia_verifier auth) tr t kid k \<and> decoding_key jx k = Some d \<and>
    jwt_header_of jx token = Some \<lparr> jh_alg = EdDSA, jh_kid = Some kid \<rparr> \<and>
    signs d token c \<and> issuer token = is_issuer (ia_verifier auth) \<and>
    mcp_server_name \<in> set (audience token) \<and>
    clock = Some s \<and> claims_fresh (ia_verifier auth) (min (int s) i64_max) c \<and>
    p = \<lparr> pr_subject = ic_sub c, pr_groups = ic_groups c \<rparr>)"

lemma gateway_passed:
  assumes doc: "jwt_documented jx signs issuer audience"
    and bearers: "bearers_from_protected jx current previous = Inr (ia_bearers auth)"
    and run: "key_run jx (ia_verifier auth) tr y"
    and answers: "\<And>kid k. answer kid = Inr k \<Longrightarrow> answers_in tr t kid (Inr k)"
    and passed: "require_gateway jx auth answer decoded_at clock h = Inr p"
  shows "authenticated_request jx signs issuer audience auth current previous tr t clock h p"
proof -
  from passed obtain host secret token where
    host: "header_value h ''host'' = Some host" "to_ascii_lowercase host \<in> set (ia_allowed_hosts auth)"
    and origin: "\<forall>origin. header_value h ''origin'' = Some origin \<longrightarrow> origin \<in> set (ia_allowed_origins auth)"
    and secret: "header_value h ''authorization'' = Some (''Bearer '' @ secret)"
      "bearers_accept jx (ia_bearers auth) secret"
    and token: "header_value h identity_header = Some token"
    and verified: "verify_identity jx (ia_verifier auth) answer decoded_at clock token = Inr p"
    by (auto simp: require_gateway_def authenticate_def rust_results header_str_def
        list_ex_iff strip_prefix_Some_iff Option.bind_eq_Some_conv split: if_splits option.splits)
  note b = bearers_from_protected_Inr [OF bearers]
  have accepted: "secret = current \<or> previous = Some secret"
    using secret(2) by (simp add: bearers_accept_iff [OF doc] b(1))
  then have long: "32 \<le> length secret"
    using b(2) b(3) [of secret] by (auto simp: validate_bearer_Inr)
  from verified obtain kid k d c s where key: "answer kid = Inr k" "decoding_key jx k = Some d"
    and hd: "jwt_header_of jx token = Some \<lparr> jh_alg = EdDSA, jh_kid = Some kid \<rparr>"
    and dec: "jwt_decode jx token d (identity_validation (ia_verifier auth)) decoded_at = Some c"
    and clock: "clock = Some s"
    and claims: "\<not> claims_refused (ia_verifier auth) (min (int s) i64_max) c"
      "p = \<lparr> pr_subject = ic_sub c, pr_groups = ic_groups c \<rparr>"
    by (auto simp: verify_identity_def verify_with_time_def unix_timestamp_def rust_results split: if_splits)
  note facts = decode_documented [OF doc dec]
  have fresh: "claims_fresh (ia_verifier auth) (min (int s) i64_max) c"
    using claims(1) claims_refused_iff [OF _ _ facts(5,6)] by (simp add: i64_max_def)
  from facts(2,3) have for_us: "issuer token = is_issuer (ia_verifier auth)"
    "mcp_server_name \<in> set (audience token)"
    by (auto simp: identity_validation_def)
  from host origin secret(1) accepted long token keys_published [OF run answers [OF key(1)]] key(2) hd
    facts(1) for_us clock fresh claims(2) show ?thesis
    unfolding authenticated_request_def by blast
qed

section \<open>Properties\<close>

text \<open>
  C34: The key set is fetched at a bounded rate, whatever key ids requests present and however
  the fetches end: between two instants, at most one fetch more than the refresh intervals
  (30 seconds or the cache lifetime) that fit, and never two at once.
\<close>

theorem key_fetches_bounded:
  assumes "key_run jx v tr y"
  shows "length (filter (\<lambda>t. a \<le> t \<and> t \<le> b) (fetch_times tr)) \<le> Suc ((b - a) div refresh_interval v) \<and>
    length (fetch_times tr) \<le> Suc (length (filter fetch_ended tr))"
proof
  have "0 < refresh_interval v"
    using key_run_loaded [OF assms]
    by (simp add: cache_loaded_def refresh_interval_def minimum_jwks_refresh_interval_def secs_def)
  then show "length (filter (\<lambda>t. a \<le> t \<and> t \<le> b) (fetch_times tr)) \<le> Suc ((b - a) div refresh_interval v)"
    using key_run_gate [OF assms] by (intro spaced_count) (simp_all add: gate_ok_def)
qed (simp add: key_run_lock [OF assms])

theorem key_fetches_bounded_witness:
  "length (filter (\<lambda>t. 0 \<le> t \<and> t \<le> secs 29) (fetch_times sample_key_trace)) \<le> 1"
  using key_fetches_bounded [OF sample_key_run, of 0 "secs 29"]
  by (simp add: refresh_interval_def minimum_jwks_refresh_interval_def sample_verifier_def secs_def)

text \<open>
  \<open>key\<close>, called while no other request is fetching, is a run of the concurrent key cache:
  its answer is an answer of the run, its state the run's.
\<close>

theorem key_lookup_refines:
  assumes run: "key_run jx v tr y" and idle: "ks_fetching y = None"
    and clk: "ks_time y \<le> clk 0" "mono clk"
    and key: "key_lookup jx v kid clk reply (ks_cache y) = (r, st)"
  shows "\<exists>es t. key_run jx v (es @ tr) \<lparr> ks_cache = st, ks_fetching = None, ks_time = t \<rparr> \<and>
    answers_in es t kid r"
proof (cases "cached_key jx kid (clk 0) (ks_cache y)")
  case (Some k)
  with key have "r = Inr k" "st = ks_cache y" by (simp_all add: key_lookup_def)
  moreover from key_run.step [OF run key_step.looked_up [OF clk(1) Some]]
  have "key_run jx v ([Answered (clk 0) kid (Inr k)] @ tr) (y\<lparr>ks_time := clk 0\<rparr>)" by simp
  ultimately show ?thesis using idle
    by (intro exI [of _ "[Answered (clk 0) kid (Inr k)]"] exI [of _ "clk 0"])
      (cases y, simp add: answers_in_def)
next
  case None
  define clk' where "clk' = (\<lambda>i. clk (Suc i))"
  have mono: "ks_time y \<le> clk' 0" "clk' 0 \<le> clk' 1" "clk' 1 \<le> clk 3"
    using clk monoD [OF clk(2), of 0 1] monoD [OF clk(2), of 1 2] monoD [OF clk(2), of 2 3]
    by (simp_all add: clk'_def numeral_eq_Suc)
  obtain a st1 where a: "begin_refresh jx v kid clk' (ks_cache y) = (a, st1)" by fastforce
  show ?thesis
  proof (cases a)
    case (Some r')
    with key None a have "r' = r" "st1 = st" by (simp_all add: key_lookup_def clk'_def)
    with key_run.step [OF run key_step.answered [OF idle mono(1,2)]] a Some
    have "key_run jx v ([Answered (clk' 0) kid r] @ tr) (y\<lparr>ks_cache := st, ks_time := clk' 0\<rparr>)" by simp
    then show ?thesis using idle
      by (intro exI [of _ "[Answered (clk' 0) kid r]"] exI [of _ "clk' 0"])
        (cases y, simp add: answers_in_def)
  next
    case none: None
    with key None a have f: "finish_refresh jx v kid reply (clk 3) st1 = (r, st)"
      by (simp add: key_lookup_def clk'_def)
    let ?y1 = "y\<lparr>ks_cache := st1, ks_fetching := Some kid, ks_time := clk' 1\<rparr>"
    let ?e1 = "FetchStarted (clk' 1) kid" and ?e2 = "FetchAnswered (clk 3) kid reply r"
    have "key_run jx v (?e1 # tr) ?y1"
      using key_run.step [OF run key_step.fetch [OF idle mono(1,2)]] a none by simp
    from key_run.step [OF this key_step.fetched [of ?y1 kid "clk 3"]] mono(3) f
    have "key_run jx v ([?e2, ?e1] @ tr) (?y1\<lparr>ks_cache := st, ks_fetching := None, ks_time := clk 3\<rparr>)"
      by simp
    then show ?thesis
      by (intro exI [of _ "[?e2, ?e1]"] exI [of _ "clk 3"]) (cases y, simp add: answers_in_def)
  qed
qed

theorem key_lookup_refines_witness:
  "\<exists>es t. key_run sample_jwt sample_verifier (es @ sample_key_trace)
      \<lparr> ks_cache = ks_cache sample_key_system, ks_fetching = None, ks_time = t \<rparr> \<and>
    answers_in es t ''other'' (Inl KeyUnavailable)"
proof -
  have "key_lookup sample_jwt sample_verifier ''other'' (\<lambda>i. i + 2) NoReply (ks_cache sample_key_system) =
      (Inl KeyUnavailable, ks_cache sample_key_system)"
    by code_simp
  from key_lookup_refines [OF sample_key_run _ _ _ this] show ?thesis
    by (simp add: sample_key_system_def mono_def)
qed

text \<open>
  C5: A request passes the gateway middleware only if its host is allowed, its origin, when it
  has one, is allowed, its bearer is the current or the previous secret (of at least 32 bytes),
  and it carries a token signed, for the configured issuer and this server's audience, by a key
  that the identity service published under the token's key id no longer than the cache lifetime
  ago; the token was issued to the configured actor, is at most 270 seconds old and lives at most
  300; the principal the request continues with is the token's subject.
\<close>

theorem requests_authenticated:
  assumes doc: "jwt_documented jx signs issuer audience"
    and bearers: "bearers_from_protected jx current previous = Inr (ia_bearers auth)"
    and run: "key_run jx (ia_verifier auth) tr y"
    and answers: "\<And>kid k. answer kid = Inr k \<Longrightarrow> answers_in tr t kid (Inr k)"
    and passed: "require_gateway jx auth answer decoded_at clock h = Inr p"
  shows "\<exists>host secret token kid k d c s.
    header_value h ''host'' = Some host \<and> to_ascii_lowercase host \<in> set (ia_allowed_hosts auth) \<and>
    (\<forall>origin. header_value h ''origin'' = Some origin \<longrightarrow> origin \<in> set (ia_allowed_origins auth)) \<and>
    header_value h ''authorization'' = Some (''Bearer '' @ secret) \<and>
    (secret = current \<or> previous = Some secret) \<and> 32 \<le> length secret \<and>
    header_value h identity_header = Some token \<and>
    published_key jx (ia_verifier auth) tr t kid k \<and> decoding_key jx k = Some d \<and>
    jwt_header_of jx token = Some \<lparr> jh_alg = EdDSA, jh_kid = Some kid \<rparr> \<and>
    signs d token c \<and> issuer token = is_issuer (ia_verifier auth) \<and>
    mcp_server_name \<in> set (audience token) \<and>
    clock = Some s \<and> claims_fresh (ia_verifier auth) (min (int s) i64_max) c \<and>
    p = \<lparr> pr_subject = ic_sub c, pr_groups = ic_groups c \<rparr>"
  using gateway_passed [OF doc bearers run answers passed] unfolding authenticated_request_def .

theorem requests_authenticated_witness:
  "require_gateway sample_jwt sample_auth (\<lambda>kid. if kid = ''k1'' then Inr ''key'' else Inl KeyUnavailable)
      1100 (Some 1100) sample_headers = Inr \<lparr> pr_subject = ''alice'', pr_groups = [''ops''] \<rparr> \<and>
    published_key sample_jwt sample_verifier sample_key_trace 2 ''k1'' ''key''"
proof -
  let ?answer = "\<lambda>kid. if kid = ''k1'' then Inr ''key'' else Inl KeyUnavailable :: identity_error + string"
  have passed: "require_gateway sample_jwt sample_auth ?answer 1100 (Some 1100) sample_headers =
      Inr \<lparr> pr_subject = ''alice'', pr_groups = [''ops''] \<rparr>"
    by code_simp
  have bearers: "bearers_from_protected sample_jwt sample_bearer None = Inr (ia_bearers sample_auth)"
    by code_simp
  have run: "key_run sample_jwt (ia_verifier sample_auth) sample_key_trace sample_key_system"
    using sample_key_run by (simp add: sample_auth_def)
  have answers: "?answer kid = Inr k \<Longrightarrow> answers_in sample_key_trace 2 kid (Inr k)" for kid k
    by (auto simp: answers_in_def sample_key_trace_def split: if_splits)
  have "\<exists>k. published_key sample_jwt sample_verifier sample_key_trace 2 ''k1'' k"
    using requests_authenticated [OF sample_documented bearers run answers passed]
    by (auto simp: sample_jwt_def sample_auth_def)
  then show ?thesis using passed by (auto simp: published_key_def sample_jwt_def)
qed

end
