(* ===== verification/Server_Lifecycle.thy ===== *)
theory Server_Lifecycle
  imports Server_Calls Server_Auth
begin

text \<open>
  Admission and the lifetime of requests (\<open>crates/komodo-server/src/lifecycle.rs\<close>): the permits
  shared by the transport and the detached handler of a request, the select that answers an
  admitted request, the body that stops when the request's lifetime ends, and the MCP handler
  scoped to the lease and the principal of its request.
\<close>

section \<open>Permits and leases\<close>

text \<open>
  A \<open>RequestLease\<close> owns a permit through an \<open>Arc\<close>. Its owners are the transport (\<open>admit\<close>, then
  \<open>LifetimeBody\<close>) and the copies in the request's extensions, which the MCP library clones into
  detached contexts; the permit returns to the semaphore with the last of them. The transport
  also owns the guard that cancels the lease's token when it is dropped.
\<close>

record lease_entry =
  le_id :: nat
  le_transport :: bool
  le_copies :: nat
  le_cancelled :: bool

record request_limits =
  rl_permits :: nat
  rl_leases :: "lease_entry list"
  rl_next :: nat
  rl_timeout :: nat

definition request_limits_new :: "nat \<Rightarrow> nat \<Rightarrow> request_limits" where
  "request_limits_new limit timeout =
     \<lparr> rl_permits = limit, rl_leases = [], rl_next = 0, rl_timeout = timeout \<rparr>"

text \<open>
  The first part of \<open>admit\<close>: a refusal, or the number of the lease and its budget. \<open>shutdown\<close>
  is the state of the server's token, \<open>token\<close> what the child token shows at each observation.
\<close>

definition service_unavailable :: nat where "service_unavailable = 503"
definition request_timeout :: nat where "request_timeout = 408"

definition begin_admission ::
  "nat \<Rightarrow> bool \<Rightarrow> (nat \<Rightarrow> bool) \<Rightarrow> request_limits \<Rightarrow> (nat + nat \<times> budget) \<times> request_limits" where
  "begin_admission t shutdown token limits =
     (let deadline = t + rl_timeout limits in
      if shutdown then (Inl service_unavailable, limits)
      else if rl_permits limits = 0 then (Inl service_unavailable, limits)
      else (Inr (rl_next limits, \<lparr> eb_deadline = deadline, eb_cancelled = token \<rparr>),
        limits\<lparr>rl_permits := rl_permits limits - 1,
          rl_leases := \<lparr> le_id = rl_next limits, le_transport = True, le_copies = 1,
            le_cancelled = False \<rparr> # rl_leases limits,
          rl_next := Suc (rl_next limits)\<rparr>))"

text \<open>Dropping an owner: the entry goes, and its permit returns, when no owner is left.\<close>

definition unowned :: "lease_entry \<Rightarrow> bool" where
  "unowned l \<longleftrightarrow> \<not> le_transport l \<and> le_copies l = 0"

definition settle :: "request_limits \<Rightarrow> request_limits" where
  "settle limits = limits\<lparr>rl_permits := rl_permits limits + length (filter unowned (rl_leases limits)),
     rl_leases := filter (\<lambda>l. \<not> unowned l) (rl_leases limits)\<rparr>"

definition on_lease :: "nat \<Rightarrow> (lease_entry \<Rightarrow> lease_entry) \<Rightarrow> request_limits \<Rightarrow> request_limits" where
  "on_lease n f limits = limits\<lparr>rl_leases :=
     map (\<lambda>l. if le_id l = n then f l else l) (rl_leases limits)\<rparr>"

definition copy_lease :: "nat \<Rightarrow> request_limits \<Rightarrow> request_limits" where
  "copy_lease n = on_lease n (\<lambda>l. l\<lparr>le_copies := Suc (le_copies l)\<rparr>)"

definition drop_copy :: "nat \<Rightarrow> request_limits \<Rightarrow> request_limits" where
  "drop_copy n limits = settle (on_lease n (\<lambda>l. l\<lparr>le_copies := le_copies l - 1\<rparr>) limits)"

text \<open>
  The transport is done: \<open>admit\<close> returned a response without a body to stream, or was dropped,
  or the \<open>LifetimeBody\<close> was. The drop guard cancels the token.
\<close>

definition end_transport :: "nat \<Rightarrow> request_limits \<Rightarrow> request_limits" where
  "end_transport n limits =
     settle (on_lease n (\<lambda>l. l\<lparr>le_transport := False, le_cancelled := True\<rparr>) limits)"

section \<open>The answer to an admitted request\<close>

text \<open>
  The biased \<open>select!\<close>, one poll after another: the token, the deadline, the service. It may
  be polled forever; \<open>None\<close> then.
\<close>

partial_function (option) select_response ::
  "budget \<Rightarrow> (nat \<Rightarrow> nat) \<Rightarrow> (nat \<Rightarrow> 'r option) \<Rightarrow> nat \<Rightarrow> (nat + 'r) option" where
  "select_response b clk service k =
     (if eb_cancelled b k then Some (Inl service_unavailable)
      else if eb_deadline b \<le> clk k then Some (Inl request_timeout)
      else case service k of
          Some r \<Rightarrow> Some (Inr r)
        | None \<Rightarrow> select_response b clk service (Suc k))"

declare select_response.simps [code]

text \<open>A frame of a \<open>LifetimeBody\<close>: the lifetime is polled before the inner body.\<close>

datatype 'a frame = FrameError | NoFrame | Frame 'a

definition lifetime_poll ::
  "budget \<Rightarrow> (nat \<Rightarrow> nat) \<Rightarrow> nat \<Rightarrow> download_body \<Rightarrow> string frame \<times> download_body" where
  "lifetime_poll b clk k inner =
     (if budget_ended b clk k then (FrameError, inner)
      else case poll_frame inner of
          (None, inner') \<Rightarrow> (NoFrame, inner')
        | (Some f, inner') \<Rightarrow> (Frame f, inner'))"

section \<open>The scoped handler\<close>

text \<open>
  The HTTP parts the MCP library copied into the request context: what \<open>admit\<close> and
  \<open>require_gateway\<close> inserted, and the headers.
\<close>

record request_parts =
  rp_lease :: "budget option"
  rp_principal :: "principal option"
  rp_headers :: headers

record request_context =
  rc_parts :: "request_parts option"
  rc_meta :: obj
  rc_token :: "nat \<Rightarrow> bool"

definition scoped_handler ::
  "file_env \<Rightarrow> transfer_files handler \<Rightarrow> request_context \<Rightarrow> mcp_error + transfer_files handler" where
  "scoped_handler fx h ctx =
     rbind (ok_or (internal_error ''request lifetime unavailable'' None)
       (Option.bind (rc_parts ctx) rp_lease)) (\<lambda>lease.
     rbind (ok_or (internal_error ''verified file owner unavailable'' None)
       (map_option pr_subject (Option.bind (rc_parts ctx) rp_principal))) (\<lambda>owner.
     Inr (with_credential_files owner (transfer_ops fx) (with_execution_budget lease h))))"

definition scoped_call_tool ::
  "env \<Rightarrow> tool_env \<Rightarrow> file_env \<Rightarrow> transfer_files handler \<Rightarrow> request_context \<Rightarrow> transfer_files tool" where
  "scoped_call_tool env te fx h ctx params =
     (case scoped_handler fx h ctx of
        Inl e \<Rightarrow> fail e
      | Inr scoped \<Rightarrow> call_tool env te scoped (rc_token ctx) params)"

text \<open>
  \<open>on_custom_request\<close>. \<open>url_parse\<close> is \<open>Url::parse\<close>, a URL standing for its serialisation;
  \<open>params_as\<close> deserialises the parameters when there are any.
\<close>

definition params_as :: "(json \<Rightarrow> 'a option) \<Rightarrow> json option \<Rightarrow> string \<Rightarrow> mcp_error + 'a" where
  "params_as de params what =
     (case params of
        None \<Rightarrow> Inl (invalid_params (''missing '' @ what @ '' metadata'') None)
      | Some j \<Rightarrow> ok_or (invalid_params (''invalid '' @ what @ '' metadata'') None) (de j))"

definition transfer_method :: "string \<Rightarrow> direction option" where
  "transfer_method m =
     (if m = ''files/authorizeUpload'' then Some Upload
      else if m = ''files/authorizeDownload'' then Some Download else None)"

definition direction_name :: "direction \<Rightarrow> string" where
  "direction_name dir = (case dir of Upload \<Rightarrow> ''upload'' | Download \<Rightarrow> ''download'')"

definition unsupported_method :: mcp_error where
  "unsupported_method = \<lparr> err_code = MethodNotFound, err_message = ''unsupported native file method'',
     err_data = None \<rparr>"

text \<open>Everything before the authorisation itself: the principal's subject and the transfer origin.\<close>

definition file_request ::
  "(string \<Rightarrow> string option) \<Rightarrow> (nat \<Rightarrow> nat) \<Rightarrow> string \<Rightarrow> request_context
    \<Rightarrow> mcp_error + direction \<times> string \<times> string" where
  "file_request url_parse clk m ctx =
     rbind (ok_or unsupported_method (transfer_method m)) (\<lambda>dir.
     rbind (ensure (supports_http (rc_meta ctx) (direction_name dir))
       (invalid_params ''native file authorization requires declared HTTP transfer support'' None)) (\<lambda>_.
     rbind (ok_or (internal_error ''file request context unavailable'' None) (rc_parts ctx)) (\<lambda>parts.
     rbind (ok_or (internal_error ''verified file owner unavailable'' None) (rp_principal parts)) (\<lambda>pr.
     rbind (ok_or (internal_error ''request lifetime unavailable'' None) (rp_lease parts)) (\<lambda>lease.
     rbind (budget_check lease clk 0) (\<lambda>_.
     rbind (ok_or (internal_error ''file transfer origin unavailable'' None)
       (Option.bind (header_value (rp_headers parts) ''host'') header_str)) (\<lambda>host.
     rbind (ok_or (internal_error ''file transfer origin unavailable'' None)
       (url_parse (''http://'' @ host @ ''/''))) (\<lambda>base.
     Inr (dir, pr_subject pr, base)))))))))"

definition on_custom_request ::
  "(string \<Rightarrow> string option) \<Rightarrow> file_env \<Rightarrow> (nat \<Rightarrow> nat) \<Rightarrow> string \<Rightarrow> json option \<Rightarrow> request_context
    \<Rightarrow> transfer_files \<Rightarrow> (mcp_error + json) \<times> transfer_files" where
  "on_custom_request url_parse fx clk m params ctx s =
     (case file_request url_parse clk m ctx of
        Inl e \<Rightarrow> (Inl e, s)
      | Inr (Upload, owner, base) \<Rightarrow>
          (case params_as de_upload_params params ''upload'' of
             Inl e \<Rightarrow> (Inl e, s)
           | Inr p \<Rightarrow> authorize_upload fx (\<lambda>i. clk (Suc i)) owner p base s)
      | Inr (Download, owner, base) \<Rightarrow>
          (case params_as de_download_params params ''download'' of
             Inl e \<Rightarrow> (Inl e, s)
           | Inr p \<Rightarrow> authorize_download fx (\<lambda>i. clk (Suc i)) owner p base s))"

section \<open>The system of admitted requests\<close>

text \<open>
  Requests arrive (and are refused or admitted), copies of a lease are cloned from an owner and
  dropped, transports end. The server's token is never un-cancelled, but nothing below needs it.
\<close>

inductive limits_step :: "request_limits \<Rightarrow> request_limits \<Rightarrow> bool" where
  arrived: "begin_admission t shutdown token y = (r, y') \<Longrightarrow> limits_step y y'"
| copied: "l \<in> set (rl_leases y) \<Longrightarrow> limits_step y (copy_lease (le_id l) y)"
| copy_dropped: "l \<in> set (rl_leases y) \<Longrightarrow> 0 < le_copies l \<Longrightarrow> limits_step y (drop_copy (le_id l) y)"
| transport_ended: "l \<in> set (rl_leases y) \<Longrightarrow> limits_step y (end_transport (le_id l) y)"

inductive limits_reachable :: "nat \<Rightarrow> nat \<Rightarrow> request_limits \<Rightarrow> bool" for limit timeout where
  start: "limits_reachable limit timeout (request_limits_new limit timeout)"
| step: "limits_reachable limit timeout y \<Longrightarrow> limits_step y y' \<Longrightarrow> limits_reachable limit timeout y'"

definition limits_ok :: "nat \<Rightarrow> request_limits \<Rightarrow> bool" where
  "limits_ok limit y \<longleftrightarrow> rl_permits y + length (rl_leases y) = limit \<and>
     distinct (map le_id (rl_leases y)) \<and> (\<forall>l \<in> set (rl_leases y). le_id l < rl_next y) \<and>
     (\<forall>l \<in> set (rl_leases y). \<not> unowned l \<and> (le_transport l \<or> le_cancelled l))"

lemma settle_permits:
  "rl_permits (settle y) + length (rl_leases (settle y)) = rl_permits y + length (rl_leases y)"
  using sum_length_filter_compl [of unowned "rl_leases y"] by (simp add: settle_def)

lemma distinct_map_filter_ids: "distinct (map le_id ls) \<Longrightarrow> distinct (map le_id (filter P ls))"
  by (induction ls) auto

lemma on_lease_ids:
  assumes "\<And>l. le_id (f l) = le_id l"
  shows "map le_id (rl_leases (on_lease n f y)) = map le_id (rl_leases y)"
  using assms by (simp add: on_lease_def comp_def cong: if_cong)

lemma on_lease_simps [simp]:
  "rl_permits (on_lease n f y) = rl_permits y" "rl_next (on_lease n f y) = rl_next y"
  "length (rl_leases (on_lease n f y)) = length (rl_leases y)"
  "rl_next (settle y) = rl_next y"
  by (simp_all add: on_lease_def settle_def)

lemma on_lease_ok:
  assumes ok: "limits_ok limit y" and f: "\<And>l. le_id (f l) = le_id l"
    "\<And>l. le_transport l \<or> le_cancelled l \<Longrightarrow> le_transport (f l) \<or> le_cancelled (f l)"
  shows "limits_ok limit (settle (on_lease n f y))"
proof -
  let ?z = "on_lease n f y"
  have ids: "map le_id (rl_leases ?z) = map le_id (rl_leases y)" by (rule on_lease_ids [OF f(1)])
  then have below: "\<forall>l \<in> set (rl_leases ?z). le_id l < rl_next y"
    using ok f(1) by (auto simp: limits_ok_def on_lease_def)
  have owned: "\<forall>l \<in> set (rl_leases ?z). le_transport l \<or> le_cancelled l"
    using ok f(2) by (auto simp: limits_ok_def on_lease_def)
  have "distinct (map le_id (rl_leases ?z))" using ok ids by (simp add: limits_ok_def)
  then have "distinct (map le_id (rl_leases (settle ?z)))"
    by (simp add: settle_def distinct_map_filter_ids)
  with below owned settle_permits [of ?z] ok show ?thesis
    by (auto simp: limits_ok_def settle_def)
qed

lemma settle_id: "\<forall>l \<in> set (rl_leases y). \<not> unowned l \<Longrightarrow> settle y = y"
  by (simp add: settle_def filter_id_conv)

lemma copy_lease_ok: "limits_ok limit y \<Longrightarrow> limits_ok limit (copy_lease n y)"
proof -
  assume ok: "limits_ok limit y"
  have "settle (copy_lease n y) = copy_lease n y"
    using ok by (intro settle_id) (auto simp: limits_ok_def copy_lease_def on_lease_def unowned_def)
  with on_lease_ok [OF ok, of "\<lambda>l. l\<lparr>le_copies := Suc (le_copies l)\<rparr>" n] show ?thesis
    by (simp add: copy_lease_def)
qed

lemma begin_admission_ok:
  assumes "limits_ok limit y" "begin_admission t shutdown token y = (r, y')"
  shows "limits_ok limit y'"
proof (cases "shutdown \<or> rl_permits y = 0")
  case True
  with assms show ?thesis by (auto simp: begin_admission_def Let_def split: if_splits)
next
  case False
  let ?l = "\<lparr> le_id = rl_next y, le_transport = True, le_copies = 1, le_cancelled = False \<rparr>"
  have y': "y' = y\<lparr>rl_permits := rl_permits y - 1, rl_leases := ?l # rl_leases y, rl_next := Suc (rl_next y)\<rparr>"
    using assms(2) False by (simp add: begin_admission_def Let_def)
  have below: "\<forall>l \<in> set (rl_leases y). le_id l < rl_next y" using assms(1) by (simp add: limits_ok_def)
  then have "rl_next y \<notin> le_id ` set (rl_leases y)" by force
  moreover have "\<forall>l \<in> set (rl_leases y). le_id l < Suc (rl_next y)" using below less_SucI by blast
  ultimately show ?thesis using assms(1) False unfolding y' by (simp add: limits_ok_def unowned_def)
qed

lemma limits_step_ok: "limits_step y y' \<Longrightarrow> limits_ok limit y \<Longrightarrow> limits_ok limit y'"
proof (induction rule: limits_step.induct)
  case (copy_dropped l y)
  then show ?case unfolding drop_copy_def by (intro on_lease_ok) auto
next
  case (transport_ended l y)
  then show ?case unfolding end_transport_def by (intro on_lease_ok) auto
qed (blast intro: begin_admission_ok copy_lease_ok)+

lemma limits_reachable_ok: "limits_reachable limit timeout y \<Longrightarrow> limits_ok limit y"
proof (induction rule: limits_reachable.induct)
  case start
  then show ?case by (simp add: limits_ok_def request_limits_new_def)
qed (rule limits_step_ok)

lemma limits_reachable_timeout: "limits_reachable limit timeout y \<Longrightarrow> rl_timeout y = timeout"
proof (induction rule: limits_reachable.induct)
  case (step y y')
  from step(2,3) show ?case
    by (cases rule: limits_step.cases)
      (auto simp: begin_admission_def Let_def copy_lease_def drop_copy_def end_transport_def
        on_lease_def settle_def split: if_splits)
qed (simp add: request_limits_new_def)

section \<open>Properties\<close>

text \<open>
  C32: Admitted work is bounded. In every reachable state the leases alive, including those only
  a detached handler still holds, and the free permits add up to the limit; a lease that the
  transport no longer holds has been cancelled; and a request is refused exactly when the server
  shuts down or all permits are held by leases that are alive, else it gets its own deadline.
\<close>

theorem admission_bounded:
  assumes "limits_reachable limit timeout y"
  shows "length (rl_leases y) \<le> limit \<and> rl_permits y = limit - length (rl_leases y) \<and>
    (\<forall>l \<in> set (rl_leases y). (le_transport l \<or> 0 < le_copies l) \<and> (le_transport l \<or> le_cancelled l)) \<and>
    fst (begin_admission t shutdown token y) =
      (if shutdown \<or> length (rl_leases y) = limit then Inl 503
       else Inr (rl_next y, \<lparr> eb_deadline = t + timeout, eb_cancelled = token \<rparr>))"
proof -
  have ok: "limits_ok limit y" by (rule limits_reachable_ok [OF assms])
  then have sum: "rl_permits y + length (rl_leases y) = limit" by (simp add: limits_ok_def)
  have "\<forall>l \<in> set (rl_leases y). (le_transport l \<or> 0 < le_copies l) \<and> (le_transport l \<or> le_cancelled l)"
    using ok by (auto simp: limits_ok_def unowned_def)
  with sum limits_reachable_timeout [OF assms] show ?thesis
    by (auto simp: begin_admission_def Let_def service_unavailable_def)
qed

text \<open>One request at the limit, its transport gone, its detached handler still there.\<close>

definition sample_limits :: request_limits where
  "sample_limits = end_transport 0 (snd (begin_admission 0 False (\<lambda>_. False) (request_limits_new 1 5)))"

lemma sample_limits_reachable: "limits_reachable 1 5 sample_limits"
proof -
  let ?y = "snd (begin_admission 0 False (\<lambda>_. False) (request_limits_new 1 5))"
  have "limits_reachable 1 5 ?y"
    by (rule limits_reachable.step [OF limits_reachable.start limits_step.arrived]) (rule prod.collapse [symmetric])
  moreover have "\<lparr> le_id = 0, le_transport = True, le_copies = 1, le_cancelled = False \<rparr> \<in> set (rl_leases ?y)"
    by (simp add: begin_admission_def request_limits_new_def)
  ultimately show ?thesis
    unfolding sample_limits_def using limits_reachable.step [OF _ limits_step.transport_ended] by fastforce
qed

theorem admission_bounded_witness:
  "rl_permits sample_limits = 0 \<and> fst (begin_admission 1 False (\<lambda>_. False) sample_limits) = Inl 503"
proof -
  have "length (rl_leases sample_limits) = 1" by code_simp
  with admission_bounded [OF sample_limits_reachable, of 1 False "\<lambda>_. False"] show ?thesis by simp
qed

section \<open>Every admitted request is answered\<close>

lemma select_response_from:
  assumes "eb_deadline b \<le> clk n" "k \<le> n"
  shows "\<exists>i. k \<le> i \<and> i \<le> n \<and> (\<forall>j. k \<le> j \<and> j < i \<longrightarrow> \<not> budget_ended b clk j \<and> service j = None) \<and>
    (budget_ended b clk i \<or> service i \<noteq> None) \<and>
    select_response b clk service k = Some (if eb_cancelled b i then Inl 503
      else if eb_deadline b \<le> clk i then Inl 408 else Inr (the (service i)))"
  using assms(2)
proof (induction "n - k" arbitrary: k rule: less_induct)
  case less
  show ?case
  proof (cases "budget_ended b clk k \<or> service k \<noteq> None")
    case True
    then show ?thesis using less.prems
      by (intro exI [of _ k]) (auto simp: select_response.simps [of b clk service k] budget_ended_def
          service_unavailable_def request_timeout_def split: option.splits)
  next
    case False
    with assms(1) have "k \<noteq> n" by (auto simp: budget_ended_def split: if_splits)
    with less.prems have "n - Suc k < n - k" "Suc k \<le> n" by auto
    from less.hyps [OF this] obtain i where i: "Suc k \<le> i" "i \<le> n"
      "\<forall>j. Suc k \<le> j \<and> j < i \<longrightarrow> \<not> budget_ended b clk j \<and> service j = None"
      "budget_ended b clk i \<or> service i \<noteq> None"
      "select_response b clk service (Suc k) = Some (if eb_cancelled b i then Inl 503
        else if eb_deadline b \<le> clk i then Inl 408 else Inr (the (service i)))"
      by blast
    have "select_response b clk service k = select_response b clk service (Suc k)"
      using False by (auto simp: select_response.simps [of b clk service k] budget_ended_def split: if_splits)
    moreover have "\<not> budget_ended b clk j \<and> service j = None" if "k \<le> j" "j < i" for j
      using that i(3) False by (cases "j = k") auto
    ultimately show ?thesis using i by (intro exI [of _ i]) auto
  qed
qed

text \<open>
  C33: An admitted request is answered. If its timer wakes it at the latest at the poll \<open>n\<close>, the
  select returns at the first poll at which its lifetime ended or the service had a response,
  at most the \<open>n\<close>-th: with 503 when the token was cancelled, with 408 when the deadline had
  passed, else with the response.
\<close>

theorem admitted_requests_answered:
  assumes "eb_deadline b \<le> clk n"
  shows "\<exists>i \<le> n. (\<forall>j < i. \<not> budget_ended b clk j \<and> service j = None) \<and>
    (budget_ended b clk i \<or> service i \<noteq> None) \<and>
    select_response b clk service 0 = Some (if eb_cancelled b i then Inl 503
      else if eb_deadline b \<le> clk i then Inl 408 else Inr (the (service i)))"
  using select_response_from [where k = 0 and n = n and b = b and clk = clk and service = service] assms
  by auto

theorem admitted_requests_answered_witness:
  "select_response \<lparr> eb_deadline = 2, eb_cancelled = (\<lambda>_. False) \<rparr> (\<lambda>k. k) (\<lambda>k. None :: nat option) 0 =
     Some (Inl 408)"
proof -
  let ?b = "\<lparr> eb_deadline = 2, eb_cancelled = (\<lambda>_. False) \<rparr>"
  from admitted_requests_answered [of ?b "\<lambda>k. k" 2 "\<lambda>k. None :: nat option"]
  show ?thesis by (auto simp: budget_ended_def)
qed

section \<open>Streaming within the lifetime\<close>

text \<open>The frames the transport gets from at most \<open>n\<close> polls, the first at the observation \<open>k\<close>.\<close>

fun lifetime_frames ::
  "budget \<Rightarrow> (nat \<Rightarrow> nat) \<Rightarrow> nat \<Rightarrow> nat \<Rightarrow> download_body \<Rightarrow> string frame list" where
  "lifetime_frames b clk k 0 body = []"
| "lifetime_frames b clk k (Suc n) body =
     (case lifetime_poll b clk k body of
        (Frame f, body') \<Rightarrow> Frame f # lifetime_frames b clk (Suc k) n body'
      | (x, _) \<Rightarrow> [x])"

fun frame_bytes :: "string frame \<Rightarrow> string" where
  "frame_bytes (Frame f) = f"
| "frame_bytes _ = []"

lemma lifetime_frames_prefix:
  "prefix (concat (map frame_bytes (lifetime_frames b clk k n body))) (remaining_bytes body) \<and>
   (NoFrame \<in> set (lifetime_frames b clk k n body) \<longrightarrow>
     concat (map frame_bytes (lifetime_frames b clk k n body)) = remaining_bytes body)"
proof (induction n arbitrary: k body)
  case (Suc n)
  show ?case
  proof (cases "budget_ended b clk k")
    case True
    then show ?thesis by (simp add: lifetime_poll_def)
  next
    case False
    obtain p body' where p: "poll_frame body = (p, body')" by fastforce
    show ?thesis
    proof (cases p)
      case None
      with p have "remaining_bytes body = []" by (auto simp: poll_frame_def Let_def split: if_splits)
      with False p None show ?thesis by (simp add: lifetime_poll_def)
    next
      case (Some f)
      with p have "remaining_bytes body = f @ remaining_bytes body'" by (auto dest: poll_frame_Some(3))
      with False p Some Suc.IH [of "Suc k" body'] show ?thesis by (simp add: lifetime_poll_def)
    qed
  qed
qed simp

lemma lifetime_frames_alive:
  "i < length (lifetime_frames b clk k n body) \<Longrightarrow> lifetime_frames b clk k n body ! i = Frame f \<Longrightarrow>
    \<not> budget_ended b clk (k + i)"
proof (induction n arbitrary: k body i)
  case (Suc n)
  show ?case
  proof (cases "fst (lifetime_poll b clk k body)")
    case (Frame g)
    obtain body' where p: "lifetime_poll b clk k body = (Frame g, body')"
      using Frame by (metis prod.collapse)
    then have "\<not> budget_ended b clk k" by (auto simp: lifetime_poll_def split: if_splits)
    with Suc.prems p Suc.IH [of "i - 1" "Suc k" body'] show ?thesis by (cases i) auto
  qed (use Suc.prems in \<open>auto split: prod.splits\<close>)
qed simp

section \<open>The scoped handler\<close>

lemma scoped_handler_Inr:
  assumes "scoped_handler fx h ctx = Inr scoped"
  obtains parts lease pr where "rc_parts ctx = Some parts" "rp_lease parts = Some lease"
    "rp_principal parts = Some pr"
    "scoped = h\<lparr>h_budget := Some lease, h_files := Some (pr_subject pr, transfer_ops fx)\<rparr>"
  using assms by (auto simp: scoped_handler_def rust_results with_credential_files_def
      with_execution_budget_def Option.bind_eq_Some_conv)

lemma file_request_Inr:
  assumes "file_request url_parse clk m ctx = Inr (dir, owner, base)"
  obtains parts lease pr host where "rc_parts ctx = Some parts" "rp_lease parts = Some lease"
    "rp_principal parts = Some pr" "owner = pr_subject pr" "transfer_method m = Some dir"
    "supports_http (rc_meta ctx) (direction_name dir)" "\<not> budget_ended lease clk 0"
    "header_value (rp_headers parts) ''host'' = Some host" "url_parse (''http://'' @ host @ ''/'') = Some base"
  using assms by (auto simp: file_request_def rust_results Option.bind_eq_Some_conv header_str_def
      split: if_splits)

end
