(* ===== verification/Server_Config.thy ===== *)
theory Server_Config
  imports Server_Auth Server_Calls
begin

text \<open>
  Configuration from the process environment (\<open>crates/komodo-server/src/config.rs\<close>). An
  environment lookup is a function of the variable's name; \<open>Url::parse\<close> is a parameter that
  yields a URL or the message of its error.
\<close>

definition maximum_secret_bytes :: nat where "maximum_secret_bytes = 16 * 1024"

datatype var_error = NotPresent | NotUnicode

type_synonym environment = "string \<Rightarrow> var_error + string"

datatype settings_error =
    MissingVariable string
  | InvalidVariable string string
  | SecretVariable string
  | AuthSettings auth_config_error
  | ApiSettings api_error

section \<open>Secrets\<close>

definition validate_secret :: "string \<Rightarrow> string \<Rightarrow> settings_error + string" where
  "validate_secret variable v =
     (if v = [] \<or> maximum_secret_bytes < length v then Inl (SecretVariable variable) else Inr v)"

definition required_secret :: "environment \<Rightarrow> string \<Rightarrow> settings_error + string" where
  "required_secret en variable =
     rbind (map_err (\<lambda>_. SecretVariable variable) (en variable)) (validate_secret variable)"

definition optional_secret :: "environment \<Rightarrow> string \<Rightarrow> settings_error + string option" where
  "optional_secret en variable =
     (case en variable of
        Inr v \<Rightarrow> if v = [] then Inr None else map_sum id Some (validate_secret variable v)
      | Inl NotPresent \<Rightarrow> Inr None
      | Inl NotUnicode \<Rightarrow> Inl (SecretVariable variable))"

definition admin_key_variable :: string where "admin_key_variable = ''KOMODO_MCP_ADMIN_API_KEY''"
definition admin_secret_variable :: string where
  "admin_secret_variable = ''KOMODO_MCP_ADMIN_API_SECRET''"

definition administrative_credentials :: "environment \<Rightarrow> settings_error + credentials option" where
  "administrative_credentials en =
     rbind (optional_secret en admin_key_variable) (\<lambda>key.
     rbind (optional_secret en admin_secret_variable) (\<lambda>secret.
       case (key, secret) of
         (None, None) \<Rightarrow> Inr None
       | (Some k, Some s) \<Rightarrow> map_err ApiSettings (map_sum id Some (credentials_from_protected k s))
       | (None, Some _) \<Rightarrow> Inl (MissingVariable admin_key_variable)
       | (Some _, None) \<Rightarrow> Inl (MissingVariable admin_secret_variable)))"

section \<open>Values\<close>

text \<open>\<open>optional\<close>.\<close>

definition optional_value :: "environment \<Rightarrow> string \<Rightarrow> string option" where
  "optional_value en variable =
     (case en variable of Inl _ \<Rightarrow> None
      | Inr v \<Rightarrow> let v' = trim v in if v' = [] then None else Some v')"

definition required_value :: "environment \<Rightarrow> string \<Rightarrow> settings_error + string" where
  "required_value en variable = ok_or (MissingVariable variable) (optional_value en variable)"

definition required_unmodified :: "environment \<Rightarrow> string \<Rightarrow> settings_error + string" where
  "required_unmodified en variable = map_err (\<lambda>_. MissingVariable variable) (en variable)"

definition value_or :: "environment \<Rightarrow> string \<Rightarrow> string \<Rightarrow> string" where
  "value_or en variable dflt =
     (case optional_value en variable of None \<Rightarrow> dflt | Some v \<Rightarrow> v)"

text \<open>\<open>str::parse\<close> of an unsigned type with maximum \<open>m\<close>, with the message of its error.\<close>

fun parse_int_digits :: "nat \<Rightarrow> nat \<Rightarrow> string \<Rightarrow> string + nat" where
  "parse_int_digits m acc [] = Inr acc"
| "parse_int_digits m acc (c # cs) =
     (if \<not> is_ascii_digit c then Inl ''invalid digit found in string''
      else let n = 10 * acc + (byte c - 48) in
        if m < n then Inl ''number too large to fit in target type''
        else parse_int_digits m n cs)"

definition parse_int :: "nat \<Rightarrow> string \<Rightarrow> string + nat" where
  "parse_int m s =
     (case s of [] \<Rightarrow> Inl ''cannot parse integer from empty string''
      | c # cs \<Rightarrow>
          if c = CHR ''+'' then
            (if cs = [] then Inl ''invalid digit found in string'' else parse_int_digits m 0 cs)
          else parse_int_digits m 0 s)"

definition parse_number_value ::
  "nat \<Rightarrow> string \<Rightarrow> string option \<Rightarrow> nat \<Rightarrow> nat \<Rightarrow> nat \<Rightarrow> settings_error + nat" where
  "parse_number_value m variable raw dflt minimum maximum =
     rbind (case raw of None \<Rightarrow> Inr dflt | Some r \<Rightarrow> map_err (InvalidVariable variable) (parse_int m r))
       (\<lambda>v. if v < minimum \<or> maximum < v
         then Inl (InvalidVariable variable ''value is outside the supported range'') else Inr v)"

definition parse_number ::
  "nat \<Rightarrow> environment \<Rightarrow> string \<Rightarrow> nat \<Rightarrow> nat \<Rightarrow> nat \<Rightarrow> settings_error + nat" where
  "parse_number m en variable dflt minimum maximum =
     parse_number_value m variable (optional_value en variable) dflt minimum maximum"

definition parse_url :: "(string \<Rightarrow> string + url) \<Rightarrow> string \<Rightarrow> string \<Rightarrow> settings_error + url" where
  "parse_url url_parse variable v = map_err (InvalidVariable variable) (url_parse v)"

definition parse_csv :: "string \<Rightarrow> string list" where
  "parse_csv v = map to_ascii_lowercase (filter (\<lambda>x. x \<noteq> []) (map trim (split_on CHR '','' v)))"

section \<open>Settings\<close>

record read_settings =
  rs_upstream_url :: url
  rs_upstream_timeout :: nat
  rs_credentials :: credentials

definition read_settings_from :: "(string \<Rightarrow> string + url) \<Rightarrow> environment \<Rightarrow> settings_error + read_settings" where
  "read_settings_from url_parse en =
     rbind (required_secret en ''KOMODO_MCP_READ_API_KEY'') (\<lambda>key.
     rbind (required_secret en ''KOMODO_MCP_READ_API_SECRET'') (\<lambda>secret.
     rbind (map_err ApiSettings (credentials_from_protected key secret)) (\<lambda>creds.
     rbind (parse_url url_parse ''KOMODO_MCP_UPSTREAM_URL''
       (value_or en ''KOMODO_MCP_UPSTREAM_URL'' ''http://core:9120/'')) (\<lambda>u.
     rbind (parse_number u64_max en ''KOMODO_MCP_UPSTREAM_TIMEOUT_SECONDS'' 20 1 120) (\<lambda>t.
     Inr \<lparr> rs_upstream_url = u, rs_upstream_timeout = secs t, rs_credentials = creds \<rparr>)))))"

record listener_settings =
  ls_host :: string
  ls_port :: nat

definition listener_from_environment :: "environment \<Rightarrow> settings_error + listener_settings" where
  "listener_from_environment en =
     rbind (parse_number u16_max en ''KOMODO_MCP_PORT'' 8000 1 u16_max) (\<lambda>port.
     Inr \<lparr> ls_host = value_or en ''KOMODO_MCP_HOST'' ''0.0.0.0'', ls_port = port \<rparr>)"

record settings =
  se_host :: string
  se_port :: nat
  se_log_level :: string
  se_upstream_url :: url
  se_upstream_timeout :: nat
  se_read_credentials :: credentials
  se_admin_credentials :: "credentials option"
  se_allowed_hosts :: "string list"
  se_allowed_origins :: "string list"
  se_request_timeout :: nat
  se_max_concurrent_requests :: nat
  se_max_body_bytes :: nat
  se_bearers :: gateway_bearers
  se_identity :: verifier_settings

text \<open>\<open>from_environment_with_admin\<close>; the checks in the order of the code.\<close>

definition settings_from ::
  "('s, 'k, 'd) jwt_env \<Rightarrow> (string \<Rightarrow> string + url) \<Rightarrow> environment \<Rightarrow> bool \<Rightarrow> settings_error + settings" where
  "settings_from jx url_parse en include_admin =
     rbind (listener_from_environment en) (\<lambda>listener.
     rbind (read_settings_from url_parse en) (\<lambda>read.
     rbind (if include_admin then administrative_credentials en else Inr None) (\<lambda>admin.
     rbind (required_secret en ''KOMODO_MCP_GATEWAY_BEARER_CURRENT'') (\<lambda>current.
     rbind (optional_secret en ''KOMODO_MCP_GATEWAY_BEARER_PREVIOUS'') (\<lambda>previous.
     rbind (required_value en ''KOMODO_MCP_IDENTITY_JWKS_URL'') (\<lambda>jwks.
     rbind (parse_url url_parse ''KOMODO_MCP_IDENTITY_JWKS_URL'' jwks) (\<lambda>jwks_url.
     rbind (parse_number u64_max en ''KOMODO_MCP_REQUEST_TIMEOUT_SECONDS'' 30 1 120) (\<lambda>timeout.
     rbind (parse_number u64_max en ''KOMODO_MCP_MAX_CONCURRENT_REQUESTS'' 32 1 256) (\<lambda>concurrent.
     rbind (parse_number u64_max en ''KOMODO_MCP_MAX_BODY_BYTES'' (1024 * 1024) 1024 (4 * 1024 * 1024)) (\<lambda>body.
     rbind (map_err AuthSettings (bearers_from_protected jx current previous)) (\<lambda>bearers.
     rbind (required_value en ''KOMODO_MCP_IDENTITY_ISSUER'') (\<lambda>issuer.
     rbind (required_unmodified en ''KOMODO_MCP_IDENTITY_ACTOR'') (\<lambda>actor.
     Inr \<lparr> se_host = ls_host listener, se_port = ls_port listener,
       se_log_level = value_or en ''KOMODO_MCP_LOG_LEVEL'' ''info'',
       se_upstream_url = rs_upstream_url read, se_upstream_timeout = rs_upstream_timeout read,
       se_read_credentials = rs_credentials read, se_admin_credentials = admin,
       se_allowed_hosts = parse_csv (value_or en ''KOMODO_MCP_ALLOWED_HOSTS''
         ''komodo-mcp,komodo-mcp:8000,localhost,127.0.0.1''),
       se_allowed_origins = parse_csv (case en ''KOMODO_MCP_ALLOWED_ORIGINS'' of Inl _ \<Rightarrow> [] | Inr v \<Rightarrow> v),
       se_request_timeout = secs timeout, se_max_concurrent_requests = concurrent,
       se_max_body_bytes = body, se_bearers = bearers,
       se_identity = \<lparr> is_jwks_url = jwks_url, is_issuer = issuer, is_actor = actor,
         is_request_timeout = secs 3, is_cache_ttl = secs 300 \<rparr> \<rparr>)))))))))))))"

section \<open>Lemmas\<close>

lemma parse_digits_ge: "parse_digits acc ds = Some n \<Longrightarrow> acc \<le> n"
proof -
  assume "parse_digits acc ds = Some n"
  then have "acc * 10 ^ length ds \<le> n" by (rule parse_digits_pow)
  moreover have "acc * 1 \<le> acc * 10 ^ length ds" by (rule mult_le_mono2) simp
  ultimately show ?thesis by linarith
qed

lemma parse_int_digits_iff:
  "parse_int_digits m acc ds = Inr n \<longleftrightarrow> parse_digits acc ds = Some n \<and> (ds = [] \<or> n \<le> m)"
proof (induction ds arbitrary: acc)
  case (Cons c cs)
  let ?a = "10 * acc + (byte c - 48)"
  show ?case
  proof (cases "is_ascii_digit c \<and> ?a \<le> m")
    case True
    then show ?thesis using Cons [of ?a] by (auto simp: Let_def)
  next
    case False
    then show ?thesis using parse_digits_ge [of ?a cs n] by (auto simp: Let_def)
  qed
qed auto

text \<open>The parser agrees with the one the tool inputs use, and reads back every number it shows.\<close>

lemma parse_int_iff: "parse_int m s = Inr n \<longleftrightarrow> parse_unsigned m s = Some n"
proof -
  have u: "(case parse_digits 0 ds of None \<Rightarrow> None | Some k \<Rightarrow> if k \<le> m then Some k else None) = Some n
      \<longleftrightarrow> parse_digits 0 ds = Some n \<and> n \<le> m" for ds
    by (auto split: option.splits)
  show ?thesis
  proof (cases s)
    case (Cons c cs)
    then show ?thesis
      by (simp add: parse_int_def parse_unsigned_def Let_def parse_int_digits_iff u
          del: parse_int_digits.simps parse_digits.simps)
  qed (simp add: parse_int_def parse_unsigned_def)
qed

lemma parse_number_bounds:
  "parse_number m en variable dflt minimum maximum = Inr n \<Longrightarrow> minimum \<le> n \<and> n \<le> maximum"
  by (auto simp: parse_number_def parse_number_value_def rust_results split: if_splits)

lemma validate_secret_Inr [simp]:
  "validate_secret variable v = Inr v' \<longleftrightarrow> v' = v \<and> v \<noteq> [] \<and> length v \<le> 16384"
  by (auto simp: validate_secret_def maximum_secret_bytes_def)

lemma required_secret_Inr:
  "required_secret en variable = Inr v \<longleftrightarrow> en variable = Inr v \<and> v \<noteq> [] \<and> length v \<le> 16384"
  by (auto simp: required_secret_def rust_results)

lemma parse_csv_lower: "x \<in> set (parse_csv v) \<Longrightarrow> to_ascii_lowercase x = x \<and> x \<noteq> []"
  by (auto simp: parse_csv_def to_ascii_lowercase_def)

lemma value_reads:
  assumes "en variable = en' variable"
  shows "optional_value en variable = optional_value en' variable"
    "required_secret en variable = required_secret en' variable"
    "optional_secret en variable = optional_secret en' variable"
    "required_unmodified en variable = required_unmodified en' variable"
  using assms by (simp_all add: optional_value_def required_secret_def optional_secret_def required_unmodified_def)

section \<open>A concrete environment\<close>

definition sample_environment :: environment where
  "sample_environment = (\<lambda>variable. case map_of
     [(''KOMODO_MCP_READ_API_KEY'', ''key''), (''KOMODO_MCP_READ_API_SECRET'', ''secret''),
      (''KOMODO_MCP_GATEWAY_BEARER_CURRENT'', replicate 32 CHR ''s''),
      (''KOMODO_MCP_IDENTITY_JWKS_URL'', ''https://id.example.net/keys''),
      (''KOMODO_MCP_IDENTITY_ISSUER'', ''issuer''), (''KOMODO_MCP_IDENTITY_ACTOR'', ''gateway''),
      (''KOMODO_MCP_PORT'', '' 9000 '')] variable of
        None \<Rightarrow> Inl NotPresent | Some v \<Rightarrow> Inr v)"

definition sample_url_parse :: "string \<Rightarrow> string + url" where
  "sample_url_parse s = Inr (plain_url (if prefix ''https:'' s then ''https'' else ''http'') (HostDomain ''core''))"

definition plain_jwt :: "(unit, unit, unit) jwt_env" where
  "plain_jwt = \<lparr> ct_eq = (\<lambda>a b. a = b), jwt_header_of = (\<lambda>_. None), jwks_of = (\<lambda>_. None),
     jwks_find = (\<lambda>_ _. None), decoding_key = (\<lambda>_. None), jwt_decode = (\<lambda>_ _ _ _. None) \<rparr>"

definition sample_settings :: settings where
  "sample_settings = (case settings_from plain_jwt sample_url_parse sample_environment False of
     Inr s \<Rightarrow> s | Inl _ \<Rightarrow> undefined)"

lemma sample_settings_from:
  "settings_from plain_jwt sample_url_parse sample_environment False = Inr sample_settings"
proof -
  have "is_ok (settings_from plain_jwt sample_url_parse sample_environment False)" by code_simp
  then show ?thesis by (simp add: sample_settings_def is_ok_def split: sum.splits)
qed

section \<open>Properties\<close>

text \<open>
  C38: Accepted settings are within the documented bounds: a port from 1 to 65535, timeouts from
  1 to 120 seconds, 1 to 256 concurrent requests, bodies of 1 KiB to 4 MiB, secrets of 1 byte to
  16 KiB without line breaks, bearers of at least 32 bytes without white space; and allowed
  hosts are in lower case, as the ingress compares them.
\<close>

theorem settings_within_bounds:
  assumes "settings_from jx url_parse en include_admin = Inr s"
  shows "1 \<le> se_port s \<and> se_port s \<le> 65535 \<and>
    secs 1 \<le> se_upstream_timeout s \<and> se_upstream_timeout s \<le> maximum_timeout \<and>
    secs 1 \<le> se_request_timeout s \<and> se_request_timeout s \<le> secs 120 \<and>
    1 \<le> se_max_concurrent_requests s \<and> se_max_concurrent_requests s \<le> 256 \<and>
    1024 \<le> se_max_body_bytes s \<and> se_max_body_bytes s \<le> 4194304 \<and>
    cr_key (se_read_credentials s) \<noteq> [] \<and> cr_secret (se_read_credentials s) \<noteq> [] \<and>
    length (cr_key (se_read_credentials s)) \<le> 16384 \<and> length (cr_secret (se_read_credentials s)) \<le> 16384 \<and>
    list_all (\<lambda>b. byte b \<notin> {10, 13}) (cr_key (se_read_credentials s) @ cr_secret (se_read_credentials s)) \<and>
    validate_bearer (gb_current (se_bearers s)) = Inr () \<and>
    list_all (\<lambda>h. to_ascii_lowercase h = h \<and> h \<noteq> []) (se_allowed_hosts s)"
proof -
  from assms obtain listener read port timeout concurrent body current previous where
    p: "parse_number u16_max en ''KOMODO_MCP_PORT'' 8000 1 u16_max = Inr port" "se_port s = port"
    and r: "read_settings_from url_parse en = Inr read"
      "se_upstream_timeout s = rs_upstream_timeout read" "se_read_credentials s = rs_credentials read"
    and t: "parse_number u64_max en ''KOMODO_MCP_REQUEST_TIMEOUT_SECONDS'' 30 1 120 = Inr timeout"
      "se_request_timeout s = secs timeout"
    and c: "parse_number u64_max en ''KOMODO_MCP_MAX_CONCURRENT_REQUESTS'' 32 1 256 = Inr concurrent"
      "se_max_concurrent_requests s = concurrent"
    and b: "parse_number u64_max en ''KOMODO_MCP_MAX_BODY_BYTES'' (1024 * 1024) 1024 (4 * 1024 * 1024) = Inr body"
      "se_max_body_bytes s = body"
    and g: "bearers_from_protected jx current previous = Inr (se_bearers s)"
    and h: "\<exists>v. se_allowed_hosts s = parse_csv v"
    unfolding settings_from_def listener_from_environment_def by (fastforce simp: rust_results)
  from r(1) obtain key secret u where k: "required_secret en ''KOMODO_MCP_READ_API_KEY'' = Inr key"
    "required_secret en ''KOMODO_MCP_READ_API_SECRET'' = Inr secret"
    "credentials_from_protected key secret = Inr (rs_credentials read)"
    and u: "parse_number u64_max en ''KOMODO_MCP_UPSTREAM_TIMEOUT_SECONDS'' 20 1 120 = Inr u"
      "rs_upstream_timeout read = secs u"
    unfolding read_settings_from_def by (fastforce simp: rust_results)
  from k(3) have "rs_credentials read = \<lparr> cr_key = key, cr_secret = secret \<rparr>"
    by (auto simp: credentials_from_protected_def rust_results)
  with k have keys: "cr_key (rs_credentials read) = key" "cr_secret (rs_credentials read) = secret"
    "key \<noteq> []" "secret \<noteq> []" "length key \<le> 16384" "length secret \<le> 16384"
    "list_all (\<lambda>b. byte b \<notin> {10, 13}) (key @ secret)"
    by (auto simp: required_secret_Inr credentials_from_protected_def validate_api_secret_def rust_results)
  have hosts: "list_all (\<lambda>h. to_ascii_lowercase h = h \<and> h \<noteq> []) (se_allowed_hosts s)"
    using h by (auto simp: list_all_iff dest: parse_csv_lower)
  have bearer: "validate_bearer (gb_current (se_bearers s)) = Inr ()"
    using bearers_from_protected_Inr(1,2) [OF g] by simp
  note bounds = parse_number_bounds [OF p(1)] parse_number_bounds [OF t(1)]
    parse_number_bounds [OF c(1)] parse_number_bounds [OF b(1)] parse_number_bounds [OF u(1)]
  show ?thesis
    unfolding p(2) r(2,3) t(2) c(2) b(2) u(2) keys(1,2)
    using bounds keys(3-7) hosts bearer by (simp add: u16_max_def maximum_timeout_def secs_def)
qed

theorem settings_within_bounds_witness:
  "se_port sample_settings = 9000 \<and> se_max_concurrent_requests sample_settings \<le> 256"
proof -
  have "(case settings_from plain_jwt sample_url_parse sample_environment False of
      Inr s \<Rightarrow> se_port s = 9000 | Inl _ \<Rightarrow> False)" by code_simp
  with settings_within_bounds [OF sample_settings_from] show ?thesis
    by (simp add: sample_settings_from)
qed

text \<open>
  A read-only process does not look at the administrative credentials: environments that
  differ in those two variables only give the same settings, or the same error, and the settings
  hold no administrative credentials.
\<close>

theorem read_only_settings_ignore_admin:
  assumes "\<And>variable. variable \<noteq> admin_key_variable \<Longrightarrow> variable \<noteq> admin_secret_variable \<Longrightarrow>
    en variable = en' variable"
  shows "settings_from jx url_parse en False = settings_from jx url_parse en' False \<and>
    (\<forall>s. settings_from jx url_parse en False = Inr s \<longrightarrow> se_admin_credentials s = None)"
proof
  note names = admin_key_variable_def admin_secret_variable_def
  have eq: "en ''KOMODO_MCP_PORT'' = en' ''KOMODO_MCP_PORT''"
    "en ''KOMODO_MCP_HOST'' = en' ''KOMODO_MCP_HOST''"
    "en ''KOMODO_MCP_READ_API_KEY'' = en' ''KOMODO_MCP_READ_API_KEY''"
    "en ''KOMODO_MCP_READ_API_SECRET'' = en' ''KOMODO_MCP_READ_API_SECRET''"
    "en ''KOMODO_MCP_UPSTREAM_URL'' = en' ''KOMODO_MCP_UPSTREAM_URL''"
    "en ''KOMODO_MCP_UPSTREAM_TIMEOUT_SECONDS'' = en' ''KOMODO_MCP_UPSTREAM_TIMEOUT_SECONDS''"
    "en ''KOMODO_MCP_GATEWAY_BEARER_CURRENT'' = en' ''KOMODO_MCP_GATEWAY_BEARER_CURRENT''"
    "en ''KOMODO_MCP_GATEWAY_BEARER_PREVIOUS'' = en' ''KOMODO_MCP_GATEWAY_BEARER_PREVIOUS''"
    "en ''KOMODO_MCP_IDENTITY_JWKS_URL'' = en' ''KOMODO_MCP_IDENTITY_JWKS_URL''"
    "en ''KOMODO_MCP_REQUEST_TIMEOUT_SECONDS'' = en' ''KOMODO_MCP_REQUEST_TIMEOUT_SECONDS''"
    "en ''KOMODO_MCP_MAX_CONCURRENT_REQUESTS'' = en' ''KOMODO_MCP_MAX_CONCURRENT_REQUESTS''"
    "en ''KOMODO_MCP_MAX_BODY_BYTES'' = en' ''KOMODO_MCP_MAX_BODY_BYTES''"
    "en ''KOMODO_MCP_IDENTITY_ISSUER'' = en' ''KOMODO_MCP_IDENTITY_ISSUER''"
    "en ''KOMODO_MCP_IDENTITY_ACTOR'' = en' ''KOMODO_MCP_IDENTITY_ACTOR''"
    "en ''KOMODO_MCP_LOG_LEVEL'' = en' ''KOMODO_MCP_LOG_LEVEL''"
    "en ''KOMODO_MCP_ALLOWED_HOSTS'' = en' ''KOMODO_MCP_ALLOWED_HOSTS''"
    "en ''KOMODO_MCP_ALLOWED_ORIGINS'' = en' ''KOMODO_MCP_ALLOWED_ORIGINS''"
    by (rule assms, simp_all add: names)+
  show "settings_from jx url_parse en False = settings_from jx url_parse en' False"
    unfolding settings_from_def listener_from_environment_def read_settings_from_def parse_number_def
      value_or_def required_value_def optional_value_def required_secret_def optional_secret_def
      required_unmodified_def eq
    by simp
  show "\<forall>s. settings_from jx url_parse en False = Inr s \<longrightarrow> se_admin_credentials s = None"
  proof (intro allI impI)
    fix s
    assume "settings_from jx url_parse en False = Inr s"
    then show "se_admin_credentials s = None"
      unfolding settings_from_def by (simp only: rbind_Inr_iff if_False sum.inject) (elim exE conjE, auto)
  qed
qed

theorem read_only_settings_ignore_admin_witness:
  "se_admin_credentials sample_settings = None \<and>
   settings_from plain_jwt sample_url_parse
     (sample_environment(admin_key_variable := Inr ''admin'')) False = Inr sample_settings"
proof -
  have "sample_environment variable = (sample_environment(admin_key_variable := Inr ''admin'')) variable"
    if "variable \<noteq> admin_key_variable" "variable \<noteq> admin_secret_variable" for variable
    using that by simp
  from read_only_settings_ignore_admin [of sample_environment
      "sample_environment(admin_key_variable := Inr ''admin'')" plain_jwt sample_url_parse, OF this]
  show ?thesis by (simp add: sample_settings_from)
qed

end
