(* ===== verification/Server_Router.thy ===== *)
theory Server_Router
  imports Server_Config Server_Lifecycle Server_Identity
begin

text \<open>
  The composition of the server (\<open>server.rs\<close>) and the process around it (\<open>main.rs\<close>,
  \<open>lib.rs\<close>): which settings and clients a process has, the layers of the MCP route and of the
  transfer route in their order, health, and what the whole guarantees. The MCP library's HTTP
  service is outside: a request that passes every layer is handed to it with its parts and body.
\<close>

section \<open>The process\<close>

datatype start_error =
    StartSettings settings_error
  | StartLogFilter
  | StartClient api_error
  | StartIdentity auth_config_error
  | StartAddress

text \<open>Which profiles read the administrative credentials.\<close>

definition profile_writes :: "tool_profile \<Rightarrow> bool" where
  "profile_writes profile = (case profile of
     tool_profile.Status \<Rightarrow> False | ReadOnly \<Rightarrow> False | Operations \<Rightarrow> True | Full \<Rightarrow> True)"

text \<open>
  The clients and the handler over them; \<open>built\<close> says whether the HTTP client builder succeeds.
\<close>

definition process_handler ::
  "bool \<Rightarrow> url \<Rightarrow> nat \<Rightarrow> credentials \<Rightarrow> credentials option \<Rightarrow> tool_profile \<Rightarrow> start_error + 'f handler" where
  "process_handler built u timeout creds admin profile =
     rbind (map_err StartClient (client_new built ReadClient u creds timeout)) (\<lambda>read.
     rbind (case admin of
         Some c \<Rightarrow> rbind (map_err StartClient (client_new built AdminClient u c timeout))
           (\<lambda>a. Inr (handler_new read a))
       | None \<Rightarrow> Inr (handler_read_only read)) (\<lambda>h.
     Inr (with_tool_profile profile h)))"

definition http_settings ::
  "('s, 'k, 'd) jwt_env \<Rightarrow> (string \<Rightarrow> string + url) \<Rightarrow> environment \<Rightarrow> tool_profile \<Rightarrow> start_error + settings" where
  "http_settings jx url_parse en profile =
     map_err StartSettings (settings_from jx url_parse en (profile_writes profile))"

definition http_handler ::
  "('s, 'k, 'd) jwt_env \<Rightarrow> (string \<Rightarrow> string + url) \<Rightarrow> (string \<Rightarrow> bool) \<Rightarrow> bool \<Rightarrow> environment
    \<Rightarrow> tool_profile \<Rightarrow> start_error + settings \<times> 'f handler" where
  "http_handler jx url_parse log_filter built en profile =
     rbind (http_settings jx url_parse en profile) (\<lambda>s.
     rbind (ensure (log_filter (se_log_level s)) StartLogFilter) (\<lambda>_.
     rbind (process_handler built (se_upstream_url s) (se_upstream_timeout s) (se_read_credentials s)
       (se_admin_credentials s) profile) (\<lambda>h.
     Inr (s, h))))"

text \<open>\<open>serve_stdio\<close>: no gateway settings, no file service.\<close>

definition stdio_handler ::
  "(string \<Rightarrow> string + url) \<Rightarrow> bool \<Rightarrow> environment \<Rightarrow> tool_profile \<Rightarrow> start_error + 'f handler" where
  "stdio_handler url_parse built en profile =
     rbind (map_err StartSettings (read_settings_from url_parse en)) (\<lambda>s.
     rbind (if profile_writes profile then map_err StartSettings (administrative_credentials en)
       else Inr None) (\<lambda>admin.
     process_handler built (rs_upstream_url s) (rs_upstream_timeout s) (rs_credentials s) admin profile))"

text \<open>
  The listener's address, and the address a container's health check connects to: an unspecified
  listen address is reached through the loopback one. \<open>ip_parse\<close> is \<open>str::parse::<IpAddr>\<close>.
\<close>

definition listener_address :: "(string \<Rightarrow> host option) \<Rightarrow> string \<Rightarrow> nat \<Rightarrow> start_error + host \<times> nat" where
  "listener_address ip_parse h port = rbind (ok_or StartAddress (ip_parse h)) (\<lambda>ip. Inr (ip, port))"

definition healthcheck_host :: "host \<Rightarrow> host" where
  "healthcheck_host ip = (case ip of
       HostIpv4 a \<Rightarrow> if a = \<lparr> octet_a = 0, octet_b = 0, octet_c = 0, octet_d = 0 \<rparr>
         then HostIpv4 \<lparr> octet_a = 127, octet_b = 0, octet_c = 0, octet_d = 1 \<rparr> else ip
     | HostIpv6 a \<Rightarrow> if segments a = replicate 8 0
         then HostIpv6 \<lparr> segments = [0, 0, 0, 0, 0, 0, 0, 1] \<rparr> else ip
     | HostDomain d \<Rightarrow> ip)"

text \<open>The gateway manifest: a fixed scaffold, then one entry per tool of the profile.\<close>

definition text_lines :: "string list \<Rightarrow> string" where
  "text_lines ls = concat (map (\<lambda>l. l @ [CHR 0x0A]) ls)"

definition scaffold_lines :: "string list" where
  "scaffold_lines =
     [''# Incomplete connection scaffold: operator policy is required.'',
      ''# Select classification authority and configure authorization,'',
      ''# disclosure, risk, and approvals in the gateway control plane.'',
      ''name: komodo'', ''transport: http'', ''url: http://komodo-mcp:8000/mcp'', ''auth:'',
      ''  bearer_env: MCP_GATEWAY_UPSTREAM_BEARER_KOMODO'', ''session:'',
      ''  isolation: per_call'', ''tools:'']"

definition manifest_scaffold :: string where
  "manifest_scaffold = text_lines scaffold_lines"

definition gateway_manifest_for_profile :: "tool_profile \<Rightarrow> string" where
  "gateway_manifest_for_profile profile = manifest_scaffold @
     concat (map (\<lambda>spec. ''  - name: '' @ spec_name spec @ [CHR 0x0A]) (list_tools_for_profile profile))"

definition gateway_manifest :: string where
  "gateway_manifest = gateway_manifest_for_profile Full"

text \<open>The tool identities of the exported contract.\<close>

definition contract_tool_names :: "tool_profile \<Rightarrow> string list" where
  "contract_tool_names profile =
     map (\<lambda>spec. ''komodo.'' @ spec_name spec) (list_tools_for_profile profile)"

text \<open>A reader of the manifest finds exactly the tools of the profile, in order.\<close>

definition manifest_names :: "string \<Rightarrow> string list" where
  "manifest_names m = List.map_filter (strip_prefix ''  - name: '') (split_on (CHR 0x0A) m)"

lemma split_text_lines:
  "list_all (\<lambda>l. CHR 0x0A \<notin> set l) ls \<Longrightarrow> split_on (CHR 0x0A) (text_lines ls) = ls @ [[]]"
  by (induction ls) (simp_all add: text_lines_def split_on_free_append)

lemma map_filter_entries:
  "List.map_filter (strip_prefix p) (map (\<lambda>x. p @ f x) xs) = map f xs"
  by (induction xs) (simp_all add: List.map_filter_simps strip_prefix_append)

lemma map_filter_append: "List.map_filter f (xs @ ys) = List.map_filter f xs @ List.map_filter f ys"
  by (simp add: List.map_filter_def)

lemma manifest_lists_tools:
  "manifest_names (gateway_manifest_for_profile profile) = map spec_name (list_tools_for_profile profile)"
proof -
  have scaffold: "list_all (\<lambda>l. CHR 0x0A \<notin> set l) scaffold_lines"
    "List.map_filter (strip_prefix ''  - name: '') scaffold_lines = []"
    by code_simp+
  have "list_all (\<lambda>s. CHR 0x0A \<notin> set (spec_name s)) tool_registry" by code_simp
  then have names: "list_all (\<lambda>s. CHR 0x0A \<notin> set (spec_name s)) (list_tools_for_profile profile)"
    by (simp add: list_tools_for_profile_def list_all_iff)
  let ?entries = "map (\<lambda>s. ''  - name: '' @ spec_name s) (list_tools_for_profile profile)"
  have "gateway_manifest_for_profile profile = text_lines (scaffold_lines @ ?entries)"
    by (simp add: gateway_manifest_for_profile_def manifest_scaffold_def text_lines_def comp_def)
  moreover have "list_all (\<lambda>l. CHR 0x0A \<notin> set l) (scaffold_lines @ ?entries)"
    using scaffold(1) names by (auto simp: list_all_iff)
  ultimately have lines: "split_on (CHR 0x0A) (gateway_manifest_for_profile profile) = scaffold_lines @ ?entries @ [[]]"
    using split_text_lines by simp
  have "List.map_filter (strip_prefix ''  - name: '') [[]] = []"
    by (simp add: List.map_filter_simps strip_prefix_def)
  with scaffold(2) show ?thesis
    by (simp only: manifest_names_def lines map_filter_append map_filter_entries) simp
qed

text \<open>What the process does, by the first flag that is set in the order of \<open>run\<close>.\<close>

record arguments =
  ar_stdio :: bool
  ar_healthcheck :: bool
  ar_emit_gateway_manifest :: bool
  ar_emit_tools_json :: bool
  ar_emit_gateway_contract_json :: bool
  ar_tool_profile :: tool_profile

datatype run_mode = EmitContract | EmitTools | EmitManifest | Healthcheck | ServeStdio | ServeHttp

definition run_mode_of :: "arguments \<Rightarrow> run_mode" where
  "run_mode_of a =
     (if ar_emit_gateway_contract_json a then EmitContract
      else if ar_emit_tools_json a then EmitTools
      else if ar_emit_gateway_manifest a then EmitManifest
      else if ar_healthcheck a then Healthcheck
      else if ar_stdio a then ServeStdio
      else ServeHttp)"

section \<open>The router\<close>

record 's router =
  ro_auth :: ingress_auth
  ro_keys :: "'s key_cache"
  ro_files :: transfer_files
  ro_limits :: request_limits
  ro_max_body :: nat

definition build_router :: "bool \<Rightarrow> settings \<Rightarrow> auth_config_error + 's router" where
  "build_router built s =
     rbind (verifier_new built (se_identity s)) (\<lambda>(v, keys).
     Inr \<lparr> ro_auth = \<lparr> ia_bearers = se_bearers s, ia_verifier = v,
           ia_allowed_hosts = se_allowed_hosts s, ia_allowed_origins = se_allowed_origins s \<rparr>,
         ro_keys = keys, ro_files = default_transfer_files,
         ro_limits = request_limits_new (se_max_concurrent_requests s) (se_request_timeout s),
         ro_max_body = se_max_body_bytes s \<rparr>)"

text \<open>A request: its headers, the chunks of its body and whether the body ended cleanly.\<close>

record incoming =
  in_headers :: headers
  in_body :: "string list"
  in_complete :: bool

text \<open>\<open>axum::body::to_bytes\<close> with a limit, and the layer around it.\<close>

definition body_within :: "nat \<Rightarrow> string list \<Rightarrow> bool \<Rightarrow> string option" where
  "body_within limit chunks complete =
     (if complete \<and> length (concat chunks) \<le> limit then Some (concat chunks) else None)"

definition enforce_body_limit :: "nat \<Rightarrow> incoming \<Rightarrow> nat + string" where
  "enforce_body_limit limit rq = ok_or 413 (body_within limit (in_body rq) (in_complete rq))"

datatype routed = Refused nat | Served nat request_parts string

text \<open>
  The MCP route: \<open>admit\<close> outermost, then \<open>require_gateway\<close>, then the body limit. The owners of
  the lease of a refused request are dropped later, as steps of the limits.
\<close>

definition mcp_route ::
  "('s, 'k, 'd) jwt_env \<Rightarrow> nat \<Rightarrow> bool \<Rightarrow> (nat \<Rightarrow> bool) \<Rightarrow> (string \<Rightarrow> identity_error + 'k) \<Rightarrow> int
    \<Rightarrow> nat option \<Rightarrow> incoming \<Rightarrow> 's router \<Rightarrow> routed \<times> 's router" where
  "mcp_route jx t shutdown token answer decoded_at clock rq ro =
     (case begin_admission t shutdown token (ro_limits ro) of
        (Inl status, limits) \<Rightarrow> (Refused status, ro\<lparr>ro_limits := limits\<rparr>)
      | (Inr (n, lease), limits) \<Rightarrow>
          ((case require_gateway jx (ro_auth ro) answer decoded_at clock (in_headers rq) of
              Inl (status, _) \<Rightarrow> Refused status
            | Inr p \<Rightarrow>
                (case enforce_body_limit (ro_max_body ro) rq of
                   Inl status \<Rightarrow> Refused status
                 | Inr bytes \<Rightarrow> Served n
                     \<lparr> rp_lease = Some lease, rp_principal = Some p, rp_headers = in_headers rq \<rparr> bytes)),
           ro\<lparr>ro_limits := limits\<rparr>))"

text \<open>The transfer route: \<open>authenticate_transfer\<close> outermost, then \<open>admit\<close>, then the handlers.\<close>

definition transfers_route ::
  "file_env \<Rightarrow> (nat \<Rightarrow> nat) \<Rightarrow> nat \<Rightarrow> bool \<Rightarrow> (nat \<Rightarrow> bool) \<Rightarrow> transfer_request \<Rightarrow> 's router
    \<Rightarrow> (unit exn + transfer_response) \<times> 's router" where
  "transfers_route fx clk t shutdown token rq ro =
     (case authenticate_transfer fx clk rq (ro_files ro) of
        (Inl status, s) \<Rightarrow> (Inr (Status status), ro\<lparr>ro_files := s\<rparr>)
      | (Inr (dir, fid), s) \<Rightarrow>
          (case begin_admission t shutdown token (ro_limits ro) of
             (Inl status, limits) \<Rightarrow> (Inr (Status status), ro\<lparr>ro_files := s, ro_limits := limits\<rparr>)
           | (Inr (n, lease), limits) \<Rightarrow>
               (let admitted = rq\<lparr>tq_budget := Some lease\<rparr> in
                case dir of
                  Upload \<Rightarrow> (case upload_http fx (\<lambda>i. clk (2 + i)) fid admitted s of
                      (r, s') \<Rightarrow> (r, ro\<lparr>ro_files := s', ro_limits := limits\<rparr>))
                | Download \<Rightarrow> (case download_http fx (\<lambda>i. clk (2 + i)) fid admitted s of
                      (r, s') \<Rightarrow> (Inr r, ro\<lparr>ro_files := s', ro_limits := limits\<rparr>)))))"

definition healthz :: "string \<Rightarrow> nat \<times> json" where
  "healthz version = (200, JObj [(''status'', JStr ''ok''), (''version'', JStr version)])"

definition readyz :: "bool \<Rightarrow> nat" where
  "readyz shutdown = (if shutdown then service_unavailable else 200)"

section \<open>What a read-only process can do\<close>

lemma process_handler_Inr:
  assumes "process_handler built u timeout creds admin profile = Inr h"
  shows "cl_credentials (h_read h) = creds" "admin = None \<Longrightarrow> h_admin h = None"
    "h_profile h = profile" "h_files h = None" "h_budget h = None"
  using assms by (auto simp: process_handler_def client_new_def handler_new_def handler_read_only_def
      with_tool_profile_def rust_results split: option.splits)

lemma read_only_handler_reads:
  assumes "h_admin h = None"
  shows "\<exists>rs. sent (snd (call_tool env te h ct params w)) = sent w @ rs \<and>
    list_all (\<lambda>r. rq_family r = ''read'' \<and> rq_credentials r = cl_credentials (h_read h)) rs"
proof (cases "find_spec (h_admin h \<noteq> None) (h_profile h) (cp_name params)")
  case None
  with call_tool_reads [where h = h and env = env and te = te and ct = ct and params = params and w = w]
  show ?thesis by (intro exI [of _ "[]"]) simp
next
  case (Some spec)
  then have "read_only (spec_behavior spec)"
    using find_spec_SomeD [OF Some] assms by (simp add: handler_permits_def)
  with call_tool_reads [where h = h and env = env and te = te and ct = ct and params = params and w = w] Some
  show ?thesis by simp
qed

lemma scoped_read_only:
  assumes "h_admin h = None"
  shows "\<exists>rs. sent (snd (scoped_call_tool env te fx h ctx params w)) = sent w @ rs \<and>
    list_all (\<lambda>r. rq_family r = ''read'' \<and> rq_credentials r = cl_credentials (h_read h)) rs"
proof (cases "scoped_handler fx h ctx")
  case (Inl e)
  then show ?thesis by (simp add: scoped_call_tool_def fail_def)
next
  case (Inr scoped)
  then have "h_admin scoped = None" "h_read scoped = h_read h"
    using assms by (auto elim!: scoped_handler_Inr)
  with read_only_handler_reads [of scoped env te "rc_token ctx" params w] Inr show ?thesis
    by (simp add: scoped_call_tool_def)
qed

text \<open>
  C3: A process started with the profile \<open>status\<close> or \<open>read-only\<close>, over HTTP or over stdio,
  never submits a mutation: every call of every tool, whatever its arguments and whatever the
  administrative credentials in the environment, sends requests of the \<open>read\<close> family only, under
  the read credentials of the environment.
\<close>

theorem read_only_process_never_mutates:
  assumes "profile = tool_profile.Status \<or> profile = ReadOnly"
    and "http_handler jx url_parse log_filter built en profile = Inr (s, h) \<and>
        m = scoped_call_tool env te fx h ctx params \<or>
      stdio_handler url_parse built en profile = Inr h \<and> m = call_tool env te h ct params"
  shows "\<exists>key secret rs. en ''KOMODO_MCP_READ_API_KEY'' = Inr key \<and>
    en ''KOMODO_MCP_READ_API_SECRET'' = Inr secret \<and>
    sent (snd (m w)) = sent w @ rs \<and>
    list_all (\<lambda>r. rq_family r = ''read'' \<and>
      rq_credentials r = \<lparr> cr_key = key, cr_secret = secret \<rparr>) rs"
proof -
  have reads: "\<not> profile_writes profile" using assms(1) by (auto simp: profile_writes_def)
  have creds: "\<exists>key secret. en ''KOMODO_MCP_READ_API_KEY'' = Inr key \<and>
      en ''KOMODO_MCP_READ_API_SECRET'' = Inr secret \<and> rs_credentials rd = \<lparr> cr_key = key, cr_secret = secret \<rparr>"
    if "read_settings_from url_parse en = Inr rd" for rd
    using that by (auto simp: read_settings_from_def rust_results required_secret_Inr credentials_from_protected_def)
  from assms(2) obtain rd u timeout where rd: "read_settings_from url_parse en = Inr rd"
    and h: "process_handler built u timeout (rs_credentials rd) None profile = Inr h"
  proof (elim disjE conjE)
    assume "http_handler jx url_parse log_filter built en profile = Inr (s, h)"
    then have st: "settings_from jx url_parse en False = Inr s"
      and h: "process_handler built (se_upstream_url s) (se_upstream_timeout s) (se_read_credentials s)
        (se_admin_credentials s) profile = Inr h"
      using reads by (auto simp: http_handler_def http_settings_def rust_results)
    from st obtain rd where "read_settings_from url_parse en = Inr rd"
      "se_read_credentials s = rs_credentials rd" "se_admin_credentials s = None"
      unfolding settings_from_def by (simp only: rbind_Inr_iff if_False sum.inject) (elim exE conjE, auto)
    with h that show thesis by simp
  next
    assume "stdio_handler url_parse built en profile = Inr h"
    with reads that show thesis by (auto simp: stdio_handler_def rust_results)
  qed
  note hd = process_handler_Inr(1) [OF h] process_handler_Inr(2) [OF h refl]
  have "\<exists>rs. sent (snd (m w)) = sent w @ rs \<and>
      list_all (\<lambda>r. rq_family r = ''read'' \<and> rq_credentials r = cl_credentials (h_read h)) rs"
    using assms(2) scoped_read_only [OF hd(2)] read_only_handler_reads [OF hd(2)] by auto
  with creds [OF rd] hd(1) show ?thesis by auto
qed

text \<open>A read-only process over the sample environment, with administrative credentials set too.\<close>

definition sample_admin_environment :: environment where
  "sample_admin_environment = sample_environment
     (admin_key_variable := Inr ''admin'', admin_secret_variable := Inr ''adminsecret'')"

definition sample_stdio :: "transfer_files handler" where
  "sample_stdio = (case stdio_handler sample_url_parse True sample_admin_environment ReadOnly of
     Inr h \<Rightarrow> h | Inl _ \<Rightarrow> handler_read_only sample_client)"

lemma sample_stdio_handler:
  "stdio_handler sample_url_parse True sample_admin_environment ReadOnly = Inr sample_stdio"
proof -
  have "is_ok (stdio_handler sample_url_parse True sample_admin_environment ReadOnly :: _ + transfer_files handler)"
    by code_simp
  then show ?thesis by (simp add: sample_stdio_def is_ok_def split: sum.splits)
qed

theorem read_only_process_never_mutates_witness:
  "\<exists>rs. sent (snd (call_tool sample_core sample_tools sample_stdio (\<lambda>_. False) (sample_call ''stacks.status'')
      (initial_world default_transfer_files))) = rs \<and>
    list_all (\<lambda>r. rq_family r = ''read'' \<and>
      rq_credentials r = \<lparr> cr_key = ''key'', cr_secret = ''secret'' \<rparr>) rs"
proof -
  have env: "sample_admin_environment ''KOMODO_MCP_READ_API_KEY'' = Inr ''key''"
    "sample_admin_environment ''KOMODO_MCP_READ_API_SECRET'' = Inr ''secret''"
    by code_simp+
  from read_only_process_never_mutates [of ReadOnly plain_jwt sample_url_parse "\<lambda>_. True" True
      sample_admin_environment undefined sample_stdio
      "call_tool sample_core sample_tools sample_stdio (\<lambda>_. False) (sample_call ''stacks.status'')"
      sample_core sample_tools undefined undefined "sample_call ''stacks.status''" "\<lambda>_. False"
      "initial_world default_transfer_files"]
  show ?thesis by (simp add: sample_stdio_handler env) (simp add: initial_world_def)
qed

section \<open>The transfer route\<close>

lemma authenticate_transfer_budget:
  "authenticate_transfer fx clk (rq\<lparr>tq_budget := b\<rparr>) s = authenticate_transfer fx clk rq s"
  by (cases "direction_of (tq_method rq)") (simp_all add: authenticate_transfer_def)

text \<open>The router's route is that of the store, for the request under the budget of its lease.\<close>

lemma transfers_route_leased:
  assumes "transfers_route fx clk t shutdown token rq ro = (r, ro')"
  shows "\<exists>lease. transfer_route fx clk (rq\<lparr>tq_budget := lease\<rparr>) (ro_files ro) = (r, ro_files ro') \<and>
    (\<forall>b. lease = Some b \<longrightarrow> b = \<lparr> eb_deadline = t + rl_timeout (ro_limits ro), eb_cancelled = token \<rparr>)"
proof (cases "authenticate_transfer fx clk rq (ro_files ro)")
  case (Pair a s)
  note auth = Pair
  show ?thesis
  proof (cases a)
    case (Inl status)
    with assms auth show ?thesis
      by (intro exI [of _ None]) (auto simp: transfers_route_def transfer_route_def authenticate_transfer_budget)
  next
    case (Inr p)
    obtain dir fid where p: "p = (dir, fid)" by fastforce
    obtain q limits where adm: "begin_admission t shutdown token (ro_limits ro) = (q, limits)" by fastforce
    show ?thesis
    proof (cases q)
      case (Inl status)
      then have "status = 503"
        using adm by (auto simp: begin_admission_def Let_def service_unavailable_def split: if_splits)
      with assms auth Inr p adm Inl show ?thesis
        by (intro exI [of _ None])
          (auto simp: transfers_route_def transfer_route_def authenticate_transfer_budget
            upload_http_def download_http_def split: direction.splits)
    next
      case (Inr nb)
      obtain n b where nb: "nb = (n, b)" by fastforce
      have b: "b = \<lparr> eb_deadline = t + rl_timeout (ro_limits ro), eb_cancelled = token \<rparr>"
        using adm Inr nb by (auto simp: begin_admission_def Let_def split: if_splits)
      have "transfer_route fx clk (rq\<lparr>tq_budget := Some b\<rparr>) (ro_files ro) = (r, ro_files ro')"
        using assms auth \<open>a = Inr p\<close> p adm Inr nb
        by (auto simp: transfers_route_def transfer_route_def authenticate_transfer_budget Let_def
            split: direction.splits prod.splits)
      with b show ?thesis by (intro exI [of _ "Some b"]) simp
    qed
  qed
qed

text \<open>
  C35: The transfer route of the router, with admission between the bearer check and the handlers,
  refines the transfer system: whatever it answers and does to the files is a step of that system
  for the same request under the budget of its lease (none when admission refused it), so every
  property of the system's runs holds of the router.
\<close>

theorem transfers_route_refines:
  assumes "transfers_route fx clk t shutdown token rq ro = (r, ro')"
  shows "\<exists>lease. transfer_step fx \<lparr> sy_files = ro_files ro, sy_bodies = bodies \<rparr>
      (Transferred (rq\<lparr>tq_budget := lease\<rparr>) r)
      \<lparr> sy_files = ro_files ro', sy_bodies = started_bodies r @ bodies \<rparr> \<and>
    (\<forall>b. lease = Some b \<longrightarrow> b = \<lparr> eb_deadline = t + rl_timeout (ro_limits ro), eb_cancelled = token \<rparr>)"
proof -
  from transfers_route_leased [OF assms]
  obtain lease where route: "transfer_route fx clk (rq\<lparr>tq_budget := lease\<rparr>) (ro_files ro) = (r, ro_files ro')"
    and lease: "\<forall>b. lease = Some b \<longrightarrow> b = \<lparr> eb_deadline = t + rl_timeout (ro_limits ro), eb_cancelled = token \<rparr>"
    by blast
  from transfer_step.transferred [of fx clk _ "\<lparr> sy_files = ro_files ro, sy_bodies = bodies \<rparr>"] route
  have "transfer_step fx \<lparr> sy_files = ro_files ro, sy_bodies = bodies \<rparr> (Transferred (rq\<lparr>tq_budget := lease\<rparr>) r)
      \<lparr> sy_files = ro_files ro', sy_bodies = started_bodies r @ bodies \<rparr>"
    by fastforce
  with lease show ?thesis by blast
qed

definition sample_router :: "string router" where
  "sample_router = \<lparr> ro_auth = sample_auth, ro_keys = empty_key_cache, ro_files = default_transfer_files,
     ro_limits = request_limits_new 1 5, ro_max_body = 4 \<rparr>"

theorem transfers_route_refines_witness:
  "\<exists>lease. transfer_step sample_file_env \<lparr> sy_files = default_transfer_files, sy_bodies = [] \<rparr>
     (Transferred \<lparr> tq_method = ''GET'', tq_path = ''/'', tq_authorization = [], tq_body = None,
        tq_budget = lease \<rparr> (Inr (Status 401)))
     \<lparr> sy_files = default_transfer_files, sy_bodies = [] \<rparr>"
proof -
  let ?rq = "\<lparr> tq_method = ''GET'', tq_path = ''/'', tq_authorization = [], tq_body = None, tq_budget = None \<rparr>"
  have "transfers_route sample_file_env (\<lambda>_. 0) 0 False (\<lambda>_. False) ?rq sample_router =
      (Inr (Status 401), sample_router)"
    by code_simp
  from transfers_route_refines [OF this, of "[]"] show ?thesis
    by (auto simp: sample_router_def started_bodies_def)
qed

section \<open>The MCP route\<close>

lemma enforce_body_limit_Inr:
  "enforce_body_limit limit rq = Inr bytes \<Longrightarrow> length bytes \<le> limit \<and> bytes = concat (in_body rq)"
  by (auto simp: enforce_body_limit_def body_within_def split: if_splits)

text \<open>
  C4: What the MCP service is handed was admitted, authenticated and bounded, and a tool call of
  it runs for the caller who was authenticated: on a router whose limits are reachable, the
  handler scoped to the request keeps the files of the subject of a token that the identity
  service's key signed, under the deadline of the request's own lease; the body is what was sent
  and within the limit, and the lease is one of at most \<open>limit\<close>.
\<close>

theorem mcp_calls_owned:
  assumes doc: "jwt_documented jx signs issuer audience"
    and bearers: "bearers_from_protected jx current previous = Inr (ia_bearers (ro_auth ro))"
    and run: "key_run jx (ia_verifier (ro_auth ro)) tr y"
    and answers: "\<And>kid k. answer kid = Inr k \<Longrightarrow> answers_in tr at kid (Inr k)"
    and limits: "limits_reachable limit timeout (ro_limits ro)"
    and route: "mcp_route jx t shutdown token answer decoded_at clock rq ro = (Served n parts bytes, ro')"
    and scoped: "scoped_handler fx h \<lparr> rc_parts = Some parts, rc_meta = meta, rc_token = ct \<rparr> = Inr scoped"
  shows "\<exists>p. authenticated_request jx signs issuer audience (ro_auth ro) current previous tr at clock
      (in_headers rq) p \<and>
    h_files scoped = Some (pr_subject p, transfer_ops fx) \<and>
    h_budget scoped = Some \<lparr> eb_deadline = t + timeout, eb_cancelled = token \<rparr> \<and>
    h_admin scoped = h_admin h \<and> h_profile scoped = h_profile h \<and>
    bytes = concat (in_body rq) \<and> length bytes \<le> ro_max_body ro \<and>
    \<not> shutdown \<and> n \<in> le_id ` set (rl_leases (ro_limits ro')) \<and>
    length (rl_leases (ro_limits ro')) \<le> limit"
proof -
  obtain q limits' where adm: "begin_admission t shutdown token (ro_limits ro) = (q, limits')" by fastforce
  with route obtain lease p where q: "q = Inr (n, lease)"
    and gate: "require_gateway jx (ro_auth ro) answer decoded_at clock (in_headers rq) = Inr p"
    and body: "enforce_body_limit (ro_max_body ro) rq = Inr bytes"
    and parts: "parts = \<lparr> rp_lease = Some lease, rp_principal = Some p, rp_headers = in_headers rq \<rparr>"
    and ro': "ro_limits ro' = limits'"
    by (auto simp: mcp_route_def split: sum.splits prod.splits)
  from gateway_passed [OF doc bearers run answers gate]
  have known: "authenticated_request jx signs issuer audience (ro_auth ro) current previous tr at clock
    (in_headers rq) p" .
  have "limits_ok limit limits'"
    by (rule begin_admission_ok [OF limits_reachable_ok [OF limits] adm])
  then have bound: "length (rl_leases limits') \<le> limit" by (simp add: limits_ok_def)
  have adm': "\<not> shutdown" "n \<in> le_id ` set (rl_leases limits')"
    "lease = \<lparr> eb_deadline = t + timeout, eb_cancelled = token \<rparr>"
    using adm q limits_reachable_timeout [OF limits] by (auto simp: begin_admission_def Let_def split: if_splits)
  have "scoped = h\<lparr>h_budget := Some lease, h_files := Some (pr_subject p, transfer_ops fx)\<rparr>"
    using scoped parts by (auto elim!: scoped_handler_Inr)
  with known bound adm' ro' enforce_body_limit_Inr [OF body] show ?thesis
    by (intro exI [of _ p]) (auto simp del: length_concat)
qed

definition sample_incoming :: incoming where
  "sample_incoming = \<lparr> in_headers = sample_headers, in_body = [''{'', ''}''], in_complete = True \<rparr>"

definition sample_key_answer :: "string \<Rightarrow> identity_error + string" where
  "sample_key_answer kid = (if kid = ''k1'' then Inr ''key'' else Inl KeyUnavailable)"

definition sample_parts :: request_parts where
  "sample_parts = \<lparr> rp_lease = Some \<lparr> eb_deadline = 15, eb_cancelled = (\<lambda>_. False) \<rparr>,
     rp_principal = Some \<lparr> pr_subject = ''alice'', pr_groups = [''ops''] \<rparr>, rp_headers = sample_headers \<rparr>"

theorem mcp_calls_owned_witness:
  "\<exists>p. pr_subject p = ''alice'' \<and>
    authenticated_request sample_jwt (\<lambda>d t c. d = ''key'' \<and> t = ''token'' \<and> c = sample_claims)
      (\<lambda>_. ''issuer'') (\<lambda>_. [mcp_server_name]) sample_auth sample_bearer None sample_key_trace 2
      (Some 1100) sample_headers p"
proof -
  let ?ro = "snd (mcp_route sample_jwt 10 False (\<lambda>_. False) sample_key_answer 1100 (Some 1100) sample_incoming sample_router)"
  let ?scoped = "sample_server_handler\<lparr>h_budget := rp_lease sample_parts,
    h_files := Some (''alice'', transfer_ops sample_file_env)\<rparr>"
  have gate: "require_gateway sample_jwt sample_auth sample_key_answer 1100 (Some 1100) sample_headers =
      Inr \<lparr> pr_subject = ''alice'', pr_groups = [''ops''] \<rparr>"
    by code_simp
  have body: "enforce_body_limit 4 sample_incoming = Inr ''{}''" by code_simp
  have route: "mcp_route sample_jwt 10 False (\<lambda>_. False) sample_key_answer 1100 (Some 1100) sample_incoming
      sample_router = (Served 0 sample_parts ''{}'', ?ro)"
    using gate body by (simp add: mcp_route_def sample_router_def begin_admission_def request_limits_new_def
        sample_incoming_def sample_parts_def)
  have bearers: "bearers_from_protected sample_jwt sample_bearer None = Inr (ia_bearers (ro_auth sample_router))"
    by code_simp
  have run: "key_run sample_jwt (ia_verifier (ro_auth sample_router)) sample_key_trace sample_key_system"
    using sample_key_run by (simp add: sample_auth_def sample_router_def)
  have answers: "sample_key_answer kid = Inr k \<Longrightarrow> answers_in sample_key_trace 2 kid (Inr k)" for kid k
    by (auto simp: sample_key_answer_def answers_in_def sample_key_trace_def split: if_splits)
  have limits: "limits_reachable 1 5 (ro_limits sample_router)"
    by (simp add: sample_router_def limits_reachable.start)
  have scoped: "scoped_handler sample_file_env sample_server_handler
      \<lparr> rc_parts = Some sample_parts, rc_meta = [], rc_token = (\<lambda>_. False) \<rparr> = Inr ?scoped"
    by (simp add: scoped_handler_def sample_parts_def with_credential_files_def with_execution_budget_def)
  from mcp_calls_owned [OF sample_documented bearers run answers limits route scoped]
  obtain p where known: "authenticated_request sample_jwt (\<lambda>d t c. d = ''key'' \<and> t = ''token'' \<and> c = sample_claims)
      (\<lambda>_. ''issuer'') (\<lambda>_. [mcp_server_name]) (ro_auth sample_router) sample_bearer None sample_key_trace 2
      (Some 1100) (in_headers sample_incoming) p"
    and files: "h_files ?scoped = Some (pr_subject p, transfer_ops sample_file_env)"
    by blast
  from files have "pr_subject p = ''alice''" by simp
  with known show ?thesis unfolding sample_router_def sample_incoming_def by auto
qed

end
