(* ===== verification/Server_Stdio.thy ===== *)
theory Server_Stdio
  imports Rust_Str
begin

text \<open>
  The local transport (\<open>crates/komodo-server/src/stdio.rs\<close>): newline-delimited messages of at
  most 64 KiB over the process's standard streams, with at most 32 requests outstanding. The
  state is the transport's; its input is the bytes that are still to arrive until end of file.
  Decoding a message, and which messages are requests or answers to one, is the MCP library's: a
  parameter.
\<close>

definition max_frame_bytes :: nat where "max_frame_bytes = 64 * 1024"
definition max_pending_requests :: nat where "max_pending_requests = 32"
definition newline :: char where "newline = CHR 0x0A"

record ('i, 'o) stdio =
  so_input :: string
  so_line :: string
  so_pending :: "'i list"
  so_closed :: bool
  so_output :: "'o list"

definition stdio_new :: "string \<Rightarrow> ('i, 'o) stdio" where
  "stdio_new input = \<lparr> so_input = input, so_line = [], so_pending = [], so_closed = False, so_output = [] \<rparr>"

text \<open>
  \<open>read_until\<close> a newline on a reader limited to \<open>n\<close> bytes: what it appends, and what is left.
\<close>

fun read_until :: "nat \<Rightarrow> string \<Rightarrow> string \<times> string" where
  "read_until n [] = ([], [])"
| "read_until n (c # cs) =
     (if n = 0 then ([], c # cs)
      else if c = newline then ([c], cs)
      else case read_until (n - 1) cs of (l, r) \<Rightarrow> (c # l, r))"

text \<open>A message read: admitted to the pending requests if it is one.\<close>

definition admit_message ::
  "('m \<Rightarrow> 'i option) \<Rightarrow> 'm option \<Rightarrow> ('i, 'o) stdio \<Rightarrow> 'm option \<times> ('i, 'o) stdio" where
  "admit_message request_id message st =
     (case message of
        None \<Rightarrow> (None, st\<lparr>so_closed := True\<rparr>)
      | Some m \<Rightarrow>
          (case request_id m of
             None \<Rightarrow> (Some m, st)
           | Some i \<Rightarrow>
               if max_pending_requests \<le> length (so_pending st) \<or> i \<in> set (so_pending st)
               then (None, st\<lparr>so_closed := True\<rparr>)
               else (Some m, st\<lparr>so_pending := so_pending st @ [i]\<rparr>)))"

text \<open>
  \<open>receive\<close>, run to its end; \<open>ok\<close> is false when reading fails. The limit is the code's
  \<open>MAX_FRAME_BYTES + 1 - line.len()\<close>.
\<close>

definition stdio_receive ::
  "(string \<Rightarrow> 'm option) \<Rightarrow> ('m \<Rightarrow> 'i option) \<Rightarrow> bool \<Rightarrow> ('i, 'o) stdio \<Rightarrow> 'm option \<times> ('i, 'o) stdio" where
  "stdio_receive decode request_id ok st =
     (if so_closed st then (None, st)
      else case read_until (max_frame_bytes + 1 - length (so_line st)) (so_input st) of
        (bytes, rest) \<Rightarrow>
          (let line = so_line st @ bytes; st' = st\<lparr>so_input := rest, so_line := line\<rparr> in
           if \<not> ok \<or> bytes = [] \<or> max_frame_bytes < length line \<or> \<not> suffix [newline] line
           then (None, st'\<lparr>so_closed := True\<rparr>)
           else admit_message request_id (decode line) (st'\<lparr>so_line := []\<rparr>)))"

text \<open>
  A \<open>receive\<close> dropped while it waits: \<open>n\<close> bytes without a newline have moved into the line, and
  fewer than the limit.
\<close>

definition waits_after :: "nat \<Rightarrow> ('i, 'o) stdio \<Rightarrow> bool" where
  "waits_after n st \<longleftrightarrow> \<not> so_closed st \<and> n \<le> length (so_input st) \<and>
     length (so_line st) + n \<le> max_frame_bytes \<and> newline \<notin> set (take n (so_input st))"

definition stdio_dropped :: "nat \<Rightarrow> ('i, 'o) stdio \<Rightarrow> ('i, 'o) stdio" where
  "stdio_dropped n st = st\<lparr>so_input := drop n (so_input st), so_line := so_line st @ take n (so_input st)\<rparr>"

text \<open>
  \<open>send\<close>: \<open>encoded\<close> and \<open>written\<close> say whether the message could be encoded, and was written
  before the timeout; only then the request it answers is no longer pending.
\<close>

datatype send_error = EncodingFailed | OutputFailed

definition stdio_send ::
  "('o \<Rightarrow> 'i option) \<Rightarrow> bool \<Rightarrow> bool \<Rightarrow> 'o \<Rightarrow> ('i, 'o) stdio \<Rightarrow> (send_error + unit) \<times> ('i, 'o) stdio" where
  "stdio_send response_id encoded written item st =
     (if \<not> encoded then (Inl EncodingFailed, st)
      else if \<not> written then (Inl OutputFailed, st)
      else (Inr (), st\<lparr>so_output := so_output st @ [item],
        so_pending := (case response_id item of None \<Rightarrow> so_pending st
          | Some i \<Rightarrow> filter (\<lambda>e. e \<noteq> i) (so_pending st))\<rparr>))"

definition stdio_close :: "('i, 'o) stdio \<Rightarrow> ('i, 'o) stdio" where
  "stdio_close st = st\<lparr>so_closed := True\<rparr>"

section \<open>Reading\<close>

lemma read_until_append: "read_until n s = (l, r) \<Longrightarrow> s = l @ r \<and> length l \<le> n"
proof (induction s arbitrary: n l r)
  case (Cons c cs)
  then show ?case
    by (cases "read_until (n - 1) cs") (fastforce split: if_splits)
qed simp

lemma read_until_newline: "read_until n s = (l, r) \<Longrightarrow> newline \<notin> set (butlast l)"
proof (induction s arbitrary: n l r)
  case (Cons c cs)
  then show ?case by (cases "read_until (n - 1) cs") (auto split: if_splits)
qed simp

lemma read_until_skip:
  "newline \<notin> set xs \<Longrightarrow> length xs \<le> n \<Longrightarrow>
    read_until n (xs @ s) = (case read_until (n - length xs) s of (l, r) \<Rightarrow> (xs @ l, r))"
proof (induction xs arbitrary: n)
  case (Cons c xs)
  then obtain k where "n = Suc k" by (cases n) auto
  with Cons show ?case by (auto split: prod.splits)
qed (simp split: prod.splits)

lemma suffix_newline: "suffix [newline] (xs @ ys) \<Longrightarrow> ys \<noteq> [] \<Longrightarrow> last ys = newline"
  by (metis last_append last_snoc suffix_def)

section \<open>Runs\<close>

text \<open>What may happen to a transport, and the messages it delivers.\<close>

inductive stdio_step ::
  "(string \<Rightarrow> 'm option) \<Rightarrow> ('m \<Rightarrow> 'i option) \<Rightarrow> ('o \<Rightarrow> 'i option) \<Rightarrow> ('i, 'o) stdio \<Rightarrow> 'm list
    \<Rightarrow> ('i, 'o) stdio \<Rightarrow> bool"
  for decode request_id response_id where
  received: "stdio_receive decode request_id ok st = (m, st') \<Longrightarrow>
    stdio_step decode request_id response_id st (case m of None \<Rightarrow> [] | Some x \<Rightarrow> [x]) st'"
| waited: "waits_after n st \<Longrightarrow>
    stdio_step decode request_id response_id st [] (stdio_dropped n st)"
| sent: "stdio_send response_id encoded written item st = (r, st') \<Longrightarrow>
    stdio_step decode request_id response_id st [] st'"
| closed: "stdio_step decode request_id response_id st [] (stdio_close st)"

inductive stdio_run ::
  "(string \<Rightarrow> 'm option) \<Rightarrow> ('m \<Rightarrow> 'i option) \<Rightarrow> ('o \<Rightarrow> 'i option) \<Rightarrow> string \<Rightarrow> 'm list
    \<Rightarrow> ('i, 'o) stdio \<Rightarrow> bool"
  for decode request_id response_id input where
  start: "stdio_run decode request_id response_id input [] (stdio_new input)"
| step: "stdio_run decode request_id response_id input ms st \<Longrightarrow>
    stdio_step decode request_id response_id st new st' \<Longrightarrow>
    stdio_run decode request_id response_id input (ms @ new) st'"

inductive_cases stdio_stepE: "stdio_step decode request_id response_id st new st'"

text \<open>
  The invariant: bounded and distinct pending ids, a line without a newline and within the
  buffer's bound while the transport is open.
\<close>

definition stdio_ok :: "('i, 'o) stdio \<Rightarrow> bool" where
  "stdio_ok st \<longleftrightarrow> length (so_pending st) \<le> max_pending_requests \<and> distinct (so_pending st) \<and>
     length (so_line st) \<le> max_frame_bytes + 1 \<and>
     (\<not> so_closed st \<longrightarrow> newline \<notin> set (so_line st) \<and> length (so_line st) \<le> max_frame_bytes)"

lemma admit_message_ok:
  assumes "stdio_ok st" "so_line st = []" "admit_message request_id message st = (m, st')"
  shows "stdio_ok st'" "so_input st' = so_input st"
    "m = None \<Longrightarrow> so_closed st'" "m = Some x \<Longrightarrow> message = Some x"
    "m = Some x \<Longrightarrow> request_id x = Some i \<Longrightarrow> i \<in> set (so_pending st')"
  using assms by (auto simp: admit_message_def stdio_ok_def max_pending_requests_def
      split: option.splits if_splits)

lemma stdio_receive_ok:
  assumes ok: "stdio_ok st" and r: "stdio_receive decode request_id ok' st = (m, st')"
  shows "stdio_ok st'"
proof (cases "so_closed st")
  case True
  with assms show ?thesis by (simp add: stdio_receive_def)
next
  case False
  obtain bytes rest where b: "read_until (max_frame_bytes + 1 - length (so_line st)) (so_input st) = (bytes, rest)"
    by fastforce
  let ?line = "so_line st @ bytes"
  let ?st = "st\<lparr>so_input := rest, so_line := ?line\<rparr>"
  have len: "length ?line \<le> max_frame_bytes + 1"
    using read_until_append [OF b] ok False by (auto simp: stdio_ok_def)
  show ?thesis
  proof (cases "\<not> ok' \<or> bytes = [] \<or> max_frame_bytes < length ?line \<or> \<not> suffix [newline] ?line")
    case True
    with r False b have "st' = ?st\<lparr>so_closed := True\<rparr>" by (auto simp: stdio_receive_def Let_def)
    with ok len show ?thesis by (simp add: stdio_ok_def)
  next
    case good: False
    with r False b have adm: "admit_message request_id (decode ?line) (?st\<lparr>so_line := []\<rparr>) = (m, st')"
      by (auto simp: stdio_receive_def Let_def)
    have "stdio_ok (?st\<lparr>so_line := []\<rparr>)" using ok by (simp add: stdio_ok_def)
    from admit_message_ok(1) [OF this _ adm] show ?thesis by simp
  qed
qed

lemma stdio_dropped_ok: "stdio_ok st \<Longrightarrow> waits_after n st \<Longrightarrow> stdio_ok (stdio_dropped n st)"
  by (auto simp: stdio_ok_def waits_after_def stdio_dropped_def)

lemma stdio_send_ok:
  assumes "stdio_ok st" "stdio_send response_id encoded written item st = (r, st')"
  shows "stdio_ok st'"
proof -
  have "length (filter (\<lambda>e. e \<noteq> i) (so_pending st)) \<le> max_pending_requests" for i
    by (rule le_trans [OF length_filter_le]) (use assms(1) in \<open>simp add: stdio_ok_def\<close>)
  with assms show ?thesis by (auto simp: stdio_send_def stdio_ok_def split: if_splits option.splits)
qed

lemma stdio_close_ok: "stdio_ok st \<Longrightarrow> stdio_ok (stdio_close st)"
  by (simp add: stdio_close_def stdio_ok_def)

lemma stdio_step_ok: "stdio_step decode request_id response_id st new st' \<Longrightarrow> stdio_ok st \<Longrightarrow> stdio_ok st'"
  by (erule stdio_stepE) (auto intro: stdio_receive_ok stdio_dropped_ok stdio_send_ok stdio_close_ok)

lemma stdio_run_ok: "stdio_run decode request_id response_id input ms st \<Longrightarrow> stdio_ok st"
proof (induction rule: stdio_run.induct)
  case start
  then show ?case by (simp add: stdio_new_def stdio_ok_def)
qed (rule stdio_step_ok)

section \<open>Lines\<close>

text \<open>A frame: one newline, at its end, and at most 64 KiB.\<close>

definition frame_line :: "string \<Rightarrow> bool" where
  "frame_line l \<longleftrightarrow> l \<noteq> [] \<and> last l = newline \<and> newline \<notin> set (butlast l) \<and> length l \<le> 65536"

text \<open>
  The messages delivered so far decode the frames the input starts with, none skipped; while the
  transport is open, the rest of the input is the partial line and what is still to arrive.
\<close>

definition lines_read :: "(string \<Rightarrow> 'm option) \<Rightarrow> string \<Rightarrow> 'm list \<Rightarrow> ('i, 'o) stdio \<Rightarrow> bool" where
  "lines_read decode input ms st \<longleftrightarrow>
     (\<exists>ls rest. map decode ls = map Some ms \<and> list_all frame_line ls \<and> input = concat ls @ rest \<and>
        (\<not> so_closed st \<longrightarrow> rest = so_line st @ so_input st))"

lemma lines_read_cong:
  "lines_read decode input ms st \<Longrightarrow>
    (\<not> so_closed st' \<Longrightarrow> \<not> so_closed st \<and> so_line st' @ so_input st' = so_line st @ so_input st) \<Longrightarrow>
    lines_read decode input ms st'"
  unfolding lines_read_def by metis

lemma stdio_receive_Some:
  assumes ok: "stdio_ok st" and r: "stdio_receive decode request_id ok' st = (Some x, st')"
  obtains l where "frame_line l" "decode l = Some x" "so_line st @ so_input st = l @ so_input st'"
    "so_line st' = []" "\<not> so_closed st" "so_closed st' = so_closed st"
proof -
  have open_: "\<not> so_closed st" using r by (auto simp: stdio_receive_def)
  obtain bytes rest where b: "read_until (max_frame_bytes + 1 - length (so_line st)) (so_input st) = (bytes, rest)"
    by fastforce
  let ?line = "so_line st @ bytes"
  let ?st = "st\<lparr>so_input := rest, so_line := []\<rparr>"
  from r open_ b have good: "bytes \<noteq> []" "length ?line \<le> max_frame_bytes" "suffix [newline] ?line"
    and adm: "admit_message request_id (decode ?line) ?st = (Some x, st')"
    by (auto simp: stdio_receive_def Let_def split: if_splits)
  have clean: "newline \<notin> set (so_line st)" using ok open_ by (simp add: stdio_ok_def)
  have "last ?line = newline" using good(1) suffix_newline [OF good(3,1)] by simp
  moreover have "newline \<notin> set (butlast ?line)"
    using read_until_newline [OF b] clean good(1) by (simp add: butlast_append)
  ultimately have fl: "frame_line ?line" using good(1,2) by (simp add: frame_line_def max_frame_bytes_def)
  from adm have "decode ?line = Some x" "so_input st' = rest" "so_line st' = []" "so_closed st' = so_closed st"
    by (auto simp: admit_message_def split: option.splits if_splits)
  with that [OF fl] read_until_append [OF b] open_ show thesis by simp
qed

lemma lines_read_step:
  assumes s: "stdio_step decode request_id response_id st new st'" and ok: "stdio_ok st"
    and l: "lines_read decode input ms st"
  shows "lines_read decode input (ms @ new) st'"
  using s
proof (cases rule: stdio_step.cases)
  case (received ok' m)
  show ?thesis
  proof (cases m)
    case None
    have "so_closed st'"
      using received None by (auto simp: stdio_receive_def admit_message_def Let_def
          split: if_splits prod.splits option.splits)
    with l received None show ?thesis by (auto intro: lines_read_cong)
  next
    case (Some x)
    from received Some have "stdio_receive decode request_id ok' st = (Some x, st')" by simp
    from stdio_receive_Some [OF ok this] obtain f where f: "frame_line f" "decode f = Some x"
      "so_line st @ so_input st = f @ so_input st'" "so_line st' = []" "\<not> so_closed st" .
    from l f(5) obtain ls where "map decode ls = map Some ms" "list_all frame_line ls"
      "input = concat ls @ so_line st @ so_input st"
      by (auto simp: lines_read_def)
    with f received Some show ?thesis
      unfolding lines_read_def by (intro exI [of _ "ls @ [f]"] exI [of _ "so_input st'"]) simp
  qed
next
  case (waited n)
  with l show ?thesis by (auto intro!: lines_read_cong [OF l] simp: stdio_dropped_def)
next
  case (sent encoded written item r)
  with l show ?thesis
    by (auto intro!: lines_read_cong [OF l] simp: stdio_send_def split: if_splits)
next
  case closed
  with l show ?thesis by (auto intro!: lines_read_cong [OF l] simp: stdio_close_def)
qed

lemma stdio_run_lines: "stdio_run decode request_id response_id input ms st \<Longrightarrow> lines_read decode input ms st"
proof (induction rule: stdio_run.induct)
  case start
  then show ?case by (auto simp: lines_read_def stdio_new_def)
next
  case (step ms st new st')
  from lines_read_step [OF step(2) stdio_run_ok [OF step(1)] step(3)] show ?case .
qed

section \<open>Properties\<close>

text \<open>
  C36: Whatever is sent and however often reading is interrupted, the messages a transport
  delivers are the decoded frames its input starts with, in order and none skipped, each of at
  most 64 KiB; at most 32 requests are outstanding, with distinct ids, and the buffered line
  never exceeds 64 KiB and a byte, so the read limit does not underflow.
\<close>

theorem stdio_delivers_lines:
  assumes "stdio_run decode request_id response_id input ms st"
  shows "(\<exists>ls. map decode ls = map Some ms \<and> prefix (concat ls) input \<and>
      list_all (\<lambda>l. l \<noteq> [] \<and> last l = newline \<and> newline \<notin> set (butlast l) \<and> length l \<le> 65536) ls) \<and>
    length (so_pending st) \<le> 32 \<and> distinct (so_pending st) \<and> length (so_line st) \<le> max_frame_bytes + 1"
proof
  from stdio_run_lines [OF assms]
  show "\<exists>ls. map decode ls = map Some ms \<and> prefix (concat ls) input \<and>
      list_all (\<lambda>l. l \<noteq> [] \<and> last l = newline \<and> newline \<notin> set (butlast l) \<and> length l \<le> 65536) ls"
    unfolding lines_read_def frame_line_def [abs_def] by (auto simp: prefix_def)
  from stdio_run_ok [OF assms]
  show "length (so_pending st) \<le> 32 \<and> distinct (so_pending st) \<and> length (so_line st) \<le> max_frame_bytes + 1"
    by (simp add: stdio_ok_def max_pending_requests_def)
qed

text \<open>A transport whose messages are their frames, all of them requests named by themselves.\<close>

definition sample_stream :: string where "sample_stream = [CHR ''a'', newline, CHR ''b'']"

definition sample_transport :: "(string, string) stdio" where
  "sample_transport = snd (stdio_receive Some Some True (stdio_new sample_stream))"

lemma sample_transport_run:
  "stdio_run Some Some Some sample_stream [[CHR ''a'', newline]] sample_transport"
proof -
  have "stdio_receive Some Some True (stdio_new sample_stream :: (string, string) stdio) =
      (Some [CHR ''a'', newline], sample_transport)"
    unfolding sample_transport_def by code_simp
  from stdio_run.step [OF stdio_run.start stdio_step.received [OF this]] show ?thesis by simp
qed

theorem stdio_delivers_lines_witness:
  "(\<exists>ls. map Some ls = map Some [[CHR ''a'', newline]] \<and> prefix (concat ls) sample_stream) \<and>
    length (so_pending sample_transport) \<le> 32"
  using stdio_delivers_lines [OF sample_transport_run] by blast

text \<open>
  C37: Dropping a pending \<open>receive\<close> loses nothing: after any number of bytes of an unfinished
  line, the next \<open>receive\<close> returns the same message and leaves the same state as if the first
  had not been interrupted.
\<close>

theorem stdio_survives_cancellation:
  assumes "waits_after n st"
  shows "stdio_receive decode request_id ok (stdio_dropped n st) = stdio_receive decode request_id ok st"
proof (cases "n = 0")
  case False
  let ?xs = "take n (so_input st)"
  let ?k = "max_frame_bytes + 1 - length (so_line st)"
  have w: "\<not> so_closed st" "n \<le> length (so_input st)" "length (so_line st) + n \<le> max_frame_bytes"
    "newline \<notin> set ?xs"
    using assms by (simp_all add: waits_after_def)
  obtain l r where lr: "read_until (?k - n) (drop n (so_input st)) = (l, r)" by fastforce
  have len: "length ?xs = n" using w(2) by simp
  then have "read_until ?k (?xs @ drop n (so_input st)) = (?xs @ l, r)"
    using read_until_skip [OF w(4), of ?k "drop n (so_input st)"] w(3) lr by simp
  then have whole: "read_until ?k (so_input st) = (?xs @ l, r)" by simp
  have k: "max_frame_bytes + 1 - length (so_line (stdio_dropped n st)) = ?k - n"
    using len by (simp add: stdio_dropped_def)
  have ends: "suffix [newline] (so_line st @ ?xs) \<Longrightarrow> False"
  proof -
    assume "suffix [newline] (so_line st @ ?xs)"
    moreover have "?xs \<noteq> []" using len False by auto
    ultimately have "last ?xs = newline" by (rule suffix_newline)
    with w(4) \<open>?xs \<noteq> []\<close> show False using last_in_set [of ?xs] by simp
  qed
  show ?thesis
  proof (cases "l = []")
    case True
    with w(1) whole lr k ends show ?thesis
      by (auto simp: stdio_receive_def stdio_dropped_def Let_def)
  next
    case l: False
    with w(1) whole lr k show ?thesis
      by (simp add: stdio_receive_def stdio_dropped_def Let_def)
  qed
qed (simp add: stdio_dropped_def)

theorem stdio_survives_cancellation_witness:
  "stdio_receive Some Some True (stdio_dropped 1 (stdio_new sample_stream :: (string, string) stdio)) =
    (Some [CHR ''a'', newline], sample_transport)"
proof -
  have "waits_after 1 (stdio_new sample_stream :: (string, string) stdio)"
    by (simp add: waits_after_def stdio_new_def sample_stream_def newline_def max_frame_bytes_def)
  from stdio_survives_cancellation [OF this, of Some Some True]
  have "stdio_receive Some Some True (stdio_dropped 1 (stdio_new sample_stream :: (string, string) stdio)) =
    stdio_receive Some Some True (stdio_new sample_stream)" .
  also have "\<dots> = (Some [CHR ''a'', newline], sample_transport)"
    unfolding sample_transport_def by code_simp
  finally show ?thesis .
qed

end
