(* ===== verification/Mcp_Catalog.thy ===== *)
theory Mcp_Catalog
  imports Mcp_Schemas Mcp_Outcomes
begin

text \<open>
  The tool catalogue (\<open>crates/komodo-mcp/src/lib.rs\<close>): the input and output type of every tool,
  its description, and the listing with the schemas \<open>schemars\<close> derives for those types. The
  properties tie the catalogue to the calls: what a tool deserialises and answers is of the types
  whose schemas are published for it.
\<close>

section \<open>Types of tools\<close>

text \<open>
  The Rust types, with a \<open>T\<close> after their names; those of \<open>networks.rs\<close> are prefixed by \<open>Network\<close>.
\<close>

datatype input_type = EmptyInputT | SearchInputT | StatusInputT | NetworkSearchInputT
  | NetworkReadInputT | CollectionReadInputT | ComposeReadInputT | SelectorInputT
  | LogTailInputT | OperationsSearchInputT | OperationStatusInputT | OperationLogsInputT
  | ConfigPatchInputT | ComposeWriteInputT | EnvironmentWriteInputT | CommandsWriteInputT
  | FileWriteInputT | WebhookUpdateInputT | WebhookSecretWriteInputT

datatype output_type = SystemStatusOutputT | ServerSearchOutputT | ServerStatusT
  | NetworkSearchOutputT | NetworkReadOutputT | StackSearchOutputT | StackStatusT
  | StackDiagnosticsT | StackConfigViewT | ComposeViewT | EnvironmentViewT | CommandsViewT
  | WebhookStatusViewT | WebhookSecretViewT | LogTailViewT | DeploymentSearchOutputT
  | DeploymentStatusT | BuildSearchOutputT | BuildStatusT | RepoSearchOutputT | RepoStatusT
  | OperationSearchOutputT | OperationStatusT | OperationLogsViewT | MutationOutputT
  | ConfigWriteResultT | FileWriteResultT | CredentialFailureOutputT

primrec tool_types :: "tool_kind \<Rightarrow> input_type \<times> output_type" where
  "tool_types SystemStatus = (EmptyInputT, SystemStatusOutputT)"
| "tool_types ServersSearch = (SearchInputT, ServerSearchOutputT)"
| "tool_types ServersStatus = (StatusInputT, ServerStatusT)"
| "tool_types ServersNetworksSearch = (NetworkSearchInputT, NetworkSearchOutputT)"
| "tool_types ServersNetworksRead = (NetworkReadInputT, NetworkReadOutputT)"
| "tool_types StacksSearch = (SearchInputT, StackSearchOutputT)"
| "tool_types StacksStatus = (StatusInputT, StackStatusT)"
| "tool_types StacksDiagnostics = (CollectionReadInputT, StackDiagnosticsT)"
| "tool_types StacksConfigRead = (CollectionReadInputT, StackConfigViewT)"
| "tool_types StacksComposeRead = (ComposeReadInputT, ComposeViewT)"
| "tool_types StacksEnvironmentRead = (SelectorInputT, EnvironmentViewT)"
| "tool_types StacksCommandsRead = (SelectorInputT, CommandsViewT)"
| "tool_types StacksWebhookStatus = (SelectorInputT, WebhookStatusViewT)"
| "tool_types StacksWebhookSecretRead = (SelectorInputT, WebhookSecretViewT)"
| "tool_types StacksLogsTail = (LogTailInputT, LogTailViewT)"
| "tool_types DeploymentsSearch = (SearchInputT, DeploymentSearchOutputT)"
| "tool_types DeploymentsStatus = (StatusInputT, DeploymentStatusT)"
| "tool_types BuildsSearch = (SearchInputT, BuildSearchOutputT)"
| "tool_types BuildsStatus = (StatusInputT, BuildStatusT)"
| "tool_types ReposSearch = (SearchInputT, RepoSearchOutputT)"
| "tool_types ReposStatus = (StatusInputT, RepoStatusT)"
| "tool_types OperationsSearch = (OperationsSearchInputT, OperationSearchOutputT)"
| "tool_types OperationsStatus = (OperationStatusInputT, OperationStatusT)"
| "tool_types OperationsLogsRead = (OperationLogsInputT, OperationLogsViewT)"
| "tool_types StacksDeploy = (SelectorInputT, MutationOutputT)"
| "tool_types StacksRestart = (SelectorInputT, MutationOutputT)"
| "tool_types StacksStop = (SelectorInputT, MutationOutputT)"
| "tool_types DeploymentsDeploy = (SelectorInputT, MutationOutputT)"
| "tool_types DeploymentsRestart = (SelectorInputT, MutationOutputT)"
| "tool_types BuildsRun = (SelectorInputT, MutationOutputT)"
| "tool_types BuildsCancel = (SelectorInputT, MutationOutputT)"
| "tool_types ReposPull = (SelectorInputT, MutationOutputT)"
| "tool_types StacksConfigPatch = (ConfigPatchInputT, ConfigWriteResultT)"
| "tool_types StacksComposeWrite = (ComposeWriteInputT, ConfigWriteResultT)"
| "tool_types StacksEnvironmentWrite = (EnvironmentWriteInputT, ConfigWriteResultT)"
| "tool_types StacksCommandsWrite = (CommandsWriteInputT, ConfigWriteResultT)"
| "tool_types StacksFileWrite = (FileWriteInputT, FileWriteResultT)"
| "tool_types StacksWebhookUpdate = (WebhookUpdateInputT, ConfigWriteResultT)"
| "tool_types StacksWebhookSecretWrite = (WebhookSecretWriteInputT, ConfigWriteResultT)"

text \<open>The type of an answer, and whether arguments deserialise into an input type.\<close>

primrec output_type_of :: "tool_output \<Rightarrow> output_type" where
  "output_type_of (SystemStatusOutput _ _) = SystemStatusOutputT"
| "output_type_of (ServerSearchOutput _) = ServerSearchOutputT"
| "output_type_of (ServerStatusOutput _) = ServerStatusT"
| "output_type_of (NetworkSearchOutput _) = NetworkSearchOutputT"
| "output_type_of (NetworkReadOutput _) = NetworkReadOutputT"
| "output_type_of (StackSearchOutput _) = StackSearchOutputT"
| "output_type_of (StackStatusOutput _) = StackStatusT"
| "output_type_of (StackDiagnosticsOutput _) = StackDiagnosticsT"
| "output_type_of (StackConfigOutput _) = StackConfigViewT"
| "output_type_of (ComposeOutput _) = ComposeViewT"
| "output_type_of (EnvironmentOutput _) = EnvironmentViewT"
| "output_type_of (CommandsOutput _) = CommandsViewT"
| "output_type_of (WebhookStatusOutput _) = WebhookStatusViewT"
| "output_type_of (WebhookSecretOutput _) = WebhookSecretViewT"
| "output_type_of (LogTailOutput _) = LogTailViewT"
| "output_type_of (DeploymentSearchOutput _) = DeploymentSearchOutputT"
| "output_type_of (DeploymentStatusOutput _) = DeploymentStatusT"
| "output_type_of (BuildSearchOutput _) = BuildSearchOutputT"
| "output_type_of (BuildStatusOutput _) = BuildStatusT"
| "output_type_of (RepoSearchOutput _) = RepoSearchOutputT"
| "output_type_of (RepoStatusOutput _) = RepoStatusT"
| "output_type_of (OperationSearchOutput _) = OperationSearchOutputT"
| "output_type_of (OperationStatusOutput _) = OperationStatusT"
| "output_type_of (OperationLogsOutput _) = OperationLogsViewT"
| "output_type_of (MutationOutput _) = MutationOutputT"
| "output_type_of (ConfigWriteOutput _) = ConfigWriteResultT"
| "output_type_of (FileWriteOutput _) = FileWriteResultT"
| "output_type_of (CredentialFailureOutput _ _ _) = CredentialFailureOutputT"

primrec input_fits :: "tool_env \<Rightarrow> input_type \<Rightarrow> json \<Rightarrow> bool" where
  "input_fits te EmptyInputT j = (de_empty_input j \<noteq> None)"
| "input_fits te SearchInputT j = (de_search_input j \<noteq> None)"
| "input_fits te StatusInputT j = (de_status_input j \<noteq> None)"
| "input_fits te NetworkSearchInputT j = (de_network_search_input j \<noteq> None)"
| "input_fits te NetworkReadInputT j = (de_network_read_input j \<noteq> None)"
| "input_fits te CollectionReadInputT j = (de_collection_read_input j \<noteq> None)"
| "input_fits te ComposeReadInputT j = (de_compose_read_input j \<noteq> None)"
| "input_fits te SelectorInputT j = (de_selector_input j \<noteq> None)"
| "input_fits te LogTailInputT j = (de_log_tail_input j \<noteq> None)"
| "input_fits te OperationsSearchInputT j = (de_operations_search_input j \<noteq> None)"
| "input_fits te OperationStatusInputT j = (de_operation_status_input j \<noteq> None)"
| "input_fits te OperationLogsInputT j = (de_operation_logs_input j \<noteq> None)"
| "input_fits te ConfigPatchInputT j = (de_config_patch_input j \<noteq> None)"
| "input_fits te ComposeWriteInputT j = (de_compose_write_input j \<noteq> None)"
| "input_fits te EnvironmentWriteInputT j = (de_environment_write_input j \<noteq> None)"
| "input_fits te CommandsWriteInputT j = (de_commands_write_input j \<noteq> None)"
| "input_fits te FileWriteInputT j = (de_file_write_input j \<noteq> None)"
| "input_fits te WebhookUpdateInputT j = (de_webhook_update_input j \<noteq> None)"
| "input_fits te WebhookSecretWriteInputT j = (de_webhook_secret_write_input (te_secret_input te) j \<noteq> None)"

section \<open>Descriptions\<close>

primrec tool_description :: "tool_kind \<Rightarrow> string" where
  "tool_description SystemStatus =
     ''Check Komodo Core reachability and version without returning configuration.''"
| "tool_description ServersSearch =
     ''Find servers with normalized health and typed Core list facts, including addresses and public keys.''"
| "tool_description ServersStatus =
     ''Get one server's normalized health and typed Core list facts, including addresses, public keys, and alert metadata.''"
| "tool_description ServersNetworksSearch =
     ''Search a server's Docker network inventory, retaining names, identifiers, drivers, IPAM subnets and gateways, and attachment flags reported by Core. Results use bounded collection pages.''"
| "tool_description ServersNetworksRead =
     ''Read a named network on one server with typed IPAM settings, options, labels, and attached endpoint identifiers and MAC, IPv4, and IPv6 addresses reported by Core.''"
| "tool_description StacksSearch =
     ''Find stacks with normalized health and typed Core list facts, including images, placement, and repository provenance.''"
| "tool_description StacksStatus =
     ''Get one stack's normalized health and typed Core list facts, including images, placement, and repository provenance.''"
| "tool_description StacksDiagnostics =
     ''Diagnose one stack: state, Docker status text, missing Compose files, per-service image and update signals, and deploy-vs-latest drift. Never returns file contents, environment, or logs.''"
| "tool_description StacksConfigRead =
     ''Read one stack's complete ordinary configuration and compatibility summary, including placement, repository references, update settings, file dependencies, Compose, environment, and commands. The literal webhook token is available through stacks.webhook.secret.read native files.''"
| "tool_description StacksComposeRead =
     ''Read one stack's Compose file contents for a chosen source: configured, latest, or deployed. Returns file paths and full contents; excludes environment and the webhook secret.''"
| "tool_description StacksEnvironmentRead =
     ''Read one stack's environment text as reported by Core.''"
| "tool_description StacksCommandsRead =
     ''Read one stack's stored pre-deploy and post-deploy commands and their working directories.''"
| "tool_description StacksWebhookStatus =
     ''Report whether one stack's webhook is enabled, whether it forces deploy, and whether its secret is custom or inherited. Never returns the secret value.''"
| "tool_description StacksWebhookSecretRead =
     ''Read one stack's custom webhook token through native file transfer outside model context. An inherited token reports its source and valueAvailable false because the stack API does not return Core's shared token.''"
| "tool_description StacksLogsTail =
     ''Tail one stack's container logs (1-5000 lines, up to 50 named services). Returns bounded stdout and stderr as reported by Core; stack configuration has its own typed reads.''"
| "tool_description DeploymentsSearch =
     ''Find deployments with normalized health and typed Core list facts, including image, container name, and placement.''"
| "tool_description DeploymentsStatus =
     ''Get one deployment's normalized health and typed Core list facts, including image and placement.''"
| "tool_description BuildsSearch =
     ''Find builds with normalized health and typed Core list facts, including version, builder, and repository provenance.''"
| "tool_description BuildsStatus =
     ''Get one build's normalized health and typed Core list facts, including version and repository provenance.''"
| "tool_description ReposSearch =
     ''Find managed repositories with normalized health and typed Core list facts, including URLs, branch, placement, and commit provenance.''"
| "tool_description ReposStatus =
     ''Get one repository's normalized health and typed Core list facts, including URLs, branch, placement, and commit provenance.''"
| "tool_description OperationsSearch =
     ''Search one bounded operation page, optionally filtering by exact resource target, operation kind, normalized outcome, and start-time range. Retains correlation, initiating user, version, operation-specific data, and configuration history. Ordinary history remains inline; explicit credential fields use native original files.''"
| "tool_description OperationsStatus =
     ''Get one operation by stable id with outcome, correlation, initiating user, version, commit, operation-specific data, and configuration history. Ordinary history remains inline; explicit credential fields use native original files. Command logs have their own typed read.''"
| "tool_description OperationsLogsRead =
     ''Read one operation's command logs by its stable id: stage, command, stdout, and stderr per step.''"
| "tool_description StacksDeploy =
     ''Deploy one existing stack by exact name or id. Never retried.''"
| "tool_description StacksRestart =
     ''Restart one existing stack by exact name or id. Never retried.''"
| "tool_description StacksStop =
     ''Stop all services of one existing stack by exact name or id using Komodo's default termination timeout, preserving its containers. Never retried. For ambiguous outcomes, use operations.search to find the operation id, then operations.status to inspect it before deciding whether to submit again.''"
| "tool_description DeploymentsDeploy =
     ''Deploy one existing deployment by exact name or id. Never retried.''"
| "tool_description DeploymentsRestart =
     ''Restart one existing deployment by exact name or id. Never retried.''"
| "tool_description BuildsRun =
     ''Run one existing build by exact name or id. Never retried.''"
| "tool_description BuildsCancel =
     ''Cancel one active build by exact name or id. Never retried.''"
| "tool_description ReposPull =
     ''Pull one managed repository by exact name or id. Never retried.''"
| "tool_description StacksConfigPatch =
     ''Patch supplied structural fields (file mode, run directory, file paths, env-file path); omitted fields stay unchanged and an empty file_paths list clears the list. Does not deploy. Komodo may retain submitted configuration. Never retried. Returns applied field names, not values; reconcile with stacks.config.read.''"
| "tool_description StacksComposeWrite =
     ''Replace the entire inline Compose text; empty contents clears it. Source mode determines whether inline content is used; this does not change mode or deploy. Komodo may retain submitted configuration. Never retried. Returns applied field names, not contents; reconcile with stacks.compose.read using source configured.''"
| "tool_description StacksEnvironmentWrite =
     ''Replace the entire environment text, not individual variables; an empty string clears it. Updates configuration without deploying. Komodo may retain submitted configuration. Never retried. Returns applied field names, not values; reconcile with stacks.environment.read.''"
| "tool_description StacksCommandsWrite =
     ''Replace each supplied pre-deploy or post-deploy command; omitted commands stay unchanged and an empty command clears its text. Stores commands for later deployment with upstream execution privileges; does not execute or deploy now. Komodo may retain submitted configuration. Never retried. Returns applied field names, not values; reconcile with stacks.commands.read.''"
| "tool_description StacksFileWrite =
     ''Replace one file's contents in files-on-host or repo mode; an empty string writes an empty file. Komodo owns file-path and mode enforcement. Komodo may retain submitted configuration. Never retried. Returns target, applied field, file path, and an operation id, not contents; reconcile with operations.status before further actions.''"
| "tool_description StacksWebhookUpdate =
     ''Set supplied webhook enabled and force-deploy flags; omitted flags stay unchanged. Changes future webhook handling without deploying now. Never retried. Returns applied field names, not the secret; reconcile with stacks.webhook.status.''"
| "tool_description StacksWebhookSecretWrite =
     ''Set a custom webhook token from a completed native credential file, or explicitly restore inheritance of Core's shared token. Does not deploy. Komodo may retain the submitted secret in its own operation history. Never retried. Returns the applied field name, not the value; reconcile with stacks.webhook.status for its source or the governed stacks.webhook.secret.read for a custom value.''"

section \<open>The listing\<close>

text \<open>The schemas \<open>schemars\<close> derives for the types, and a tool as it is published.\<close>

record derived_schemas =
  derive_input :: "input_type \<Rightarrow> json"
  derive_output :: "output_type \<Rightarrow> json"

record published_tool =
  tl_name :: string
  tl_description :: string
  tl_input_schema :: obj
  tl_output_schema :: obj
  tl_annotations :: tool_behavior

text \<open>\<open>ToolSpec::catalog_tool\<close> and \<open>tool\<close>; \<open>None\<close> is a panic.\<close>

definition catalog_tool :: "derived_schemas \<Rightarrow> tool_spec \<Rightarrow> published_tool option" where
  "catalog_tool ds spec =
     (case tool_types (spec_kind spec) of (i, out) \<Rightarrow>
       (case schema_object (derive_input ds i) of None \<Rightarrow> None
        | Some input \<Rightarrow>
       (case tool_output_schema (derive_output ds out) (derive_output ds CredentialFailureOutputT) of None \<Rightarrow> None
        | Some output \<Rightarrow> Some
           \<lparr> tl_name = spec_name spec, tl_description = tool_description (spec_kind spec),
             tl_input_schema = input, tl_output_schema = output,
             tl_annotations = spec_behavior spec \<rparr>)))"

fun catalog_tools :: "derived_schemas \<Rightarrow> tool_spec list \<Rightarrow> published_tool list option" where
  "catalog_tools ds [] = Some []"
| "catalog_tools ds (spec # specs) =
     (case catalog_tool ds spec of None \<Rightarrow> None
      | Some tool \<Rightarrow> map_option ((#) tool) (catalog_tools ds specs))"

text \<open>The whole registry is built before it is filtered, once for every profile.\<close>

definition profile_catalog :: "derived_schemas \<Rightarrow> tool_profile \<Rightarrow> published_tool list option" where
  "profile_catalog ds profile =
     map_option (\<lambda>tools. map snd (filter (\<lambda>(spec, tool). profile_permits profile spec) (zip tool_registry tools)))
       (catalog_tools ds tool_registry)"

definition handler_catalog :: "derived_schemas \<Rightarrow> 'f handler \<Rightarrow> published_tool list option" where
  "handler_catalog ds h =
     profile_catalog ds (if h_admin h = None then ReadOnly else h_profile h)"

lemma catalog_tools_of: "catalog_tools ds specs = Some tools \<Longrightarrow>
    list_all2 (\<lambda>spec tool. catalog_tool ds spec = Some tool) specs tools"
  by (induction specs arbitrary: tools) (auto split: option.splits)

lemma list_all2_filter_zip:
  "list_all2 R xs ys \<Longrightarrow> list_all2 R (filter P xs) (map snd (filter (\<lambda>(x, y). P x) (zip xs ys)))"
  by (induction rule: list_all2_induct) auto

lemma list_all2_member: "list_all2 R xs ys \<Longrightarrow> x \<in> set xs \<Longrightarrow> \<exists>y \<in> set ys. R x y"
  by (induction rule: list_all2_induct) auto

lemma profile_catalog_of:
  assumes "profile_catalog ds profile = Some tools"
  shows "list_all2 (\<lambda>spec tool. catalog_tool ds spec = Some tool) (list_tools_for_profile profile) tools"
proof -
  obtain all where all: "catalog_tools ds tool_registry = Some all"
    "tools = map snd (filter (\<lambda>(spec, tool). profile_permits profile spec) (zip tool_registry all))"
    using assms by (auto simp: profile_catalog_def)
  show ?thesis
    unfolding list_tools_for_profile_def all(2) by (rule list_all2_filter_zip [OF catalog_tools_of [OF all(1)]])
qed

lemma handler_catalog_spec:
  assumes "handler_catalog ds h = Some tools" "find_spec (h_admin h \<noteq> None) (h_profile h) name = Some spec"
  shows "\<exists>tool \<in> set tools. catalog_tool ds spec = Some tool \<and> tl_name tool = name"
proof -
  from find_spec_SomeD [OF assms(2)] have spec: "spec \<in> set tool_registry" "spec_name spec = name"
    "handler_permits (h_admin h \<noteq> None) (h_profile h) spec" by auto
  then have "spec \<in> set (list_tools_for_profile (if h_admin h = None then ReadOnly else h_profile h))"
    by (auto simp: list_tools_for_profile_def handler_permits_def)
  from list_all2_member [OF profile_catalog_of [OF assms(1) [unfolded handler_catalog_def]] this]
  obtain tool where "tool \<in> set tools" "catalog_tool ds spec = Some tool" by blast
  with spec(2) show ?thesis by (auto simp: catalog_tool_def split: prod.splits option.splits)
qed

section \<open>Answers\<close>

lemma gives_type:
  "gives (run_tool env te h kind params) (\<lambda>r. output_type_of (cr_output r) = snd (tool_types kind))"
proof -
  have s: "gives (structured out) (\<lambda>r. output_type_of (cr_output r) = ty)" if "output_type_of out = ty" for out ty
    unfolding structured_def by (rule gives_basic) (simp add: that)
  show ?thesis
    by (cases kind; simp only: run_tool.simps tool_defs Let_def)
      ((intro gives_bind [OF gives_anything] s gives_split)+, simp)+
qed

lemma call_tool_answer:
  assumes "call_tool env te h ct params w = (Inr result, w')"
  shows "\<exists>spec. find_spec (h_admin h \<noteq> None) (h_profile h) (cp_name params) = Some spec \<and>
    output_type_of (cr_output result) =
      (if cr_is_error result then CredentialFailureOutputT else snd (tool_types (spec_kind spec)))"
proof (cases rule: call_tool_cases [of env te h ct params w])
  case (refused v)
  with assms show ?thesis by simp
next
  case (run w1 r v)
  then have "finish_call (r, v) = (Inr result, w')" using assms by simp
  then show ?thesis
  proof (cases rule: finish_call_cases)
    case (answer q)
    then have result: "r = Inr result" by simp
    from dispatch_Inr [OF run(8) [unfolded result]] obtain spec p u where p:
      "find_spec (h_admin h \<noteq> None) (h_profile h) (cp_name params) = Some spec"
      "run_tool (call_env env h ct) te (invocation h ct) (spec_kind spec) params w1 = (Inr p, u)"
      "result = trust_annotated p" by auto
    with givesD [OF gives_type p(2)] givesD [OF gives_no_error p(2)] show ?thesis
      by (simp add: trust_annotated_def)
  next
    case (answered e d data)
    have "find_spec (h_admin h \<noteq> None) (h_profile h) (cp_name params) \<noteq> None"
    proof
      assume "find_spec (h_admin h \<noteq> None) (h_profile h) (cp_name params) = None"
      with run(8) answered(1,3) show False by (auto simp: dispatch_def method_not_found_def simp del: not_None_eq)
    qed
    with answered(5) show ?thesis by (auto simp: failure_answer_def)
  qed simp_all
qed

section \<open>Arguments\<close>

definition call_arguments :: "call_params \<Rightarrow> json" where
  "call_arguments params = JObj (case cp_arguments params of None \<Rightarrow> [] | Some fs \<Rightarrow> fs)"

definition arguments_refused :: mcp_error where
  "arguments_refused = invalid_params ''arguments do not match the advertised schema'' None"

lemma parse_refused: "de (call_arguments params) = None \<Longrightarrow> parse de params = Inl arguments_refused"
  by (simp add: parse_def call_arguments_def arguments_refused_def ok_or_def)

lemma bind_refused: "r = Inl e \<Longrightarrow> bind_io (lift r) f = fail e"
  by (simp add: bind_io_def fun_eq_iff)

lemma run_tool_refuses:
  "\<not> input_fits te (fst (tool_types kind)) (call_arguments params) \<Longrightarrow>
    run_tool env te h kind params = fail arguments_refused"
  by (cases kind; simp only: run_tool.simps tool_defs tool_types.simps fst_conv input_fits.simps not_not)
    (rule bind_refused, rule parse_refused, assumption)+

lemma call_tool_refuses:
  assumes "find_spec (h_admin h \<noteq> None) (h_profile h) (cp_name params) = Some spec"
    and "\<not> input_fits te (fst (tool_types (spec_kind spec))) (call_arguments params)"
    and "call_tool env te h ct params w = (r, w')"
  shows "sent w' = sent w \<and> store w' = store w \<and>
    (r = Inl (Fail arguments_refused) \<or> r = Inl (Fail ended_error))"
proof (cases rule: call_tool_cases [of env te h ct params w])
  case (refused v)
  with assms(3) show ?thesis by auto
next
  case (run w1 q v)
  then have "q = Inl (Fail arguments_refused)" "v = w1"
    using assms(1) run_tool_refuses [OF assms(2), of "call_env env h ct" "invocation h ct"]
    by (simp_all add: dispatch_def bind_io_def del: not_None_eq)
  with run assms(3) show ?thesis
    by (simp add: finish_call_def carries_file_def arguments_refused_def invalid_params_def)
qed

section \<open>Properties\<close>

text \<open>
  What is documented of \<open>schemars\<close> and \<open>serde\<close>: the schema derived for an output type is an object
  whose references are defined in it, and it accepts the serialised values of the type.
\<close>

definition schemas_documented ::
  "derived_schemas \<Rightarrow> schema_env \<Rightarrow> nat \<Rightarrow> (tool_output \<Rightarrow> obj) \<Rightarrow> bool" where
  "schemas_documented ds sx n serialize \<longleftrightarrow>
     (\<forall>ty. \<exists>fs. derive_output ds ty = JObj fs \<and> closed_document fs) \<and>
     (\<forall>out fs. derive_output ds (output_type_of out) = JObj fs \<longrightarrow>
        document_accepts sx n fs (JObj (serialize out)))"

text \<open>The schema published for a tool accepts the outputs of its type and the failures.\<close>

lemma published_output_schema:
  assumes doc: "schemas_documented ds sx n serialize" and tool: "catalog_tool ds spec = Some tool"
    and ty: "output_type_of out = CredentialFailureOutputT \<or> output_type_of out = snd (tool_types (spec_kind spec))"
  shows "document_accepts sx n (tl_output_schema tool) (JObj (serialize out))"
proof -
  let ?o = "snd (tool_types (spec_kind spec))"
  obtain s f where s: "derive_output ds ?o = JObj s" "closed_document s"
    and f: "derive_output ds CredentialFailureOutputT = JObj f" "closed_document f"
    using doc unfolding schemas_documented_def by meson
  have "tool_output_schema (JObj s) (JObj f) = Some (tl_output_schema tool)"
    using tool s(1) f(1) by (auto simp: catalog_tool_def split: prod.splits option.splits)
  note accepts = tool_output_schema_accepts [OF this s(2) f(2), of sx n "JObj (serialize out)"]
  have "document_accepts sx n s (JObj (serialize out)) \<or> document_accepts sx n f (JObj (serialize out))"
    using doc ty s(1) f(1) unfolding schemas_documented_def by metis
  then show ?thesis by (simp add: accepts)
qed

definition sample_schemas :: derived_schemas where
  "sample_schemas = \<lparr> derive_input = (\<lambda>_. JObj sample_output),
     derive_output = (\<lambda>ty. JObj (if ty = CredentialFailureOutputT then sample_failure else sample_output)) \<rparr>"

definition sample_serialize :: "tool_output \<Rightarrow> obj" where
  "sample_serialize out =
     (if output_type_of out = CredentialFailureOutputT then [(''code'', JInt 5)] else [(''unit'', JNull)])"

lemma sample_schemas_documented: "schemas_documented sample_schemas sample_schema_env 1 sample_serialize"
proof -
  have "closed_document sample_output" "closed_document sample_failure"
    "document_accepts sample_schema_env 1 sample_failure (JObj [(''code'', JInt 5)])"
    "document_accepts sample_schema_env 1 sample_output (JObj [(''unit'', JNull)])" by code_simp+
  then show ?thesis by (simp add: schemas_documented_def sample_schemas_def sample_serialize_def)
qed

lemma catalog_tools_built:
  assumes "\<And>spec. catalog_tool ds spec \<noteq> None"
  shows "catalog_tools ds specs \<noteq> None"
proof (induction specs)
  case (Cons spec specs)
  with assms [of spec] show ?case by (auto split: option.split)
qed simp

lemma sample_catalog: "handler_catalog sample_schemas h \<noteq> None"
proof -
  have "schema_object (JObj sample_output) \<noteq> None"
    "tool_output_schema (JObj sample_output) (JObj sample_failure) \<noteq> None"
    "tool_output_schema (JObj sample_failure) (JObj sample_failure) \<noteq> None" by code_simp+
  then have "catalog_tool sample_schemas spec \<noteq> None" for spec
    by (auto simp: catalog_tool_def sample_schemas_def split: prod.split option.split)
  then show ?thesis
    using catalog_tools_built [of sample_schemas] by (simp add: handler_catalog_def profile_catalog_def)
qed

text \<open>
  C8: What a call answers validates against the output schema published for the tool it names:
  the name is in the handler's listing, and the schema listed with it, after rewriting and joined with
  that of failures, accepts the serialised answer, whether it is the tool's output or a failure.
\<close>

theorem answers_match_published_schema:
  assumes "schemas_documented ds sx n serialize" "handler_catalog ds h = Some tools"
    and "call_tool env te h ct params w = (Inr result, w')"
  shows "\<exists>tool \<in> set tools. tl_name tool = cp_name params \<and>
    document_accepts sx n (tl_output_schema tool) (JObj (serialize (cr_output result)))"
proof -
  obtain spec where spec: "find_spec (h_admin h \<noteq> None) (h_profile h) (cp_name params) = Some spec"
    "output_type_of (cr_output result) =
      (if cr_is_error result then CredentialFailureOutputT else snd (tool_types (spec_kind spec)))"
    using call_tool_answer [OF assms(3)] by blast
  obtain tool where "tool \<in> set tools" "catalog_tool ds spec = Some tool" "tl_name tool = cp_name params"
    using handler_catalog_spec [OF assms(2) spec(1)] by blast
  with published_output_schema [OF assms(1), of spec tool "cr_output result"] spec(2) show ?thesis
    by (auto split: if_splits)
qed

theorem answers_match_published_schema_witness:
  "\<exists>tool \<in> set (the (handler_catalog sample_schemas sample_handler)). tl_name tool = ''stacks.status'' \<and>
    document_accepts sample_schema_env 1 (tl_output_schema tool) (JObj [(''unit'', JNull)])"
proof -
  let ?call = "call_tool sample_core sample_tools sample_handler (\<lambda>_. False)
      (sample_call ''stacks.status'') (initial_world ())"
  have "case fst ?call of Inl _ \<Rightarrow> False | Inr r \<Rightarrow> \<not> cr_is_error r \<and>
      sample_serialize (cr_output r) = [(''unit'', JNull)]" by code_simp
  then obtain r where r: "fst ?call = Inr r" "sample_serialize (cr_output r) = [(''unit'', JNull)]"
    by (auto split: sum.splits)
  then have "?call = (Inr r, snd ?call)" by (metis prod.collapse)
  moreover obtain tools where tools: "handler_catalog sample_schemas sample_handler = Some tools"
    using sample_catalog by blast
  ultimately show ?thesis
    using answers_match_published_schema [OF sample_schemas_documented tools] r(2)
    by (fastforce simp: sample_call_def)
qed

text \<open>
  C9: A call whose arguments do not deserialise into the input type listed for its tool sends
  nothing, takes and publishes no file, and is refused for its arguments, or because it had ended.
\<close>

theorem refused_arguments_send_nothing:
  assumes "find_spec (h_admin h \<noteq> None) (h_profile h) (cp_name params) = Some spec"
    and "\<not> input_fits te (fst (tool_types (spec_kind spec))) (call_arguments params)"
    and "call_tool env te h ct params w = (r, w')"
  shows "sent w' = sent w \<and> store w' = store w \<and>
    (r = Inl (Fail arguments_refused) \<or> r = Inl (Fail ended_error))"
  using assms by (rule call_tool_refuses)

definition bare_call :: call_params where
  "bare_call = \<lparr> cp_name = ''stacks.deploy'', cp_arguments = None \<rparr>"

theorem refused_arguments_send_nothing_witness:
  "sent (snd (call_tool sample_core sample_tools sample_handler (\<lambda>_. False) bare_call (initial_world ()))) = []"
proof -
  have "find_spec (h_admin sample_handler \<noteq> None) (h_profile sample_handler) (cp_name bare_call) =
      Some (the (find_spec (h_admin sample_handler \<noteq> None) (h_profile sample_handler) (cp_name bare_call)))"
    "\<not> input_fits sample_tools (fst (tool_types (spec_kind (the (find_spec (h_admin sample_handler \<noteq> None)
      (h_profile sample_handler) (cp_name bare_call)))))) (call_arguments bare_call)"
    "sent (initial_world ()) = []" by code_simp+
  with refused_arguments_send_nothing [OF this(1,2) prod.collapse [symmetric]] show ?thesis by metis
qed

end
