(* ===== verification/Server_Process.thy ===== *)
theory Server_Process
  imports Server_Router Mcp_Catalog
begin

text \<open>
  The process (\<open>main.rs\<close>, \<open>lib.rs\<close>): which command lines are accepted, what each mode prints,
  probes or serves, in the order of \<open>run\<close>, and how a serving process ends after a signal. Command
  line parsing, sockets and the HTTP client are parameters.
\<close>

section \<open>Command lines\<close>

text \<open>The \<open>conflicts_with\<close> declarations of \<open>Args\<close>; \<open>profile_given\<close>: \<open>--tool-profile\<close> occurs.\<close>

definition arguments_accepted :: "arguments \<Rightarrow> bool \<Rightarrow> bool" where
  "arguments_accepted a profile_given \<longleftrightarrow>
     \<not> (ar_stdio a \<and> (ar_healthcheck a \<or> ar_emit_gateway_manifest a \<or> ar_emit_tools_json a)) \<and>
     \<not> (ar_healthcheck a \<and> (ar_emit_gateway_manifest a \<or> ar_emit_tools_json a)) \<and>
     \<not> (ar_emit_tools_json a \<and> (ar_healthcheck a \<or> ar_emit_gateway_manifest a)) \<and>
     \<not> (ar_emit_gateway_contract_json a \<and>
       (ar_stdio a \<or> ar_healthcheck a \<or> ar_emit_gateway_manifest a \<or> ar_emit_tools_json a)) \<and>
     \<not> (profile_given \<and> ar_healthcheck a)"

text \<open>On an accepted command line the mode is the one flag that is set.\<close>

lemma run_mode_accepted:
  assumes "arguments_accepted a profile_given"
  shows "run_mode_of a = ServeStdio \<longleftrightarrow> ar_stdio a"
    "run_mode_of a = Healthcheck \<longleftrightarrow> ar_healthcheck a"
    "run_mode_of a = EmitManifest \<longleftrightarrow> ar_emit_gateway_manifest a"
    "run_mode_of a = EmitTools \<longleftrightarrow> ar_emit_tools_json a"
    "run_mode_of a = EmitContract \<longleftrightarrow> ar_emit_gateway_contract_json a"
  using assms by (auto simp: arguments_accepted_def run_mode_of_def)

section \<open>Starting\<close>

text \<open>The exported contract: the version and the listing with qualified names.\<close>

definition gateway_contract_for_profile ::
  "derived_schemas \<Rightarrow> string \<Rightarrow> tool_profile \<Rightarrow> (string \<times> published_tool list) option" where
  "gateway_contract_for_profile ds version profile =
     map_option (\<lambda>tools. (version, map (\<lambda>tool. tool\<lparr>tl_name := ''komodo.'' @ tl_name tool\<rparr>) tools))
       (profile_catalog ds profile)"

text \<open>What \<open>run\<close> comes to before it waits; \<open>None\<close> is a panic of the catalogue.\<close>

datatype 's start =
    Contract string "published_tool list"
  | Listing "published_tool list"
  | Manifest string
  | Probe host nat
  | Stdio "transfer_files handler"
  | Http settings "transfer_files handler" "'s router" "host \<times> nat"

record ('s, 'k, 'd) process_env =
  pe_jwt :: "('s, 'k, 'd) jwt_env"
  pe_url_parse :: "string \<Rightarrow> string + url"
  pe_log_filter :: "string \<Rightarrow> bool"
  pe_client_built :: bool
  pe_verifier_built :: bool
  pe_ip_parse :: "string \<Rightarrow> host option"
  pe_schemas :: derived_schemas
  pe_version :: string

text \<open>\<open>healthcheck\<close>: the address its request goes to, with the path \<open>/healthz\<close>.\<close>

definition healthcheck_target :: "(string \<Rightarrow> host option) \<Rightarrow> environment \<Rightarrow> start_error + host \<times> nat" where
  "healthcheck_target ip_parse en =
     rbind (map_err StartSettings (listener_from_environment en)) (\<lambda>l.
     rbind (listener_address ip_parse (ls_host l) (ls_port l)) (\<lambda>(ip, port).
     Inr (healthcheck_host ip, port)))"

text \<open>The HTTP server up to \<open>TcpListener::bind\<close>.\<close>

definition start_http ::
  "('s, 'k, 'd) process_env \<Rightarrow> environment \<Rightarrow> tool_profile
    \<Rightarrow> start_error + settings \<times> transfer_files handler \<times> 's router \<times> host \<times> nat" where
  "start_http pe en profile =
     rbind (http_handler (pe_jwt pe) (pe_url_parse pe) (pe_log_filter pe) (pe_client_built pe) en profile) (\<lambda>(s, h).
     rbind (map_err StartIdentity (build_router (pe_verifier_built pe) s)) (\<lambda>ro.
     rbind (listener_address (pe_ip_parse pe) (se_host s) (se_port s)) (\<lambda>address.
     Inr (s, h, ro, address))))"

definition run_process ::
  "('s, 'k, 'd) process_env \<Rightarrow> environment \<Rightarrow> arguments \<Rightarrow> (start_error + 's start) option" where
  "run_process pe en a =
     (let profile = ar_tool_profile a in
      case run_mode_of a of
        EmitContract \<Rightarrow> map_option (\<lambda>(version, tools). Inr (Contract version tools))
          (gateway_contract_for_profile (pe_schemas pe) (pe_version pe) profile)
      | EmitTools \<Rightarrow> map_option (\<lambda>tools. Inr (Listing tools)) (profile_catalog (pe_schemas pe) profile)
      | EmitManifest \<Rightarrow> Some (Inr (Manifest (gateway_manifest_for_profile profile)))
      | Healthcheck \<Rightarrow> Some (rbind (healthcheck_target (pe_ip_parse pe) en) (\<lambda>(ip, port). Inr (Probe ip port)))
      | ServeStdio \<Rightarrow> Some (rbind (stdio_handler (pe_url_parse pe) (pe_client_built pe) en profile)
          (\<lambda>h. Inr (Stdio h)))
      | ServeHttp \<Rightarrow> Some (rbind (start_http pe en profile) (\<lambda>(s, h, ro, address). Inr (Http s h ro address))))"

text \<open>
  The probe reaches the listener of a process with the same environment: an address accepts the
  connections made to it, an unspecified one those to every local address of its family.
\<close>

definition unspecified :: "host \<Rightarrow> bool" where
  "unspecified ip \<longleftrightarrow> (case ip of
       HostIpv4 a \<Rightarrow> a = \<lparr> octet_a = 0, octet_b = 0, octet_c = 0, octet_d = 0 \<rparr>
     | HostIpv6 a \<Rightarrow> segments a = replicate 8 0
     | HostDomain _ \<Rightarrow> False)"

definition loopback :: "host \<Rightarrow> bool" where
  "loopback ip \<longleftrightarrow> (case ip of HostIpv4 a \<Rightarrow> ipv4_is_loopback a | HostIpv6 a \<Rightarrow> ipv6_is_loopback a
     | HostDomain _ \<Rightarrow> False)"

definition same_family :: "host \<Rightarrow> host \<Rightarrow> bool" where
  "same_family x y \<longleftrightarrow> (case (x, y) of (HostIpv4 _, HostIpv4 _) \<Rightarrow> True | (HostIpv6 _, HostIpv6 _) \<Rightarrow> True
     | _ \<Rightarrow> False)"

lemma healthcheck_host_reaches:
  "if unspecified ip then loopback (healthcheck_host ip) \<and> same_family ip (healthcheck_host ip)
   else healthcheck_host ip = ip"
  by (auto simp: unspecified_def healthcheck_host_def loopback_def same_family_def
      ipv4_is_loopback_def ipv6_is_loopback_def split: host.splits)

lemma probe_reaches_listener:
  assumes "start_http pe en profile = Inr (s, h, ro, ip, port)"
  shows "healthcheck_target (pe_ip_parse pe) en = Inr (healthcheck_host ip, port)"
proof -
  obtain l where l: "listener_from_environment en = Inr l" "se_host s = ls_host l" "se_port s = ls_port l"
    using assms by (auto simp: start_http_def http_handler_def http_settings_def settings_from_def rust_results
        split: prod.splits)
  moreover have "listener_address (pe_ip_parse pe) (se_host s) (se_port s) = Inr (ip, port)"
    using assms by (auto simp: start_http_def rust_results)
  ultimately show ?thesis by (simp add: healthcheck_target_def rust_results)
qed

section \<open>Ending\<close>

text \<open>
  The end of \<open>run\<close> over HTTP. \<open>server\<close> is when the server's future resolves and whether without an
  error, given when its graceful shutdown began; \<open>signal\<close> is when the shutdown signal's future
  resolves and whether the signal could be awaited. \<open>select!\<close> is not biased: \<open>signal_first\<close> is its
  choice when both are ready.
\<close>

datatype process_exit = Exited | ServeFailed | SignalFailed | DeadlineExceeded | DrainFailed

definition drain_deadline :: nat where "drain_deadline = secs 5"

definition drain :: "(nat option \<Rightarrow> (nat \<times> bool) option) \<Rightarrow> nat \<Rightarrow> bool \<Rightarrow> nat \<times> process_exit" where
  "drain server u heard =
     (if \<not> heard then (u, SignalFailed)
      else case server (Some u) of
        None \<Rightarrow> (u + drain_deadline, DeadlineExceeded)
      | Some (t, ok) \<Rightarrow>
          if t \<le> u + drain_deadline then (max t u, if ok then Exited else DrainFailed)
          else (u + drain_deadline, DeadlineExceeded))"

definition serve_http ::
  "(nat option \<Rightarrow> (nat \<times> bool) option) \<Rightarrow> bool \<Rightarrow> (nat \<times> bool) option \<Rightarrow> (nat \<times> process_exit) option" where
  "serve_http server signal_first signal =
     (case (server None, signal) of
        (None, None) \<Rightarrow> None
      | (Some (t, ok), None) \<Rightarrow> Some (t, if ok then Exited else ServeFailed)
      | (None, Some (u, heard)) \<Rightarrow> Some (drain server u heard)
      | (Some (t, ok), Some (u, heard)) \<Rightarrow>
          if t < u \<or> t = u \<and> \<not> signal_first then Some (t, if ok then Exited else ServeFailed)
          else Some (drain server u heard))"

text \<open>\<open>main\<close>: a blocked read of the standard input holds the process for at most one more second.\<close>

definition process_end :: "nat \<Rightarrow> nat option \<Rightarrow> nat" where
  "process_end t blocked = t + (case blocked of None \<Rightarrow> secs 1 | Some d \<Rightarrow> min d (secs 1))"

text \<open>After a signal the process ends, within six seconds, whatever its connections do.\<close>

lemma process_stops:
  "\<exists>t e. serve_http server signal_first (Some (u, heard)) = Some (t, e) \<and>
    process_end t blocked \<le> u + drain_deadline + secs 1"
proof -
  have "fst (drain server u heard) \<le> u + drain_deadline"
    by (auto simp: drain_def drain_deadline_def split: option.split prod.split)
  moreover have "process_end t blocked \<le> t + secs 1" for t
    by (simp add: process_end_def split: option.split)
  ultimately have "process_end (fst (drain server u heard)) blocked \<le> u + drain_deadline + secs 1"
    by (meson add_le_mono1 order_trans)
  moreover have "process_end t blocked \<le> u + drain_deadline + secs 1" if "t \<le> u" for t
    using \<open>\<And>t. process_end t blocked \<le> t + secs 1\<close> [of t] that by simp
  ultimately show ?thesis
    by (cases "server None"; cases "drain server u heard") (auto simp: serve_http_def split: prod.split)
qed

end
