(* ===== verification/Mcp_Links.thy ===== *)
theory Mcp_Links
  imports Mcp_Calls
begin

text \<open>
  Where the requests of a call go. Every request a handler sends carries the credentials of one
  of its clients and is addressed to the endpoint that client's base URL joins to. \<open>addresses\<close>
  composes like the code does; \<open>Server_Links\<close> draws the consequence for a whole process.
\<close>

named_theorems link_intros \<open>where computations send, composed\<close>

definition api_families :: "string set" where
  "api_families = {''read'', ''write'', ''execute''}"

lemma api_families [link_intros]:
  "''read'' \<in> api_families" "''write'' \<in> api_families" "''execute'' \<in> api_families"
  by (simp_all add: api_families_def)

definition addressed :: "env \<Rightarrow> client set \<Rightarrow> http_request \<Rightarrow> bool" where
  "addressed env C rq \<longleftrightarrow> rq_family rq \<in> api_families \<and> (\<exists>c \<in> C. rq_credentials rq = cl_credentials c \<and>
     url_join env (cl_base_url c) (rq_family rq) = Some (rq_endpoint rq))"

definition addresses :: "env \<Rightarrow> client set \<Rightarrow> ('f, 'e, 'a) io \<Rightarrow> bool" where
  "addresses env C m \<longleftrightarrow> (\<forall>w. \<exists>rs. sent (snd (m w)) = sent w @ rs \<and> list_all (addressed env C) rs)"

lemma addressesI:
  "(\<And>w. \<exists>rs. sent (snd (m w)) = sent w @ rs \<and> list_all (addressed env C) rs) \<Longrightarrow> addresses env C m"
  by (simp add: addresses_def)

lemma addressesD:
  "addresses env C m \<Longrightarrow> m w = (r, w') \<Longrightarrow> \<exists>rs. sent w' = sent w @ rs \<and> list_all (addressed env C) rs"
  unfolding addresses_def by (metis snd_conv)

lemma addresses_mute: "mute m \<Longrightarrow> addresses env C m"
  by (rule addressesI) (simp add: mute_def no_traffic_def)

lemma addresses_basic [link_intros]:
  "addresses env C (ret x)" "addresses env C (fail e)" "addresses env C (lift r)"
  "addresses env C (get_now env')"
  by (auto intro: addresses_mute)

lemma addresses_then:
  assumes "\<exists>rs. sent v = sent w @ rs \<and> list_all (addressed env C) rs" "addresses env C m"
  shows "\<exists>rs. sent (snd (m v)) = sent w @ rs \<and> list_all (addressed env C) rs"
proof -
  obtain rs rs' where "sent v = sent w @ rs" "list_all (addressed env C) rs"
    "sent (snd (m v)) = sent v @ rs'" "list_all (addressed env C) rs'"
    using assms unfolding addresses_def by blast
  then show ?thesis by (intro exI [of _ "rs @ rs'"]) simp
qed

lemma addresses_bind [link_intros]:
  assumes m: "addresses env C m" and f: "\<And>x. addresses env C (f x)"
  shows "addresses env C (bind_io m f)"
proof (rule addressesI)
  fix w
  show "\<exists>rs. sent (snd (bind_io m f w)) = sent w @ rs \<and> list_all (addressed env C) rs"
  proof (cases rule: bind_io_cases [of m w f])
    case (1 e w')
    from addressesD [OF m 1(1)] show ?thesis unfolding 1(2) by simp
  next
    case (2 x w')
    from addresses_then [OF addressesD [OF m 2(1)] f] show ?thesis unfolding 2(2) .
  qed
qed

lemma addresses_or_else [link_intros]:
  assumes m: "addresses env C m" and h: "\<And>e. mute (h e)"
  shows "addresses env C (or_else h m)"
proof (rule addressesI)
  fix w
  show "\<exists>rs. sent (snd (or_else h m w)) = sent w @ rs \<and> list_all (addressed env C) rs"
  proof (cases rule: or_else_cases [of m w h])
    case (1 r w')
    from addressesD [OF m 1(1)] show ?thesis unfolding 1(2) .
  next
    case (2 e w')
    from addresses_then [OF addressesD [OF m 2(1)] addresses_mute [OF h]] show ?thesis unfolding 2(2) .
  qed
qed

lemma addresses_if [link_intros]:
  "addresses env C m \<Longrightarrow> addresses env C m' \<Longrightarrow> addresses env C (if b then m else m')"
  by simp

lemma addresses_split [link_intros]:
  "(\<And>a b. x = (a, b) \<Longrightarrow> addresses env C (f a b)) \<Longrightarrow> addresses env C (case x of (a, b) \<Rightarrow> f a b)"
  by (cases x) simp

lemma addresses_map_io [link_intros]:
  "(\<And>x. addresses env C (f x)) \<Longrightarrow> addresses env C (map_io f xs)"
  by (induction xs) (auto intro!: link_intros)

lemma addresses_pointwise:
  "(\<And>w. \<exists>m'. addresses env C m' \<and> m w = m' w) \<Longrightarrow> addresses env C m"
  unfolding addresses_def by metis

lemma addresses_with_timeout [link_intros]:
  fixes m :: "('f, 'e, 'a) io"
  assumes "addresses env C m"
  shows "addresses env C (with_timeout env' d e m)"
proof (rule addressesI)
  fix w :: "'f world"
  let ?w = "w\<lparr>timeout_at := Some (now env' (steps w) + d), steps := Suc (steps w)\<rparr>"
  obtain r v where "m ?w = (r, v)" by fastforce
  with addressesD [OF assms this]
  show "\<exists>rs. sent (snd (with_timeout env' d e m w)) = sent w @ rs \<and> list_all (addressed env C) rs"
    by (simp add: with_timeout_def)
qed

section \<open>Clients\<close>

lemma addresses_post [link_intros]:
  assumes "family \<in> api_families" "c \<in> C"
  shows "addresses env C (post env c family variant params retry dec)"
proof (rule addressesI)
  fix w :: "'f world"
  obtain n where "sent (snd (post env c family variant params retry dec w)) = sent w @
       (case url_join env (cl_base_url c) family of None \<Rightarrow> []
        | Some endpoint \<Rightarrow> replicate n (make_request c endpoint family variant params))"
    using post_sent by blast
  with assms show "\<exists>rs. sent (snd (post env c family variant params retry dec w)) = sent w @ rs \<and>
      list_all (addressed env C) rs"
    by (auto simp: addressed_def make_request_def list_all_iff split: option.splits)
qed

lemma addresses_core_version [link_intros]:
  assumes "c \<in> C"
  shows "addresses env C (core_2_3_or_later env c)"
proof (rule addresses_pointwise)
  fix w :: "'f world"
  have keep: "addresses env C (\<lambda>w. (Inr b, w\<lparr>core_version := f w\<rparr>))"
    for b :: bool and f :: "'f world \<Rightarrow> client_role \<Rightarrow> cached_core_version option"
    by (rule addressesI) simp
  have refresh: "addresses env C (refresh_core_version env c :: ('f, api_error, bool) io)"
    unfolding refresh_core_version_def api_version_def by (intro link_intros keep assms)
  then have "addresses env C (bind_io (get_now env) (\<lambda>t.
      if t < cv_expires_at v then ret (at_least_2_3 v) else refresh_core_version env c :: ('f, api_error, bool) io))" for v
    by (intro link_intros)
  with refresh show "\<exists>m'. addresses env C m' \<and> core_2_3_or_later env c w = m' w"
    unfolding core_2_3_or_later_def by (cases "core_version w (cl_role c)") auto
qed

lemma addresses_inventory [link_intros]:
  assumes "c \<in> C"
  shows "addresses env C (inventory env c variant dec request)"
proof -
  have page: "addresses env C (inventory_page env c variant dec q n)" for q n
    unfolding inventory_page_def by (intro link_intros assms)
  have scan: "addresses env C (scan_pages env c variant dec sel pages matches)" for sel pages matches
    by (induction pages arbitrary: matches) (auto simp: Let_def intro!: link_intros page)
  have "addresses env C (versioned_inventory env c variant dec request)"
    unfolding versioned_inventory_def native_inventory_def legacy_read_def
    by (intro link_intros assms)
      (auto intro!: link_intros page scan assms split: inventory_request.splits nat.splits)
  then have "addresses env C (inventory_inner env c variant dec request)"
    unfolding inventory_inner_def by (cases request) (auto intro!: link_intros assms)
  then show ?thesis
    unfolding inventory_def by (cases request) (auto intro: addresses_with_timeout)
qed

lemma addresses_api [link_intros]:
  assumes "c \<in> C"
  shows "addresses env C (servers_inventory env c request)"
    "addresses env C (stacks_inventory env c request)"
    "addresses env C (deployments_inventory env c request)"
    "addresses env C (builds_inventory env c request)"
    "addresses env C (repos_inventory env c request)"
    "addresses env C (api_version env c)"
    "addresses env C (api_networks env c srv)"
    "addresses env C (api_network env c srv nw)"
    "addresses env C (api_operations_query env c page query)"
    "addresses env C (api_update env c operation_id)"
    "addresses env C (api_stack_detail env c sel)"
    "addresses env C (api_stack_log env c sel services tail timestamps)"
    "addresses env C (api_update_logs env c operation_id)"
    "addresses env C (api_execute env c a target)"
    "addresses env C (api_update_stack env c target patch)"
    "addresses env C (api_write_stack_file env c target file_path contents)"
  unfolding servers_inventory_def stacks_inventory_def deployments_inventory_def
    builds_inventory_def repos_inventory_def api_version_def api_networks_def api_network_def
    api_operations_query_def api_update_def api_stack_detail_def api_stack_log_def
    api_update_logs_def api_execute_def api_update_stack_def api_write_stack_file_def
  by (intro link_intros assms)+

section \<open>Calls\<close>

definition handler_clients :: "'f handler \<Rightarrow> client set" where
  "handler_clients h = {h_read h} \<union> set_option (h_admin h)"

lemma handler_clients_read [link_intros]: "h_read h \<in> handler_clients h"
  by (simp add: handler_clients_def)

lemmas mute_errors [link_intros] = mute_to_mcp_error mute_mutation_error mute_operation_lookup_error

lemma addresses_map_api [link_intros]: "addresses env C m \<Longrightarrow> addresses env C (map_api env' h m)"
  unfolding map_api_def by (intro link_intros)

lemma addresses_submit [link_intros]:
  assumes "\<And>a. a \<in> handler_clients h \<Longrightarrow> addresses env (handler_clients h) (request a)"
  shows "addresses env (handler_clients h) (submit env h target tool request)"
proof (rule addressesI)
  fix w
  let ?f = "\<lambda>admin. or_else (mutation_error env h target tool) (request admin)"
  show "\<exists>rs. sent (snd (submit env h target tool request w)) = sent w @ rs \<and>
      list_all (addressed env (handler_clients h)) rs"
    unfolding submit_def
  proof (cases rule: bind_io_cases [of "admin_client env h" w ?f])
    case (1 e w')
    then show "\<exists>rs. sent (snd (bind_io (admin_client env h) ?f w)) = sent w @ rs \<and>
        list_all (addressed env (handler_clients h)) rs"
      using muteD [OF mute_admin_client 1(1)] by (simp add: no_traffic_def)
  next
    case (2 a w')
    then have a: "a \<in> handler_clients h" "sent w' = sent w"
      by (simp_all add: admin_client_Inr handler_clients_def)
    have "addresses env (handler_clients h) (?f a)"
      by (intro link_intros assms a)
    from addresses_then [OF _ this, of w' w] a(2) 2(2)
    show "\<exists>rs. sent (snd (bind_io (admin_client env h) ?f w)) = sent w @ rs \<and>
        list_all (addressed env (handler_clients h)) rs" by simp
  qed
qed

lemma addresses_select_from [link_intros]:
  "(\<And>request. addresses env C (list_fn env' (h_read h) request)) \<Longrightarrow>
     addresses env C (select_from env' h list_fn sel)"
  unfolding select_from_def by (intro link_intros)

lemma addresses_inventory_tool [link_intros]:
  assumes "\<And>request. addresses env C (list_fn env' (h_read h) request)"
  shows "addresses env C (search_tool env' h list_fn view strip out params)"
    "addresses env C (status_tool env' h list_fn view strip out1 params)"
  unfolding search_tool_def status_tool_def structured_def by (intro link_intros assms)+

lemma addresses_files [link_intros]:
  "addresses env C (structured out)"
  "addresses env C (admin_client env' h)"
  "addresses env C (project_operation env' te h p item)"
  "addresses env C (normalize_webhook_secret env' secret context)"
  "addresses env C (webhook_secret_text env' h input)"
proof -
  note mutes = addresses_mute [OF mute_publish_file] addresses_mute [OF mute_take_file]
    addresses_mute [OF mute_publish_document]
  show "addresses env C (structured out)"
    unfolding structured_def by (intro link_intros)
  show "addresses env C (admin_client env' h)" by (rule addresses_mute [OF mute_admin_client])
  have "addresses env C (publish_optional env' h d name)" for d name
    unfolding publish_optional_def by (auto split: option.split intro!: link_intros mutes)
  then show "addresses env C (project_operation env' te h p item)"
    unfolding project_operation_def publish_operation_def Let_def by (intro link_intros)
  show "addresses env C (normalize_webhook_secret env' secret context)"
    unfolding normalize_webhook_secret_def
    by (auto split: option.splits prod.splits intro!: link_intros mutes)
  show "addresses env C (webhook_secret_text env' h input)"
    unfolding webhook_secret_text_def
    by (auto split: webhook_secret_input.splits option.splits prod.splits intro!: link_intros mutes)
qed

lemma addresses_parts [link_intros]:
  "addresses env (handler_clients h) (selected_detail env h sel)"
  "addresses env (handler_clients h) (update_config env h sel patch applied tool)"
  "addresses env (handler_clients h) (mutation_target env h a sel)"
  unfolding selected_detail_def update_config_def resolve_stack_id_def mutation_target_def
  by (intro link_intros; assumption?)+

text \<open>Whatever tool a handler runs.\<close>

lemma addresses_run_tool: "addresses env (handler_clients h) (run_tool env te h kind params)"
proof -
  note defs = system_status_def search_servers_def server_status_tool_def search_stacks_def
    stack_status_tool_def search_deployments_def deployment_status_tool_def search_builds_def
    build_status_tool_def search_repos_def repo_status_tool_def search_networks_def read_network_def
    stack_diagnostics_tool_def stack_config_read_def stack_compose_read_def
    stack_environment_read_def stack_commands_read_def stack_webhook_status_def
    stack_webhook_secret_read_def stack_logs_tail_def search_operations_def
    operation_status_tool_def operation_logs_read_def mutate_def stack_config_patch_tool_def
    stack_compose_write_def stack_environment_write_def stack_commands_write_def
    stack_file_write_def stack_webhook_update_def stack_webhook_secret_write_def
    resolve_stack_id_def
  show ?thesis
    by (cases kind; simp only: run_tool.simps defs Let_def)
      (intro link_intros; assumption?)+
qed

text \<open>Whole calls: the environment of a call changes only when the select fires.\<close>

lemma addresses_dispatch: "addresses env (handler_clients h) (dispatch env te h params)"
  unfolding dispatch_def
  by (auto split: option.split intro!: link_intros addresses_run_tool)

lemma call_tool_addressed:
  "\<exists>rs. sent (snd (call_tool env te h ct params w)) = sent w @ rs \<and>
     list_all (addressed env (handler_clients h)) rs"
proof -
  have d: "addresses env (handler_clients h)
      (dispatch (call_env env h ct) te (invocation h ct) params)"
  proof -
    have "addressed (call_env env h ct) (handler_clients (invocation h ct)) = addressed env (handler_clients h)"
      by (simp add: fun_eq_iff addressed_def call_env_def handler_clients_def)
    with addresses_dispatch [of "call_env env h ct" "invocation h ct" te params]
    show ?thesis by (simp add: addresses_def)
  qed
  have s: "\<exists>rs. sent (snd (select_dispatch env te h ct params v)) = sent v @ rs \<and>
      list_all (addressed env (handler_clients h)) rs" for v
  proof (cases "call_ended env h ct (steps v)")
    case True
    then show ?thesis by (simp add: select_dispatch_def)
  next
    case False
    obtain r v' where r: "dispatch (call_env env h ct) te (invocation h ct) params v = (r, v')" by fastforce
    from addressesD [OF d r] show ?thesis using False by (simp add: select_dispatch_def r)
  qed
  show ?thesis
  proof (cases "h_budget h")
    case None
    with s show ?thesis by (simp add: call_tool_def)
  next
    case (Some b)
    with s [of "w\<lparr>steps := Suc (steps w)\<rparr>"] show ?thesis
      by (simp add: call_tool_def Let_def fail_def split: sum.split)
  qed
qed

end
