(* ===== verification/Server_Links.thy ===== *)
theory Server_Links
  imports Server_Router Mcp_Links
begin

text \<open>
  The links a whole process uses. The host test of \<open>validate_base_url\<close> is related to the address
  blocks reserved for private use, and the requests of every call of a started process to the
  configured base URL.
\<close>

section \<open>Private hosts\<close>

text \<open>
  The blocks of RFC 1918 and the loopback block as ranges of 32-bit addresses; unique local IPv6
  addresses have a first segment from \<open>fc00\<close> to \<open>fdff\<close>; a local name is a single label.
\<close>

definition dotted :: "nat \<Rightarrow> nat \<Rightarrow> nat \<Rightarrow> nat \<Rightarrow> nat" where
  "dotted a b c d = ((a * 256 + b) * 256 + c) * 256 + d"

definition ipv4_number :: "ipv4 \<Rightarrow> nat" where
  "ipv4_number a = dotted (unat (octet_a a)) (unat (octet_b a)) (unat (octet_c a)) (unat (octet_d a))"

definition private_blocks :: "(nat \<times> nat) list" where
  "private_blocks =
     [(dotted 10 0 0 0, dotted 10 255 255 255), (dotted 127 0 0 0, dotted 127 255 255 255),
      (dotted 172 16 0 0, dotted 172 31 255 255), (dotted 192 168 0 0, dotted 192 168 255 255)]"

definition private_host :: "host \<Rightarrow> bool" where
  "private_host h = (case h of
       HostIpv4 a \<Rightarrow> list_ex (\<lambda>(lowest, highest). lowest \<le> ipv4_number a \<and> ipv4_number a \<le> highest)
         private_blocks
     | HostIpv6 a \<Rightarrow> segments a = [0, 0, 0, 0, 0, 0, 0, 1] \<or>
         segments a \<noteq> [] \<and> 64512 \<le> unat (hd (segments a)) \<and> unat (hd (segments a)) \<le> 65023
     | HostDomain d \<Rightarrow> split_on (CHR ''.'') d = [d])"

text \<open>Where a request may carry credentials: over TLS, or in the clear to a private host.\<close>

definition protected_link :: "url \<Rightarrow> bool" where
  "protected_link u \<longleftrightarrow> url_scheme u = ''https'' \<or>
     url_scheme u = ''http'' \<and> (\<exists>h. url_host u = Some h \<and> private_host h)"

lemma dotted_block:
  assumes "b < 256" "c < 256" "d < 256"
  shows "dotted A B 0 0 \<le> dotted a b c d \<longleftrightarrow> A * 256 + B \<le> a * 256 + b"
    and "dotted a b c d \<le> dotted A B 255 255 \<longleftrightarrow> a * 256 + b \<le> A * 256 + B"
proof -
  let ?x = "a * 256 + b" and ?X = "A * 256 + B" and ?r = "c * 256 + d"
  have r: "?r < 65536" using assms by simp
  have n: "dotted a b c d = ?x * 65536 + ?r" "dotted A B 0 0 = ?X * 65536"
    "dotted A B 255 255 = ?X * 65536 + 65535"
    by (simp_all add: dotted_def algebra_simps)
  have low: "X * 65536 \<le> x * 65536 + r' \<longleftrightarrow> X \<le> x" if r': "r' < 65536" for x r' X :: nat
  proof
    show "X \<le> x" if "X * 65536 \<le> x * 65536 + r'" using that r' by linarith
    show "X * 65536 \<le> x * 65536 + r'" if "X \<le> x" using that by linarith
  qed
  have high: "x * 65536 + r' \<le> X * 65536 + 65535 \<longleftrightarrow> x \<le> X" if r': "r' < 65536" for x r' X :: nat
  proof
    show "x \<le> X" if "x * 65536 + r' \<le> X * 65536 + 65535" using that by linarith
    show "x * 65536 + r' \<le> X * 65536 + 65535" if "x \<le> X" using that r' by linarith
  qed
  from low [OF r, of ?X ?x] high [OF r, of ?x ?X] show "dotted A B 0 0 \<le> dotted a b c d \<longleftrightarrow> ?X \<le> ?x"
    "dotted a b c d \<le> dotted A B 255 255 \<longleftrightarrow> ?x \<le> ?X"
    unfolding n by blast+
qed

lemma octet_order:
  fixes a b A B :: nat
  assumes "b < 256" "B < 256"
  shows "A * 256 + B \<le> a * 256 + b \<longleftrightarrow> A < a \<or> A = a \<and> B \<le> b"
proof (cases A a rule: linorder_cases)
  case less
  then have "A * 256 + 256 \<le> a * 256" by linarith
  with assms less show ?thesis by simp
next
  case greater
  then have "a * 256 + 256 \<le> A * 256" by linarith
  with assms greater show ?thesis by simp
qed simp

lemma octet_blocks:
  fixes a b :: "8 word"
  shows "a = 10 \<longleftrightarrow> 10 * 256 + 0 \<le> unat a * 256 + unat b \<and> unat a * 256 + unat b \<le> 10 * 256 + 255"
    and "a = 127 \<longleftrightarrow> 127 * 256 + 0 \<le> unat a * 256 + unat b \<and> unat a * 256 + unat b \<le> 127 * 256 + 255"
    and "a = 172 \<and> 16 \<le> b \<and> b \<le> 31 \<longleftrightarrow>
      172 * 256 + 16 \<le> unat a * 256 + unat b \<and> unat a * 256 + unat b \<le> 172 * 256 + 31"
    and "a = 192 \<and> b = 168 \<longleftrightarrow>
      192 * 256 + 168 \<le> unat a * 256 + unat b \<and> unat a * 256 + unat b \<le> 192 * 256 + 168"
proof -
  have bound: "unat b < 256" using unsigned_less [of b] by simp
  have eq: "x = numeral n \<longleftrightarrow> unat x = unat (numeral n :: 8 word)" for x :: "8 word" and n
    by (rule word_eq_iff_unsigned)
  have order: "B < 256 \<Longrightarrow> A * 256 + B \<le> unat a * 256 + unat b \<longleftrightarrow> A < unat a \<or> A = unat a \<and> B \<le> unat b"
    "B < 256 \<Longrightarrow> unat a * 256 + unat b \<le> A * 256 + B \<longleftrightarrow> unat a < A \<or> unat a = A \<and> unat b \<le> B" for A B
    by (simp_all only: octet_order bound)
  note rules = eq word_le_nat_alt
  show "a = 10 \<longleftrightarrow> 10 * 256 + 0 \<le> unat a * 256 + unat b \<and> unat a * 256 + unat b \<le> 10 * 256 + 255"
    using bound by (simp only: rules order) auto
  show "a = 127 \<longleftrightarrow> 127 * 256 + 0 \<le> unat a * 256 + unat b \<and> unat a * 256 + unat b \<le> 127 * 256 + 255"
    using bound by (simp only: rules order) auto
  show "a = 172 \<and> 16 \<le> b \<and> b \<le> 31 \<longleftrightarrow>
      172 * 256 + 16 \<le> unat a * 256 + unat b \<and> unat a * 256 + unat b \<le> 172 * 256 + 31"
    by (simp only: rules order) auto
  show "a = 192 \<and> b = 168 \<longleftrightarrow>
      192 * 256 + 168 \<le> unat a * 256 + unat b \<and> unat a * 256 + unat b \<le> 192 * 256 + 168"
    by (simp only: rules order) auto
qed

lemma private_ipv4:
  "ipv4_is_loopback a \<or> ipv4_is_private a \<longleftrightarrow> private_host (HostIpv4 a)"
proof -
  have bound: "unat x < 256" for x :: "8 word"
    using unsigned_less [of x] by simp
  show ?thesis
    unfolding ipv4_is_loopback_def ipv4_is_private_def private_host_def private_blocks_def ipv4_number_def
      octet_blocks(1) [of "octet_a a" "octet_b a"] octet_blocks(2) [of "octet_a a" "octet_b a"]
      octet_blocks(3) [of "octet_a a" "octet_b a"] octet_blocks(4) [of "octet_a a" "octet_b a"]
    by (simp add: dotted_block [OF bound bound bound]) blast
qed

lemma unique_local: "s AND 0xfe00 = (0xfc00 :: 16 word) \<longleftrightarrow> 64512 \<le> unat s \<and> unat s \<le> 65023"
proof -
  have "s AND NOT (mask 9) = push_bit 9 (drop_bit 9 s)"
    by (rule bit_word_eqI) (auto simp: bit_simps not_less)
  moreover have "NOT (mask 9) = (0xfe00 :: 16 word)"
    by (simp add: mask_eq_exp_minus_1)
  ultimately have high: "s AND 0xfe00 = push_bit 9 (drop_bit 9 s)" by simp
  have "unat (push_bit 9 (drop_bit 9 s)) = unat s div 512 * 512"
  proof -
    have "unat s < 2 ^ 16" using unsigned_less [of s] by simp
    then have "unat s div 512 * 512 < 2 ^ 16" by (metis div_times_less_eq_dividend le_less_trans)
    then show ?thesis
      unfolding unsigned_push_bit_eq unsigned_drop_bit_eq
      by (simp add: drop_bit_eq_div push_bit_eq_mult take_bit_eq_mod mult.commute)
  qed
  moreover have "s AND 0xfe00 = 0xfc00 \<longleftrightarrow> unat (s AND 0xfe00) = unat (0xfc00 :: 16 word)"
    by (rule word_eq_iff_unsigned)
  ultimately have "s AND 0xfe00 = 0xfc00 \<longleftrightarrow> unat s div 512 * 512 = 64512"
    unfolding high by simp
  moreover have "q * 512 = 64512 \<longleftrightarrow> 64512 \<le> q * 512 + r \<and> q * 512 + r \<le> 65023" if r: "r < 512" for q r :: nat
  proof
    show "64512 \<le> q * 512 + r \<and> q * 512 + r \<le> 65023" if "q * 512 = 64512" using that r by linarith
    assume q: "64512 \<le> q * 512 + r \<and> q * 512 + r \<le> 65023"
    have "q < 127" using q by linarith
    moreover have "125 < q" using q r by linarith
    ultimately show "q * 512 = 64512" by simp
  qed
  from this [of "unat s mod 512" "unat s div 512"]
  have "unat s div 512 * 512 = 64512 \<longleftrightarrow> 64512 \<le> unat s \<and> unat s \<le> 65023"
    unfolding div_mult_mod_eq by simp
  ultimately show ?thesis by simp
qed

text \<open>The host test of the code is membership in these blocks.\<close>

lemma is_private_host_iff: "is_private_host u \<longleftrightarrow> (\<exists>h. url_host u = Some h \<and> private_host h)"
proof (cases "url_host u")
  case None
  then show ?thesis by (simp add: is_private_host_def)
next
  case (Some h)
  show ?thesis
  proof (cases h)
    case (HostIpv4 a)
    then show ?thesis using Some private_ipv4 [of a] by (simp add: is_private_host_def)
  next
    case (HostIpv6 a)
    have "ipv6_is_unique_local a \<longleftrightarrow> segments a \<noteq> [] \<and> 64512 \<le> unat (hd (segments a)) \<and>
        unat (hd (segments a)) \<le> 65023"
      by (cases "segments a") (simp_all add: ipv6_is_unique_local_def unique_local)
    with HostIpv6 Some show ?thesis
      by (simp add: is_private_host_def private_host_def ipv6_is_loopback_def)
  next
    case (HostDomain d)
    have "split_on (CHR ''.'') d = [d] \<longleftrightarrow> CHR ''.'' \<notin> set d"
      using split_on_free [of _ "CHR ''.''" d] split_on_free_whole [of "CHR ''.''" d] by fastforce
    moreover have "CHR ''.'' \<notin> set ''localhost''" by simp
    ultimately show ?thesis using HostDomain Some by (auto simp: is_private_host_def private_host_def)
  qed
qed

section \<open>The links of a process\<close>

lemma client_new_protected:
  "client_new built role u creds timeout = Inr c \<Longrightarrow> cl_base_url c = u \<and> protected_link u"
  by (auto simp: client_new_def validate_base_url_def rust_results protected_link_def is_private_host_iff
      split: if_splits)

lemma process_handler_clients:
  assumes "process_handler built u timeout creds admin profile = Inr h" "c \<in> handler_clients h"
  shows "cl_base_url c = u \<and> protected_link u"
  using assms
  by (auto simp: process_handler_def handler_clients_def handler_new_def handler_read_only_def
      with_tool_profile_def rust_results split: option.splits dest!: client_new_protected)

text \<open>
  \<open>Url::join\<close> of a relative reference without scheme and authority, such as the request families,
  keeps the scheme and the host of the base.
\<close>

definition joins_keep_origin :: "env \<Rightarrow> bool" where
  "joins_keep_origin env \<longleftrightarrow> (\<forall>u v. \<forall>family \<in> api_families.
     url_join env u family = Some v \<longrightarrow> url_scheme v = url_scheme u \<and> url_host v = url_host u)"

lemma scoped_call_addressed:
  "\<exists>rs. sent (snd (scoped_call_tool env te fx h ctx params w)) = sent w @ rs \<and>
     list_all (addressed env (handler_clients h)) rs"
proof (cases "scoped_handler fx h ctx")
  case (Inl e)
  then show ?thesis by (simp add: scoped_call_tool_def fail_def)
next
  case (Inr scoped)
  then have "handler_clients scoped = handler_clients h"
    by (auto elim!: scoped_handler_Inr simp: handler_clients_def)
  with call_tool_addressed [of env te scoped "rc_token ctx" params w] Inr show ?thesis
    by (simp add: scoped_call_tool_def)
qed

text \<open>What a started process is made of, over HTTP or stdio.\<close>

lemma started_process:
  assumes "http_handler jx url_parse log_filter built en profile = Inr (s, h) \<or>
      stdio_handler url_parse built en profile = Inr h"
  obtains rd admin where "read_settings_from url_parse en = Inr rd"
    "process_handler built (rs_upstream_url rd) (rs_upstream_timeout rd) (rs_credentials rd) admin profile = Inr h"
  using assms
proof
  assume "http_handler jx url_parse log_filter built en profile = Inr (s, h)"
  then have st: "settings_from jx url_parse en (profile_writes profile) = Inr s"
    and h: "process_handler built (se_upstream_url s) (se_upstream_timeout s) (se_read_credentials s)
      (se_admin_credentials s) profile = Inr h"
    by (auto simp: http_handler_def http_settings_def rust_results)
  from st obtain rd where "read_settings_from url_parse en = Inr rd" "se_upstream_url s = rs_upstream_url rd"
    "se_upstream_timeout s = rs_upstream_timeout rd" "se_read_credentials s = rs_credentials rd"
    unfolding settings_from_def by (simp only: rbind_Inr_iff sum.inject) (elim exE conjE, auto)
  with h that show thesis by simp
next
  assume "stdio_handler url_parse built en profile = Inr h"
  with that show thesis by (auto simp: stdio_handler_def rust_results)
qed

text \<open>
  C17: A process never sends its Core credentials to another place than the configured Core,
  nor in the clear to a public host. Whatever profile it runs, over HTTP or over stdio, every
  request of every tool call goes to the scheme and host of the configured upstream URL; and this
  is https, or http to a host that is loopback, in a private address block or a single-label name.
\<close>

theorem credentials_stay_on_protected_links:
  assumes "http_handler jx url_parse log_filter built en profile = Inr (s, h) \<and>
        m = scoped_call_tool env te fx h ctx params \<or>
      stdio_handler url_parse built en profile = Inr h \<and> m = call_tool env te h ct params"
    and "joins_keep_origin env"
  shows "\<exists>rd rs. read_settings_from url_parse en = Inr rd \<and> sent (snd (m w)) = sent w @ rs \<and>
    (\<forall>rq \<in> set rs. protected_link (rq_endpoint rq) \<and>
       url_scheme (rq_endpoint rq) = url_scheme (rs_upstream_url rd) \<and>
       url_host (rq_endpoint rq) = url_host (rs_upstream_url rd))"
proof -
  obtain rd admin where rd: "read_settings_from url_parse en = Inr rd"
    and h: "process_handler built (rs_upstream_url rd) (rs_upstream_timeout rd) (rs_credentials rd) admin
      profile = Inr h"
    using assms(1) started_process by metis
  obtain rs where rs: "sent (snd (m w)) = sent w @ rs" "list_all (addressed env (handler_clients h)) rs"
    using assms(1) scoped_call_addressed [of env te fx h ctx params w]
      call_tool_addressed [of env te h ct params w] by blast
  have "protected_link (rq_endpoint rq) \<and>
      url_scheme (rq_endpoint rq) = url_scheme (rs_upstream_url rd) \<and>
      url_host (rq_endpoint rq) = url_host (rs_upstream_url rd)" if "rq \<in> set rs" for rq
  proof -
    from rs(2) that obtain c where c: "c \<in> handler_clients h" "rq_family rq \<in> api_families"
      "url_join env (cl_base_url c) (rq_family rq) = Some (rq_endpoint rq)"
      by (auto simp: list_all_iff addressed_def)
    note u = process_handler_clients [OF h c(1)]
    from c u assms(2) have "url_scheme (rq_endpoint rq) = url_scheme (rs_upstream_url rd)"
      "url_host (rq_endpoint rq) = url_host (rs_upstream_url rd)"
      unfolding joins_keep_origin_def by metis+
    with u show ?thesis by (simp add: protected_link_def)
  qed
  with rd rs(1) show ?thesis by blast
qed

text \<open>A process with every tool deploys a stack of a Core in its own network, over plain http.\<close>

definition sample_full_stdio :: "transfer_files handler" where
  "sample_full_stdio = (case stdio_handler sample_url_parse True sample_admin_environment Full of
     Inr h \<Rightarrow> h | Inl _ \<Rightarrow> handler_read_only sample_client)"

lemma sample_full_stdio_handler:
  "stdio_handler sample_url_parse True sample_admin_environment Full = Inr sample_full_stdio"
proof -
  have "is_ok (stdio_handler sample_url_parse True sample_admin_environment Full :: _ + transfer_files handler)"
    by code_simp
  then show ?thesis by (simp add: sample_full_stdio_def is_ok_def split: sum.splits)
qed

theorem credentials_stay_on_protected_links_witness:
  "let rs = sent (snd (call_tool sample_core sample_tools sample_full_stdio (\<lambda>_. False)
      (sample_call ''stacks.deploy'') (initial_world default_transfer_files))) in
   map rq_variant rs = [''GetVersion'', ''ListStacks'', ''DeployStack''] \<and>
   (\<forall>rq \<in> set rs. protected_link (rq_endpoint rq))"
proof -
  let ?rs = "sent (snd (call_tool sample_core sample_tools sample_full_stdio (\<lambda>_. False)
      (sample_call ''stacks.deploy'') (initial_world default_transfer_files)))"
  have "joins_keep_origin sample_core"
    by (auto simp: joins_keep_origin_def sample_core_def sample_env_def)
  from credentials_stay_on_protected_links [of plain_jwt sample_url_parse "\<lambda>_. True" True
      sample_admin_environment Full undefined sample_full_stdio
      "call_tool sample_core sample_tools sample_full_stdio (\<lambda>_. False) (sample_call ''stacks.deploy'')"
      sample_core sample_tools undefined undefined "sample_call ''stacks.deploy''" "\<lambda>_. False", OF _ this,
      of "initial_world default_transfer_files"]
  have "\<forall>rq \<in> set ?rs. protected_link (rq_endpoint rq)"
    by (simp add: sample_full_stdio_handler) (auto simp: initial_world_def)
  moreover have "map rq_variant ?rs = [''GetVersion'', ''ListStacks'', ''DeployStack'']" by code_simp
  ultimately show ?thesis by (simp add: Let_def)
qed

end
