(* ===== verification/Spec2Isabelle.thy ===== *)
theory Spec2Isabelle
  imports Prelude Rust_Str Json Api_Types Api_Errors Urls Api_Operations Io Api_Client
    Api_Inventory Mcp_Registry Mcp_Schemas Mcp_Inputs Mcp_Normalize Mcp_History Mcp_Endpoints
    Mcp_Documents Mcp_Files Mcp_Execution
    Server_Files Server_Transfers Mcp_Errors Mcp_Tools Mcp_Calls
    Triples Mcp_Safety Mcp_Submissions Mcp_Outcomes Server_Calls
    Server_Auth Server_Identity Server_Lifecycle Server_Config Server_Router Server_Stdio Mcp_Catalog Server_Process
    Mcp_Links Server_Links
begin

text \<open>
  \<^bold>\<open>The program.\<close> The repository is a server of the Model Context Protocol (MCP) in front of
  Komodo Core, a deployment manager with an HTTP API. An agent calls tools over HTTP behind an
  authenticating gateway, or over the standard streams of a local process. Read tools list and
  show Core's resources; write tools execute or configure one. The code under \<open>crates/\<close> has three
  layers, and so has this development:

  \<^item> \<open>komodo-api\<close> talks to Core: one bounded HTTP request at a time, a single retry for reads, typed
    inventories, and the reduction of a failed response to facts without credentials.
  \<^item> \<open>komodo-mcp\<close> is the handler: the registry of tools and the profiles that limit them, the
    validation of arguments, exact selection of one resource, the tools themselves, and the errors
    a caller sees. Literal credentials never travel in an answer: they go through a file service
    that the transport provides.
  \<^item> \<open>komodo-server\<close> is the transport: configuration, gateway authentication, admission and request
    lifetimes, the store of credential files with its one-time transfers, the router and stdio.

  \<^bold>\<open>How the code is modelled.\<close> A Rust \<open>Result\<close> is a sum (\<open>Inl\<close> the error), a \<open>String\<close> the list of its
  UTF-8 bytes, an unsigned integer a \<open>nat\<close> and an \<open>i64\<close> an \<open>int\<close> with saturation and checks written
  out (\<open>Prelude\<close>, \<open>Rust_Str\<close>); durations and instants are nanoseconds. Code that awaits is a state
  transformer over a \<open>world\<close> (\<open>Io\<close>), which records every request sent, the clients' caches and the
  file store; Core's replies, the clock and cancellation are the environment \<open>env\<close>, a function of
  what was sent and of the number of observations made, so every statement holds for every
  behaviour of Core. A computation ends with a value, an error, because its timeout fired or its
  enclosing select ended, or with a panic. State shared between requests is given by a step
  relation over the atomic sections of the code, with the runs of the relation as the histories.

  \<^bold>\<open>Theories.\<close>

  \<^item> \<open>Prelude\<close>, \<open>Rust_Str\<close>, \<open>Json\<close>: results, machine integers, the string operations of the standard
    library, JSON values and the derived deserialisers.
  \<^item> \<open>Api_Types\<close>, \<open>Api_Errors\<close>, \<open>Api_Operations\<close>, \<open>Urls\<close>, \<open>Io\<close>, \<open>Api_Client\<close>, \<open>Api_Inventory\<close>:
    \<open>komodo-api/src\<close> (\<open>lib.rs\<close>, \<open>errors.rs\<close>, \<open>operations.rs\<close>, \<open>inventory.rs\<close>, \<open>networks.rs\<close>,
    \<open>stacks.rs\<close>). \<open>post_once\<close> and \<open>post\<close> are \<open>Client::post_once\<close> and \<open>post\<close>, \<open>from_response\<close> is
    \<open>UpstreamFailure::from_response\<close>, \<open>inventory\<close> the paged lookup.
  \<^item> \<open>Mcp_Registry\<close>, \<open>Mcp_Schemas\<close>, \<open>Mcp_Inputs\<close>, \<open>Mcp_Normalize\<close>, \<open>Mcp_History\<close>, \<open>Mcp_Files\<close>,
    \<open>Mcp_Execution\<close>, \<open>Mcp_Errors\<close>, \<open>Mcp_Tools\<close>, \<open>Mcp_Calls\<close>: \<open>komodo-mcp/src\<close>. One definition per handler method with
    its guards and effects in the order of the code; \<open>run_tool\<close> and \<open>dispatch\<close> are the match over the
    registry, \<open>call_tool\<close> the select around a call. \<open>Mcp_Schemas\<close> has the rewriting of the tool
    schemas, with a validator for JSON Schema (\<open>accepts\<close>) as its reference; \<open>Mcp_Catalog\<close> the listing
    built from them: for every tool its description, argument type and answer type
    (\<open>ToolSpec::catalog_tool\<close>, \<open>tool\<close>), and the listing of a profile or of a handler.
  \<^item> \<open>Server_Files\<close>, \<open>Server_Transfers\<close>: \<open>files.rs\<close>, the transfer store \<open>TransferFiles\<close>, its HTTP
    handlers, and the system they form with the bodies being streamed (\<open>transfer_step\<close>).
  \<^item> \<open>Server_Auth\<close>, \<open>Server_Identity\<close>: \<open>auth.rs\<close>; the key cache under concurrent requests is
    \<open>key_step\<close>. \<open>Server_Lifecycle\<close>: \<open>lifecycle.rs\<close>, with \<open>limits_step\<close> for the permits. \<open>Server_Config\<close>:
    \<open>config.rs\<close>. \<open>Server_Stdio\<close>: \<open>stdio.rs\<close>. \<open>Server_Router\<close>: \<open>server.rs\<close>, \<open>lib.rs\<close>, the
    layers of the routes and the clients of the process. \<open>Server_Process\<close>: \<open>main.rs\<close>, the command
    lines and what each starts, the probe, and the end of the process with its drain of five
    seconds after a signal.
  \<^item> \<open>Triples\<close>, \<open>Mcp_Safety\<close>, \<open>Mcp_Submissions\<close>, \<open>Mcp_Outcomes\<close>, \<open>Server_Calls\<close>: no code of their own;
    rules for triples over \<open>world\<close> computations and the properties of whole calls they give.
  \<^item> \<open>Mcp_Links\<close>, \<open>Server_Links\<close>: no code of their own; where the requests of a call go, composed
    like the code (\<open>link_intros\<close>), and from there where those of a whole process go. The address
    blocks a plain http link may stay in are written as ranges of dotted addresses.
  \<^item> \<open>Mcp_Endpoints\<close>, \<open>Mcp_Documents\<close>: no code of their own; what \<open>Mcp_History\<close> shows of an endpoint
    URL, component by component, and of a history document, place by place.

  \<^bold>\<open>Interfaces.\<close> The handler relies on its transport through the trait \<open>CredentialFiles\<close>: the locale
  \<open>credential_files\<close> states the operations and their laws, \<open>tool_files\<close> proves the calls safe from
  them, and the interpretations \<open>server_files\<close> and \<open>server_tools\<close> discharge the laws for the transfer
  store of the server.

  \<^bold>\<open>What the lemmas show.\<close>

  \<^item> Calls: at most one mutation per call, only by an unfinished call, addressed to the resource of
    Core's listing that the selector names; reads only for read tools and read-only processes; a
    caller whose mutation failed is told that the outcome is unknown; no call panics. The
    composition rules (\<open>traffic_intros\<close>, \<open>send_bounds\<close>, the \<open>safe\<close> and \<open>discloses\<close> triples) follow
    the constructors of the monad, so a proof about a tool is the list of its steps.
  \<^item> Data: selection, search, paging and filters against their specifications; round trips of
    documents; no credential in diagnostics, history or views; the published schemas accept
    what the derived ones accept, so every answer of a tool validates against the schema the
    listing publishes for it; arguments that do not deserialise are refused before anything is
    sent.
  \<^item> Links: every request of every call of a process goes to the scheme and host of the configured
    Core, which is https, or http to a loopback host, a private address or a single-label name.
  \<^item> History: every literal credential of a document is replaced by its marker and recorded by the
    name of its place, endpoint URLs by their projection, and every other value is kept. The
    projection of an endpoint hides the password, the secret segment of a Slack or Discord path
    and the secret pairs of a Pushover query of whatever the URL parser reads, and is reported
    exactly when one of them was there.
  \<^item> Transfers: who may read or take which bytes, once, and within which capacity, over all runs.
  \<^item> Server: authentication of every admitted request, the rate of key fetches, permits and
    lifetimes, bounds of the configuration, framing of stdio; and the composition of the layers:
    whose files a served call keeps, what a read-only process can send, and the transfer route as
    a refinement of the transfer system. Process: the probe asks the listener that was bound, and
    the process ends within its bounds after a signal.

  \<^bold>\<open>Loops and bounds.\<close> Loops over chunks, pages and services recurse on lists the code bounds: an
  inventory scan on the \<open>max_selector_pages\<close> page numbers, a response on its chunks. \<open>search_walk\<close> has
  fuel for the caller's loop over offsets; one unit more than the listed resources is shown to be
  enough. The validator follows at most a given number of nested references; its results hold for
  every number. \<open>normalize_schema\<close> terminates by a weight that each rewriting step lowers.
  \<open>body_frames\<close> terminates by its size hint. The select over an admitted request
  may be polled forever and is a partial function, shown to return once its timer has fired
  (\<open>select_response_from\<close>).

  \<^bold>\<open>Parameters.\<close> Third-party code is an argument: the HTTP client and Core behind it (\<open>send\<close>), the
  deserialisers of Core's responses, \<open>aho-corasick\<close>, \<open>url\<close>, \<open>toml_edit\<close>, \<open>percent-encoding\<close>, \<open>sha2\<close>,
  \<open>base64\<close>, \<open>getrandom\<close>, \<open>jsonwebtoken\<close>, \<open>subtle\<close>. Where a property needs more of them than their type
  it assumes a named documented contract (\<open>aho_corasick_contract\<close>, \<open>jwt_documented\<close>,
  \<open>identifiers_ok\<close>, \<open>url_crates_documented\<close>, \<open>joins_keep_origin\<close>), and its witness instantiates it.

  \<^bold>\<open>Not modelled.\<close> Tracing and \<open>diagnostics.rs\<close> (subscriber set-up); the derivation of the argument and answer schemas by \<open>schemars\<close> (generated
  text: a function of the type, with the validity of serialised values as its contract); the
  MCP library's HTTP service and message types (a request that passed every layer is handed to
  it, a message of stdio is decoded by it); sockets, the delivery of signals and the runtime; redacting \<open>Debug\<close>
  implementations and zeroisation, which have no functional behaviour; release scripts and
  documents.
\<close>

end
